(* ===== verification/Prelude.thy ===== *)
theory Prelude
  imports Main "HOL-Library.While_Combinator"
begin

text \<open>
  Shared vocabulary of the assembler model (\<open>src/Arq-ass/aRVA.py\<close>).
  Python integers are unbounded, so every integer of the source is an \<open>int\<close>;
  Python's \<open><<\<close>, \<open>>>\<close>, \<open>&\<close> and \<open>|\<close> on \<open>int\<close> are \<open>push_bit\<close>,
  \<open>drop_bit\<close> (which rounds towards minus infinity, as Python does), \<open>AND\<close> and
  \<open>OR\<close> on two's-complement integers of unbounded width.  Python exceptions are the
  values of \<open>py_exc\<close>, and a computation that may raise returns \<open>py_exc + 'a\<close>.
  This theory also holds the bit-field vocabulary (\<open>fits\<close>, \<open>field\<close>) and the
  lemmas on it that the encoder proofs share.
\<close>

unbundle bit_operations_syntax

named_theorems fits_intros "facts that a value fits a bit width"
named_theorems pyrt_simps "evaluation rules of the Python runtime model"

subsection \<open>Python exceptions and the error monad\<close>

text \<open>The exceptions the programs can meet; \<open>StructError\<close> is \<open>struct.error\<close>, raised by
  \<open>struct.pack\<close> for a value out of the range of its format.\<close>

datatype py_exc = ValueError | IndexError | KeyError | AttributeError | TypeError | StructError
  | ZeroDivisionError

type_synonym 'a py = "py_exc + 'a"

definition py_bind :: "'e + 'a \<Rightarrow> ('a \<Rightarrow> 'e + 'b) \<Rightarrow> 'e + 'b" where
  "py_bind m f = (case m of Inl e \<Rightarrow> Inl e | Inr x \<Rightarrow> f x)"

lemma py_bind_simps [simp]:
  "py_bind (Inl e) f = Inl e"
  "py_bind (Inr x) f = f x"
  by (simp_all add: py_bind_def)

lemma py_bind_eq_Inr [simp]:
  "py_bind m f = Inr y \<longleftrightarrow> (\<exists>x. m = Inr x \<and> f x = Inr y)"
  by (cases m) simp_all

text \<open>\<open>xs[i]\<close> for \<open>i \<ge> 0\<close>: \<open>IndexError\<close> out of range.\<close>

definition py_index :: "'a list \<Rightarrow> nat \<Rightarrow> 'a py" where
  "py_index xs i = (if i < length xs then Inr (xs ! i) else Inl IndexError)"

lemma py_index_simps [simp]:
  "py_index [] i = Inl IndexError"
  "py_index (x # xs) 0 = Inr x"
  "py_index (x # xs) (Suc i) = py_index xs i"
  by (simp_all add: py_index_def)

lemma py_index_eq_Inr [simp]: "py_index xs i = Inr x \<longleftrightarrow> i < length xs \<and> x = xs ! i"
  by (auto simp: py_index_def)

lemma py_index_numeral [simp]:
  "py_index (x # xs) (numeral n) = py_index xs (pred_numeral n)"
  by (simp add: numeral_eq_Suc)

subsection \<open>Types of the model\<close>

type_synonym addr = int
type_synonym symtab = "string \<rightharpoonup> int"
type_synonym image = "int \<rightharpoonup> int"

subsection \<open>Bit fields\<close>

text \<open>\<open>fits n x\<close>: \<open>x\<close> is an unsigned \<open>n\<close>-bit value.\<close>

definition fits :: "nat \<Rightarrow> int \<Rightarrow> bool" where
  "fits n x \<longleftrightarrow> 0 \<le> x \<and> x < 2 ^ n"

text \<open>\<open>field w lo len\<close>: bits \<open>lo .. lo + len - 1\<close> of \<open>w\<close>, as the RV32I manual
  writes \<open>w[lo+len-1:lo]\<close>.\<close>

definition field :: "int \<Rightarrow> nat \<Rightarrow> nat \<Rightarrow> int" where
  "field w lo len = take_bit len (drop_bit lo w)"

lemma fits_take_bit_iff: "fits n x \<longleftrightarrow> take_bit n x = x"
  by (simp add: fits_def take_bit_int_eq_self_iff)

lemma fits_bit: "fits n x \<Longrightarrow> bit x k \<Longrightarrow> k < n"
  by (metis bit_take_bit_iff fits_take_bit_iff)

lemma fits_nonneg: "fits n x \<Longrightarrow> 0 \<le> x"
  by (simp add: fits_def)

lemma fits_by_bits:
  assumes "\<And>k. n \<le> k \<Longrightarrow> \<not> bit x k" and "0 \<le> x"
  shows "fits n x"
proof -
  have "take_bit n x = x"
    by (rule bit_eqI) (use assms(1) in \<open>auto simp: bit_take_bit_iff not_le[symmetric]\<close>)
  then show ?thesis by (simp add: fits_take_bit_iff)
qed

lemma fits_mono [fits_intros]: "fits m x \<Longrightarrow> m \<le> n \<Longrightarrow> fits n x"
  unfolding fits_def by (meson order_less_le_trans power_increasing_iff one_le_numeral one_less_numeral_iff semiring_norm(76))

lemma fits_take_bit [fits_intros]: "fits n (take_bit n x)"
  by (simp add: fits_def)

lemma fits_field [fits_intros]: "fits len (field w lo len)"
  by (simp add: field_def fits_take_bit)

lemma fits_and_mask [fits_intros]: "fits n (x AND mask n)"
  by (simp add: take_bit_eq_mask [symmetric] fits_take_bit)

lemma field_eqI:
  assumes "\<And>k. k < len \<Longrightarrow> bit w (lo + k) = bit x k" and "fits len x"
  shows "field w lo len = x"
  unfolding field_def
  by (rule bit_eqI) (use assms in \<open>auto simp: bit_simps dest: fits_bit\<close>)

lemma bit_field_iff: "bit (field w lo len) k \<longleftrightarrow> k < len \<and> bit w (lo + k)"
  by (auto simp: field_def bit_simps)

lemma fits_decide [simp]: "fits n (numeral m) \<longleftrightarrow> numeral m < (2::int) ^ n"
  "fits n 0" "fits n 1 \<longleftrightarrow> 0 < n"
    apply (simp_all add: fits_def)
  by (metis one_less_power power_0 less_irrefl one_less_numeral_iff semiring_norm(76) neq0_conv)

subsection \<open>Loops\<close>

text \<open>A \<open>while\<close> loop whose test first fails after \<open>m\<close> steps returns the state after \<open>m\<close> steps; it runs for ever exactly when the test never fails.\<close>

lemma while_option_steps:
  assumes "\<forall>j<m. b ((c ^^ j) s)" "\<not> b ((c ^^ m) s)"
  shows "while_option b c s = Some ((c ^^ m) s)"
proof -
  have "(LEAST k. \<not> b ((c ^^ k) s)) = m"
    using assms by (intro Least_equality) (auto simp: not_less[symmetric])
  then show ?thesis using assms(2) unfolding while_option_def by auto
qed

lemma while_option_None_iff: "while_option b c s = None \<longleftrightarrow> (\<forall>k. b ((c ^^ k) s))"
  by (auto simp: while_option_def)

lemma funpow_add_const: "((\<lambda>x. x + d) ^^ j) (a::int) = a + d * int j"
  by (induction j) (simp_all add: algebra_simps)

end
