(* ===== verification/PyRuntime.thy ===== *)
theory PyRuntime
  imports Prelude
begin

text \<open>
  The Python built-ins that \<open>aRVA.py\<close> calls, on ASCII text: \<open>str.strip\<close>,
  \<open>str.lower\<close>, \<open>str.isdigit\<close>, \<open>str.split\<close>, \<open>int(s, 0)\<close>, the three regular
  expressions of the source (operand splitting, the memory operand \<open>offset(reg)\<close>
  and the string literal of \<open>.ascii\<close>), and the codec chain
  \<open>.encode('utf-8').decode('unicode_escape').encode('utf-8')\<close> of line 465.
  A Python \<open>str\<close> is modelled by its UTF-8 bytes (a HOL \<open>string\<close>); the
  character classes are those of CPython restricted to ASCII (\<open>isspace\<close> is
  true for 9--13 and 28--32), which is exact for ASCII source text.
\<close>

subsection \<open>Character classes, \<open>strip\<close>, \<open>lower\<close>, \<open>isdigit\<close>\<close>

definition is_space :: "char \<Rightarrow> bool" where
  "is_space c = (let n = of_char c :: nat in (9 \<le> n \<and> n \<le> 13) \<or> (28 \<le> n \<and> n \<le> 32))"

definition is_digit :: "char \<Rightarrow> bool" where
  "is_digit c = (let n = of_char c :: nat in 48 \<le> n \<and> n \<le> 57)"

definition py_lstrip :: "string \<Rightarrow> string" where
  "py_lstrip s = dropWhile is_space s"

definition py_rstrip :: "string \<Rightarrow> string" where
  "py_rstrip s = rev (dropWhile is_space (rev s))"

definition py_strip :: "string \<Rightarrow> string" where
  "py_strip s = py_rstrip (py_lstrip s)"

definition lower_char :: "char \<Rightarrow> char" where
  "lower_char c = (let n = of_char c :: nat in if 65 \<le> n \<and> n \<le> 90 then char_of (n + 32) else c)"

definition py_lower :: "string \<Rightarrow> string" where
  "py_lower s = map lower_char s"

definition py_isdigit :: "string \<Rightarrow> bool" where
  "py_isdigit s \<longleftrightarrow> s \<noteq> [] \<and> list_all is_digit s"

text \<open>\<open>int(s)\<close> on a string of decimal digits.\<close>

definition decimal_value :: "string \<Rightarrow> int" where
  "decimal_value s = foldl (\<lambda>acc c. 10 * acc + (int (of_char c) - 48)) 0 s"

subsection \<open>Splitting\<close>

text \<open>\<open>s.split(c, 1)\<close>.\<close>

definition split_once :: "char \<Rightarrow> string \<Rightarrow> string list" where
  "split_once c s =
     (if c \<in> set s then [takeWhile (\<lambda>x. x \<noteq> c) s, tl (dropWhile (\<lambda>x. x \<noteq> c) s)] else [s])"

text \<open>\<open>s.split(c)\<close>.\<close>

fun split_on :: "char \<Rightarrow> string \<Rightarrow> string list" where
  "split_on c [] = [[]]"
| "split_on c (x # xs) =
     (if x = c then [] # split_on c xs
      else (case split_on c xs of p # ps \<Rightarrow> (x # p) # ps | [] \<Rightarrow> [[x]]))"

text \<open>\<open>s.split(None, 1)\<close>: leading blanks are skipped, the first word is split off,
  and the remainder loses its leading blanks only.\<close>

definition py_split_ws1 :: "string \<Rightarrow> string list" where
  "py_split_ws1 s =
     (let t = py_lstrip s in
      if t = [] then []
      else (let w = takeWhile (\<lambda>c. \<not> is_space c) t;
                r = py_lstrip (dropWhile (\<lambda>c. \<not> is_space c) t)
            in if r = [] then [w] else [w, r]))"

text \<open>\<open>re.split(r'\s*,\s*', s)\<close>: the blanks on either side of every comma are
  consumed with it, the blanks at the two ends of \<open>s\<close> are kept.\<close>

fun comma_tail :: "string list \<Rightarrow> string list" where
  "comma_tail [] = []"
| "comma_tail [p] = [py_lstrip p]"
| "comma_tail (p # ps) = py_strip p # comma_tail ps"

definition re_split_comma :: "string \<Rightarrow> string list" where
  "re_split_comma s =
     (case split_on (CHR '','') s of
        [] \<Rightarrow> []
      | [p] \<Rightarrow> [p]
      | p # ps \<Rightarrow> py_rstrip p # comma_tail ps)"

subsection \<open>\<open>int(s, 0)\<close>\<close>

text \<open>
  CPython's \<open>PyLong_FromString\<close> with base 0: surrounding blanks are stripped, an
  optional sign, then \<open>0x\<close>/\<open>0o\<close>/\<open>0b\<close> (either case) selects the base, and a
  single underscore may follow the prefix.  Digits may be separated by single
  underscores.  A decimal literal with a leading zero must be zero (\<open>int('010', 0)\<close>
  raises).  \<open>None\<close> is the \<open>ValueError\<close>.
\<close>

definition digit_val :: "char \<Rightarrow> nat option" where
  "digit_val c = (let n = of_char c :: nat in
     if 48 \<le> n \<and> n \<le> 57 then Some (n - 48)
     else if 97 \<le> n \<and> n \<le> 122 then Some (n - 87)
     else if 65 \<le> n \<and> n \<le> 90 then Some (n - 55)
     else None)"

fun digits_us :: "nat \<Rightarrow> nat \<Rightarrow> bool \<Rightarrow> string \<Rightarrow> nat option" where
  "digits_us b acc prev [] = (if prev then None else Some acc)"
| "digits_us b acc prev (c # cs) =
     (if c = CHR ''_'' then (if prev then None else digits_us b acc True cs)
      else (case digit_val c of
              Some d \<Rightarrow> if d < b then digits_us b (b * acc + d) False cs else None
            | None \<Rightarrow> None))"

text \<open>The flag of \<open>digits_us\<close> is set at the start and after an underscore, where
  neither an underscore nor the end may come.\<close>

definition parse_digits :: "nat \<Rightarrow> string \<Rightarrow> nat option" where
  "parse_digits b s = digits_us b 0 True s"

definition skip_us :: "string \<Rightarrow> string" where
  "skip_us s = (if s \<noteq> [] \<and> hd s = CHR ''_'' then tl s else s)"

definition py_int0_unsigned :: "string \<Rightarrow> nat option" where
  "py_int0_unsigned t =
     (case t of
        c0 # c1 # r \<Rightarrow>
          if c0 = CHR ''0'' \<and> (c1 = CHR ''x'' \<or> c1 = CHR ''X'') then parse_digits 16 (skip_us r)
          else if c0 = CHR ''0'' \<and> (c1 = CHR ''o'' \<or> c1 = CHR ''O'') then parse_digits 8 (skip_us r)
          else if c0 = CHR ''0'' \<and> (c1 = CHR ''b'' \<or> c1 = CHR ''B'') then parse_digits 2 (skip_us r)
          else (case parse_digits 10 t of
                  Some n \<Rightarrow> if c0 = CHR ''0'' \<and> n \<noteq> 0 then None else Some n
                | None \<Rightarrow> None)
      | _ \<Rightarrow> parse_digits 10 t)"

definition py_int0 :: "string \<Rightarrow> int option" where
  "py_int0 s0 =
     (let s = py_strip s0 in
      case s of
        c # r \<Rightarrow>
          if c = CHR ''-'' then map_option (\<lambda>n. - int n) (py_int0_unsigned r)
          else if c = CHR ''+'' then map_option int (py_int0_unsigned r)
          else map_option int (py_int0_unsigned s)
      | [] \<Rightarrow> None)"

text \<open>\<open>int(x, 0)\<close> as a statement that raises.\<close>

definition py_int :: "string \<Rightarrow> int py" where
  "py_int s = (case py_int0 s of None \<Rightarrow> Inl ValueError | Some n \<Rightarrow> Inr n)"

subsection \<open>The regular expressions of the source\<close>

text \<open>
  The group \<open>(.+)\<close> or \<open>(.*)\<close> closed by a delimiter: greedy, so it ends at the
  last delimiter of the line (\<open>.\<close> does not cross a newline).
\<close>

definition group_before_last :: "char \<Rightarrow> bool \<Rightarrow> string \<Rightarrow> string option" where
  "group_before_last d nonempty q =
     (case dropWhile (\<lambda>c. c \<noteq> d) (rev q) of
        [] \<Rightarrow> None
      | _ # xs \<Rightarrow> if nonempty \<and> xs = [] then None else Some (rev xs))"

text \<open>\<open>re.match(r'(-?\d+)\((.+)\)', s)\<close>: the two groups, or \<open>None\<close>.\<close>

definition mem_operand :: "string \<Rightarrow> (string \<times> string) option" where
  "mem_operand s =
     (let neg = (s \<noteq> [] \<and> hd s = CHR ''-'');
          r0 = (if neg then tl s else s);
          ds = takeWhile is_digit r0;
          r1 = dropWhile is_digit r0
      in if ds \<noteq> [] \<and> r1 \<noteq> [] \<and> hd r1 = CHR ''(''
         then map_option (\<lambda>g. ((if neg then ''-'' else []) @ ds, g))
                (group_before_last (CHR '')'') True (takeWhile (\<lambda>c. c \<noteq> CHR 0x0A) (tl r1)))
         else None)"

text \<open>\<open>re.match(r'\"(.*)\"', s).group(1)\<close>.\<close>

definition str_literal :: "string \<Rightarrow> string option" where
  "str_literal s =
     (if s \<noteq> [] \<and> hd s = CHR 0x22
      then group_before_last (CHR 0x22) False (takeWhile (\<lambda>c. c \<noteq> CHR 0x0A) (tl s))
      else None)"

text \<open>\<open>s.replace(' ', '')\<close>.\<close>

definition remove_spaces :: "string \<Rightarrow> string" where
  "remove_spaces s = filter (\<lambda>c. c \<noteq> CHR '' '') s"

subsection \<open>The codecs of line 465\<close>

definition py_cons :: "'a \<Rightarrow> 'a list py \<Rightarrow> 'a list py" where
  "py_cons x r = (case r of Inl e \<Rightarrow> Inl e | Inr xs \<Rightarrow> Inr (x # xs))"

definition is_octal :: "char \<Rightarrow> bool" where
  "is_octal c = (let n = of_char c :: nat in 48 \<le> n \<and> n \<le> 55)"

text \<open>Exactly \<open>n\<close> hexadecimal digits at the front of the input.\<close>

definition hex_prefix :: "nat \<Rightarrow> string \<Rightarrow> nat option" where
  "hex_prefix n s =
     (if n \<le> length s \<and> list_all (\<lambda>c. case digit_val c of Some d \<Rightarrow> d < 16 | None \<Rightarrow> False) (take n s)
      then digits_us 16 0 False (take n s) else None)"

definition octal_value :: "string \<Rightarrow> nat" where
  "octal_value s = foldl (\<lambda>acc c. 8 * acc + (of_char c - 48)) 0 s"

definition simple_escape :: "char \<Rightarrow> nat option" where
  "simple_escape d =
     (if d = CHR 0x5C then Some 92 else if d = CHR 0x27 then Some 39
      else if d = CHR 0x22 then Some 34 else if d = CHR ''b'' then Some 8
      else if d = CHR ''f'' then Some 12 else if d = CHR ''t'' then Some 9
      else if d = CHR ''n'' then Some 10 else if d = CHR ''r'' then Some 13
      else if d = CHR ''v'' then Some 11 else if d = CHR ''a'' then Some 7
      else None)"

text \<open>
  \<open>bytes.decode('unicode_escape')\<close>: every byte that is not a backslash is the code
  point of the same value (Latin-1); after a backslash come a newline (dropped), a
  simple escape, one to three octal digits, \<open>x\<close> with two, \<open>u\<close> with four or
  \<open>U\<close> with eight hexadecimal digits (at most \<open>0x10FFFF\<close>), or any other byte, which
  is kept together with the backslash.  A truncated escape or a backslash at the end
  raises \<open>UnicodeDecodeError\<close>, a \<open>ValueError\<close>.  The \<open>\N{name}\<close> escape needs the
  Unicode name database and is not modelled: it raises in the model.
\<close>

fun unicode_escape :: "string \<Rightarrow> nat list py" where
  "unicode_escape [] = Inr []"
| "unicode_escape [c] = (if c = CHR 0x5C then Inl ValueError else Inr [of_char c])"
| "unicode_escape (c # d # cs) =
     (if c \<noteq> CHR 0x5C then py_cons (of_char c) (unicode_escape (d # cs))
      else if d = CHR 0x0A then unicode_escape cs
      else if is_octal d then
        (let ds = take 2 (takeWhile is_octal cs)
         in py_cons (octal_value (d # ds)) (unicode_escape (drop (length ds) cs)))
      else if d = CHR ''x'' then
        (case hex_prefix 2 cs of None \<Rightarrow> Inl ValueError
         | Some v \<Rightarrow> py_cons v (unicode_escape (drop 2 cs)))
      else if d = CHR ''u'' then
        (case hex_prefix 4 cs of None \<Rightarrow> Inl ValueError
         | Some v \<Rightarrow> py_cons v (unicode_escape (drop 4 cs)))
      else if d = CHR ''U'' then
        (case hex_prefix 8 cs of None \<Rightarrow> Inl ValueError
         | Some v \<Rightarrow> if 1114111 < v then Inl ValueError else py_cons v (unicode_escape (drop 8 cs)))
      else if d = CHR ''N'' then Inl ValueError
      else (case simple_escape d of
              Some v \<Rightarrow> py_cons v (unicode_escape cs)
            | None \<Rightarrow> py_cons 92 (py_cons (of_char d) (unicode_escape cs))))"

text \<open>\<open>str.encode('utf-8')\<close> of one code point; a lone surrogate raises
  \<open>UnicodeEncodeError\<close>, a \<open>ValueError\<close>.\<close>

definition utf8_char :: "nat \<Rightarrow> int list option" where
  "utf8_char cp =
     (if cp < 128 then Some [int cp]
      else if cp < 2048 then Some [int (192 + cp div 64), int (128 + cp mod 64)]
      else if 55296 \<le> cp \<and> cp \<le> 57343 then None
      else if cp < 65536 then
        Some [int (224 + cp div 4096), int (128 + (cp div 64) mod 64), int (128 + cp mod 64)]
      else Some [int (240 + cp div 262144), int (128 + (cp div 4096) mod 64),
                 int (128 + (cp div 64) mod 64), int (128 + cp mod 64)])"

fun utf8_encode :: "nat list \<Rightarrow> int list py" where
  "utf8_encode [] = Inr []"
| "utf8_encode (cp # cps) =
     (case utf8_char cp of
        None \<Rightarrow> Inl ValueError
      | Some bs \<Rightarrow> (case utf8_encode cps of Inl e \<Rightarrow> Inl e | Inr rest \<Rightarrow> Inr (bs @ rest)))"

subsection \<open>Lemmas on \<open>strip\<close>\<close>

lemma last_dropWhile: "dropWhile P xs \<noteq> [] \<Longrightarrow> last (dropWhile P xs) = last xs"
  by (induction xs) auto

lemma py_strip_ends:
  assumes "py_strip s \<noteq> []"
  shows "\<not> is_space (hd (py_strip s)) \<and> \<not> is_space (last (py_strip s))"
proof -
  define l where "l = dropWhile is_space s"
  define m where "m = dropWhile is_space (rev l)"
  have ps: "py_strip s = rev m"
    by (simp add: py_strip_def py_rstrip_def py_lstrip_def l_def m_def)
  with assms have "m \<noteq> []" by simp
  then have "last m = hd l" and "l \<noteq> []"
    by (auto simp: m_def last_dropWhile last_rev)
  moreover have "\<not> is_space (hd m)"
    using \<open>m \<noteq> []\<close> by (simp add: m_def hd_dropWhile)
  moreover have "\<not> is_space (hd l)"
    using \<open>l \<noteq> []\<close> by (simp add: l_def hd_dropWhile)
  ultimately show ?thesis
    using \<open>m \<noteq> []\<close> by (simp add: ps hd_rev last_rev)
qed

lemma py_strip_no_space:
  assumes "s \<noteq> []" "\<not> is_space (hd s)" "\<not> is_space (last s)"
  shows "py_strip s = s"
proof -
  have l: "dropWhile is_space s = s"
    using assms by (cases s) simp_all
  obtain a r where ra: "rev s = a # r"
    using assms(1) by (cases "rev s") auto
  then have "a = last s"
    by (metis last_snoc rev_rev_ident rev.simps(2))
  with assms(3) have na: "\<not> is_space a" by simp
  have "dropWhile is_space (rev s) = rev s"
    by (simp only: ra) (simp add: na)
  with l show ?thesis
    by (simp add: py_strip_def py_rstrip_def py_lstrip_def)
qed

lemma py_strip_Nil [simp]: "py_strip [] = []"
  by (simp add: py_strip_def py_rstrip_def py_lstrip_def)

lemma py_strip_idem: "py_strip (py_strip s) = py_strip s"
proof (cases "py_strip s = []")
  case True
  then show ?thesis by (simp only: True py_strip_Nil)
next
  case False
  then show ?thesis
    using py_strip_ends py_strip_no_space by blast
qed

end
