(* ===== verification/Registers.thy ===== *)
theory Registers
  imports PyRuntime
begin

text \<open>
  The register name resolver \<open>parse_reg\<close> (\<open>aRVA.py\<close> lines 31--74): a register
  token is lower-cased and stripped, then tried as \<open>xN\<close>, as one of the five special
  ABI names, as \<open>t0\<close>--\<open>t6\<close>, \<open>s0\<close>--\<open>s11\<close> and \<open>a0\<close>--\<open>a7\<close>; \<open>-1\<close> is the
  failure sentinel.  The lemmas show that the result is always a register index or
  the sentinel, that the resolver agrees with the ABI table of the RISC-V calling
  convention (\<open>abi_reg\<close>) on every name but \<open>s10\<close> and \<open>s11\<close>, which it resolves
  to \<open>s1\<close>, and that \<open>xN\<close> round-trips through the decimal printer \<open>show_nat\<close>.
\<close>

definition special_regs :: "(string \<times> int) list" where
  "special_regs = [(''ra'', 1), (''sp'', 2), (''gp'', 3), (''tp'', 4), (''fp'', 8)]"

definition t_mapping :: "int list" where
  "t_mapping = [5, 6, 7, 28, 29, 30, 31]"

definition parse_reg :: "string \<Rightarrow> int" where
  "parse_reg reg =
     (let r = py_strip (py_lower reg) in
      if r \<noteq> [] \<and> hd r = CHR ''x'' \<and> py_isdigit (tl r) then
        (let num = decimal_value (tl r) in if 0 \<le> num \<and> num \<le> 31 then num else -1)
      else (case map_of special_regs r of
        Some i \<Rightarrow> i
      | None \<Rightarrow>
        if r \<noteq> [] \<and> hd r = CHR ''t'' \<and> length r = 2 \<and> is_digit (r ! 1) then
          (let n = decimal_value [r ! 1] in if 0 \<le> n \<and> n \<le> 6 then t_mapping ! nat n else -1)
        else if r \<noteq> [] \<and> hd r = CHR ''s'' \<and> 2 \<le> length r \<and> is_digit (r ! 1) then
          (let n = decimal_value [r ! 1] in
           if n = 0 then 8 else if n = 1 then 9 else if 2 \<le> n \<and> n \<le> 11 then 18 + (n - 2) else -1)
        else if r \<noteq> [] \<and> hd r = CHR ''a'' \<and> length r = 2 \<and> is_digit (r ! 1) then
          (let n = decimal_value [r ! 1] in if 0 \<le> n \<and> n \<le> 7 then 10 + n else -1)
        else -1))"

subsection \<open>The ABI table of the specification\<close>

text \<open>
  The register names of the RV32I calling convention and their indices, as the
  specification lists them (section 4.1): \<open>x0\<close>--\<open>x31\<close>, the five special names,
  \<open>t0\<close>--\<open>t6\<close>, \<open>s0\<close>--\<open>s11\<close>, \<open>a0\<close>--\<open>a7\<close>.  The entries are written out
  from the specification, not taken from the tables of the code, so that the
  comparison with \<open>parse_reg\<close> checks those tables.
\<close>

fun show_nat :: "nat \<Rightarrow> string" where
  "show_nat n = (if n < 10 then [char_of (48 + n)] else show_nat (n div 10) @ [char_of (48 + n mod 10)])"

declare show_nat.simps [simp del]

definition abi_names :: "(string \<times> int) list" where
  "abi_names =
     map (\<lambda>i. (''x'' @ show_nat i, int i)) [0..<32] @
     [(''ra'', 1), (''sp'', 2), (''gp'', 3), (''tp'', 4), (''fp'', 8),
      (''t0'', 5), (''t1'', 6), (''t2'', 7), (''t3'', 28), (''t4'', 29), (''t5'', 30), (''t6'', 31),
      (''s0'', 8), (''s1'', 9), (''s2'', 18), (''s3'', 19), (''s4'', 20), (''s5'', 21), (''s6'', 22),
      (''s7'', 23), (''s8'', 24), (''s9'', 25), (''s10'', 26), (''s11'', 27),
      (''a0'', 10), (''a1'', 11), (''a2'', 12), (''a3'', 13), (''a4'', 14), (''a5'', 15), (''a6'', 16),
      (''a7'', 17)]"

definition abi_reg :: "string \<Rightarrow> int option" where
  "abi_reg r = map_of abi_names (py_strip (py_lower r))"

text \<open>A register index of RV32I, or the failure sentinel \<open>-1\<close>.\<close>

definition reg_or_sentinel :: "int \<Rightarrow> bool" where
  "reg_or_sentinel v \<longleftrightarrow> v = -1 \<or> (0 \<le> v \<and> v \<le> 31)"

subsection \<open>Decimal digits and normalised tokens\<close>

lemma of_char_digit: "d < 10 \<Longrightarrow> of_char (char_of (48 + d) :: char) = (48 + d :: nat)"
  by (simp add: of_char_of)

lemma is_digit_char: "(d::nat) < 10 \<Longrightarrow> is_digit (char_of (48 + d))"
  by (simp add: is_digit_def of_char_digit)

lemma is_digit_show_nat: "list_all is_digit (show_nat n)"
proof (induction n rule: show_nat.induct)
  case (1 n)
  then show ?case
    by (subst show_nat.simps) (auto simp: is_digit_char)
qed

lemma show_nat_ne: "show_nat n \<noteq> []"
  by (subst show_nat.simps) simp

lemma decimal_value_snoc: "decimal_value (xs @ [c]) = 10 * decimal_value xs + (int (of_char c) - 48)"
  by (simp add: decimal_value_def)

lemma decimal_value_show_nat: "decimal_value (show_nat n) = int n"
proof (induction n rule: show_nat.induct)
  case (1 n)
  show ?case
  proof (cases "n < 10")
    case True
    then show ?thesis
      by (subst show_nat.simps) (simp add: decimal_value_def of_char_digit)
  next
    case False
    then have "decimal_value (show_nat n) = 10 * int (n div 10) + int (n mod 10)"
      using "1.IH" by (subst show_nat.simps) (simp add: decimal_value_snoc of_char_digit)
    also have "\<dots> = int n"
      by (metis div_mult_mod_eq mult.commute of_nat_add of_nat_mult of_nat_numeral)
    finally show ?thesis .
  qed
qed

lemma lower_char_digit: "is_digit c \<Longrightarrow> lower_char c = c"
  by (simp add: is_digit_def lower_char_def Let_def)

lemma digit_not_space: "is_digit c \<Longrightarrow> \<not> is_space c"
  by (simp add: is_digit_def is_space_def Let_def)

lemma is_space_lower_char [simp]: "is_space (lower_char c) = is_space c"
  by (auto simp: is_space_def lower_char_def Let_def of_char_of)

lemma lower_char_idem [simp]: "lower_char (lower_char c) = lower_char c"
  by (auto simp: lower_char_def Let_def of_char_of)

lemma py_lower_py_strip: "py_lower (py_strip s) = py_strip (py_lower s)"
  by (simp add: py_lower_def py_strip_def py_rstrip_def py_lstrip_def dropWhile_map rev_map comp_def)

lemma py_lower_idem: "py_lower (py_lower s) = py_lower s"
  by (simp add: py_lower_def)

lemma parse_reg_normal: "parse_reg (py_strip (py_lower r)) = parse_reg r"
  by (simp add: parse_reg_def py_lower_py_strip py_lower_idem py_strip_idem)

subsection \<open>Case analysis helpers\<close>

lemma if_P: "P a \<Longrightarrow> P b \<Longrightarrow> P (if c then a else b)"
  by simp

lemma option_case_P: "P d \<Longrightarrow> (\<And>i. m = Some i \<Longrightarrow> P i) \<Longrightarrow> P (case m of None \<Rightarrow> d | Some i \<Rightarrow> i)"
  by (cases m) simp_all

lemma t_mapping_nth: "0 \<le> n \<Longrightarrow> n \<le> 6 \<Longrightarrow> 5 \<le> t_mapping ! nat n \<and> t_mapping ! nat n \<le> 31"
proof -
  assume "0 \<le> n" "n \<le> 6"
  then have "nat n \<in> {0..<7}" by auto
  moreover have "\<forall>i \<in> {0..<7}. 5 \<le> t_mapping ! i \<and> t_mapping ! i \<le> (31::int)"
    by (simp add: t_mapping_def atLeastLessThanSuc numeral_eq_Suc)
  ultimately show ?thesis by blast
qed

lemma special_regs_range: "map_of special_regs r = Some i \<Longrightarrow> 1 \<le> i \<and> i \<le> 8"
  by (auto simp: special_regs_def split: if_splits)

lemma abi_table_ok: "list_all (\<lambda>(n, i). n \<in> {''s10'', ''s11''} \<or> parse_reg n = i) abi_names"
  by code_simp

lemma py_lower_show_nat: "py_lower (show_nat n) = show_nat n"
  using is_digit_show_nat[of n]
  by (simp add: py_lower_def list_all_iff lower_char_digit map_idI)


lemma py_strip_s1: "\<exists>u. py_strip (CHR ''s'' # CHR ''1'' # t) = CHR ''s'' # CHR ''1'' # u"
proof -
  have l: "py_lstrip (CHR ''s'' # CHR ''1'' # t) = CHR ''s'' # CHR ''1'' # t"
    by (simp add: py_lstrip_def is_space_def)
  have n1: "\<not> is_space CHR ''1''" and ns: "\<not> is_space CHR ''s''"
    by (simp_all add: is_space_def)
  have "\<exists>w. dropWhile is_space (rev t @ [CHR ''1'', CHR ''s'']) = w @ [CHR ''1'', CHR ''s'']"
  proof (cases "\<forall>x \<in> set (rev t). is_space x")
    case True
    then show ?thesis
      by (simp only: dropWhile_append2) (simp add: n1)
  next
    case False
    then obtain x where "x \<in> set (rev t)" "\<not> is_space x" by blast
    then have "dropWhile is_space (rev t @ [CHR ''1'', CHR ''s''])
        = dropWhile is_space (rev t) @ [CHR ''1'', CHR ''s'']"
      by (rule dropWhile_append1)
    then show ?thesis by blast
  qed
  then show ?thesis
    by (auto simp: py_strip_def py_rstrip_def l intro: exI[of _ "rev w" for w])
qed



lemma parse_reg_sentinel_or_reg: "reg_or_sentinel (parse_reg r)"
proof -
  define n where "n = py_strip (py_lower r)"
  have sp: "\<And>i. map_of special_regs n = Some i \<Longrightarrow> reg_or_sentinel i"
    by (auto simp: reg_or_sentinel_def dest: special_regs_range)
  have t: "\<And>k. reg_or_sentinel (if 0 \<le> k \<and> k \<le> 6 then t_mapping ! nat k else -1)"
    by (auto simp: reg_or_sentinel_def dest: t_mapping_nth)
  have other: "\<And>k. reg_or_sentinel (if 0 \<le> k \<and> k \<le> 31 then k else -1)"
     "\<And>k. reg_or_sentinel (if k = 0 then 8 else if k = 1 then 9
                            else if 2 \<le> k \<and> k \<le> 11 then 18 + (k - 2) else -1)"
     "\<And>k. reg_or_sentinel (if 0 \<le> k \<and> k \<le> 7 then 10 + k else -1)"
     "reg_or_sentinel (-1)"
    by (simp_all add: reg_or_sentinel_def)
  show ?thesis
    unfolding parse_reg_def n_def[symmetric] Let_def
    by (intro t other if_P[where P = reg_or_sentinel] option_case_P[where P = reg_or_sentinel] sp)
qed

lemma parse_reg_fits: "parse_reg r \<noteq> -1 \<Longrightarrow> fits 5 (parse_reg r)"
  using parse_reg_sentinel_or_reg[of r] by (auto simp: reg_or_sentinel_def fits_def)

lemma parse_reg_nonneg_fits: "0 \<le> parse_reg r \<Longrightarrow> fits 5 (parse_reg r)"
  using parse_reg_fits[of r] by auto

subsection \<open>Properties of the resolver\<close>

text \<open>
  C21: the resolver never returns anything but a register index in \<open>[0, 31]\<close> or the
  sentinel \<open>-1\<close>, whatever the token.
\<close>

theorem parse_reg_range: "parse_reg r = -1 \<or> (0 \<le> parse_reg r \<and> parse_reg r \<le> 31)"
  using parse_reg_sentinel_or_reg[of r] by (simp add: reg_or_sentinel_def)

text \<open>
  C19: on every spelling of a register name of the ABI table (any case, surrounding
  blanks) other than \<open>s10\<close> and \<open>s11\<close>, the resolver returns the index of the
  table; in particular all spellings of one register (\<open>fp\<close>, \<open>s0\<close>, \<open>x8\<close>) agree.
\<close>

theorem parse_reg_refines_abi:
  assumes "abi_reg r = Some i" and "py_strip (py_lower r) \<notin> {''s10'', ''s11''}"
  shows "parse_reg r = i"
proof -
  let ?n = "py_strip (py_lower r)"
  from assms(1) have "(?n, i) \<in> set abi_names"
    by (simp add: abi_reg_def map_of_SomeD)
  with abi_table_ok assms(2) have "parse_reg ?n = i"
    by (auto simp: list_all_iff)
  then show ?thesis by (simp add: parse_reg_normal)
qed

theorem parse_reg_refines_abi_witness:
  "abi_reg ''FP'' = Some 8 \<and> py_strip (py_lower ''FP'') \<notin> {''s10'', ''s11''} \<and> parse_reg ''FP'' = 8"
proof -
  have a: "abi_reg ''FP'' = Some 8" by code_simp
  have b: "py_strip (py_lower ''FP'') \<notin> {''s10'', ''s11''}" by code_simp
  show ?thesis using a b parse_reg_refines_abi[OF a b] by simp
qed

text \<open>
  C20: a token that starts with \<open>s1\<close> always resolves to register 9 (\<open>s1\<close>): the
  code reads only the digit after the \<open>s\<close>, so \<open>s10\<close> and \<open>s11\<close> (registers 26 and
  27 in the ABI table) and even \<open>s1x\<close> resolve to \<open>s1\<close>.
\<close>

theorem parse_reg_s1_prefix: "parse_reg (''s1'' @ t) = 9"
proof -
  have low: "py_lower (CHR ''s'' # CHR ''1'' # t) = CHR ''s'' # CHR ''1'' # py_lower t"
    by (simp add: py_lower_def lower_char_def)
  obtain u where u: "py_strip (py_lower (CHR ''s'' # CHR ''1'' # t)) = CHR ''s'' # CHR ''1'' # u"
    using py_strip_s1 low by metis
  have "map_of special_regs (CHR ''s'' # CHR ''1'' # u) = None"
    by (simp add: special_regs_def)
  then show ?thesis
    by (simp add: parse_reg_def u is_digit_def decimal_value_def)
qed

text \<open>
  \<open>xN\<close> round-trips: printing \<open>N\<close> in decimal after an \<open>x\<close> and resolving
  gives \<open>N\<close> back for \<open>N \<le> 31\<close> and the sentinel above.
\<close>

theorem parse_reg_x: "parse_reg (''x'' @ show_nat n) = (if n \<le> 31 then int n else -1)"
proof -
  have low: "py_lower (CHR ''x'' # show_nat n) = CHR ''x'' # show_nat n"
    using py_lower_show_nat by (simp add: lower_char_def py_lower_def)
  have "\<not> is_space (last (show_nat n))"
    using is_digit_show_nat[of n] show_nat_ne[of n]
    by (simp add: list_all_iff digit_not_space)
  then have "py_strip (CHR ''x'' # show_nat n) = CHR ''x'' # show_nat n"
    using show_nat_ne[of n] by (intro py_strip_no_space) (simp_all add: is_space_def)
  moreover have "py_isdigit (show_nat n)"
    using is_digit_show_nat show_nat_ne by (simp add: py_isdigit_def)
  ultimately show ?thesis
    by (simp add: parse_reg_def low decimal_value_show_nat)
qed

end
