(* ===== verification/Formats.thy ===== *)
theory Formats
  imports PyRuntime
begin

text \<open>
  The six instruction-format encoders \<open>formato_r\<close> \ldots \<open>formato_j\<close> of
  \<open>aRVA.py\<close> (lines 78--108) and the helpers \<open>to_signed\<close> and \<open>int_to_bin\<close>
  (lines 22--29), on Python's unbounded integers.  Against them stand the
  instruction-field decoders of the RV32I manual (\<open>opcode_of\<close> \ldots \<open>imm_j\<close>),
  written from the ISA's bit layout and not from the encoders: the lemmas show that
  decoding an encoded word gives back every register and function field, that an
  immediate comes back reduced to the width of its field (two's complement,
  wrapping), hence exactly when it is representable, and that a word with fields in
  range is an unsigned 32-bit value.
\<close>

unbundle bit_operations_syntax

subsection \<open>The encoders (lines 78--108)\<close>

definition formato_r :: "int \<Rightarrow> int \<Rightarrow> int \<Rightarrow> int \<Rightarrow> int \<Rightarrow> int \<Rightarrow> int" where
  "formato_r funct7 rs2 rs1 funct3 rd opcode =
     push_bit 25 funct7 OR push_bit 20 rs2 OR push_bit 15 rs1 OR push_bit 12 funct3
     OR push_bit 7 rd OR opcode"

definition formato_i :: "int \<Rightarrow> int \<Rightarrow> int \<Rightarrow> int \<Rightarrow> int \<Rightarrow> int" where
  "formato_i imm rs1 funct3 rd opcode =
     (let imm = imm AND 0xfff in
      push_bit 20 imm OR push_bit 15 rs1 OR push_bit 12 funct3 OR push_bit 7 rd OR opcode)"

definition formato_s :: "int \<Rightarrow> int \<Rightarrow> int \<Rightarrow> int \<Rightarrow> int \<Rightarrow> int" where
  "formato_s imm rs2 rs1 funct3 opcode =
     (let imm = imm AND 0xfff;
          imm11_5 = drop_bit 5 imm AND 0x7f;
          imm4_0 = imm AND 0x1f
      in push_bit 25 imm11_5 OR push_bit 20 rs2 OR push_bit 15 rs1 OR push_bit 12 funct3
         OR push_bit 7 imm4_0 OR opcode)"

definition formato_b :: "int \<Rightarrow> int \<Rightarrow> int \<Rightarrow> int \<Rightarrow> int \<Rightarrow> int" where
  "formato_b imm rs2 rs1 funct3 opcode =
     (let imm = imm AND 0x1fff;
          imm12 = drop_bit 12 imm AND 0x1;
          imm10_5 = drop_bit 5 imm AND 0x3f;
          imm4_1 = drop_bit 1 imm AND 0xf;
          imm11 = drop_bit 11 imm AND 0x1
      in push_bit 31 imm12 OR push_bit 7 imm11 OR push_bit 25 imm10_5 OR push_bit 20 rs2
         OR push_bit 15 rs1 OR push_bit 12 funct3 OR push_bit 8 imm4_1 OR opcode)"

definition formato_u :: "int \<Rightarrow> int \<Rightarrow> int \<Rightarrow> int" where
  "formato_u imm rd opcode = (imm AND 0xfffff000) OR push_bit 7 rd OR opcode"

definition formato_j :: "int \<Rightarrow> int \<Rightarrow> int \<Rightarrow> int" where
  "formato_j imm rd opcode =
     (let imm = imm AND 0x1fffff;
          imm20 = drop_bit 20 imm AND 0x1;
          imm10_1 = drop_bit 1 imm AND 0x3ff;
          imm11 = drop_bit 11 imm AND 0x1;
          imm19_12 = drop_bit 12 imm AND 0xff
      in push_bit 31 imm20 OR push_bit 12 imm19_12 OR push_bit 20 imm11 OR push_bit 21 imm10_1
         OR push_bit 7 rd OR opcode)"

subsection \<open>The helpers (lines 22--29)\<close>

definition to_signed :: "int \<Rightarrow> nat \<Rightarrow> int" where
  "to_signed val bits =
     (let mask = push_bit bits 1 - 1 in
      if bit val (bits - 1) then val - push_bit bits 1 else val AND mask)"

text \<open>\<open>format(v, '0{}b'.format(bits))\<close> of a non-negative \<open>v\<close>: the binary digits,
  padded with zeros to at least \<open>bits\<close> characters.\<close>

fun bin_digits :: "nat \<Rightarrow> string" where
  "bin_digits n = (if n < 2 then [if n = 0 then CHR ''0'' else CHR ''1'']
                   else bin_digits (n div 2) @ [if n mod 2 = 0 then CHR ''0'' else CHR ''1''])"

declare bin_digits.simps [simp del]

definition int_to_bin :: "int \<Rightarrow> nat \<Rightarrow> string" where
  "int_to_bin value bits =
     (let ds = bin_digits (nat (value AND (push_bit bits 1 - 1)))
      in replicate (bits - length ds) (CHR ''0'') @ ds)"

text \<open>One step of reading a binary string, as \<open>int(s, 2)\<close> does.\<close>

definition bit_char_val :: "nat \<Rightarrow> char \<Rightarrow> nat" where
  "bit_char_val a c = 2 * a + (if c = CHR ''1'' then 1 else 0)"

subsection \<open>The RV32I decoders\<close>

text \<open>Fixed fields (RV32I manual, figure "Base instruction formats").\<close>

definition opcode_of :: "int \<Rightarrow> int" where "opcode_of w = field w 0 7"
definition rd_of :: "int \<Rightarrow> int" where "rd_of w = field w 7 5"
definition funct3_of :: "int \<Rightarrow> int" where "funct3_of w = field w 12 3"
definition rs1_of :: "int \<Rightarrow> int" where "rs1_of w = field w 15 5"
definition rs2_of :: "int \<Rightarrow> int" where "rs2_of w = field w 20 5"
definition funct7_of :: "int \<Rightarrow> int" where "funct7_of w = field w 25 7"

text \<open>Immediates, sign-extended from their top bit (figure "Types of immediate
  produced by RISC-V instructions").\<close>

definition imm_i :: "int \<Rightarrow> int" where
  "imm_i w = signed_take_bit 11 (field w 20 12)"

definition imm_s :: "int \<Rightarrow> int" where
  "imm_s w = signed_take_bit 11 (push_bit 5 (field w 25 7) OR field w 7 5)"

definition imm_b :: "int \<Rightarrow> int" where
  "imm_b w = signed_take_bit 12
     (push_bit 12 (field w 31 1) OR push_bit 11 (field w 7 1) OR push_bit 5 (field w 25 6)
      OR push_bit 1 (field w 8 4))"

definition imm_u :: "int \<Rightarrow> int" where
  "imm_u w = signed_take_bit 31 (push_bit 12 (field w 12 20))"

definition imm_j :: "int \<Rightarrow> int" where
  "imm_j w = signed_take_bit 20
     (push_bit 20 (field w 31 1) OR push_bit 12 (field w 12 8) OR push_bit 11 (field w 20 1)
      OR push_bit 1 (field w 21 10))"

subsection \<open>Bit-level helpers\<close>

lemma and_lits: "x AND (0xfff::int) = take_bit 12 x" "x AND (0x7f::int) = take_bit 7 x"
  "x AND (0x1f::int) = take_bit 5 x" "x AND (0x1fff::int) = take_bit 13 x" "x AND (0x1::int) = take_bit 1 x"
  "x AND (0x3f::int) = take_bit 6 x" "x AND (0xf::int) = take_bit 4 x" "x AND (0x1fffff::int) = take_bit 21 x"
  "x AND (0x3ff::int) = take_bit 10 x" "x AND (0xff::int) = take_bit 8 x"
  by (simp_all add: take_bit_eq_mask mask_eq_exp_minus_1)

lemma u_mask_lit: "(0xfffff000::int) = push_bit 12 (mask 20)"
  by (simp add: mask_eq_exp_minus_1 push_bit_eq_mult)

lemma and_u_lit: "x AND (0xfffff000::int) = push_bit 12 (take_bit 20 (drop_bit 12 x))"
  unfolding u_mask_lit by (rule bit_eqI) (auto simp: bit_simps)

lemma fits_bit_high: "fits n x \<Longrightarrow> n \<le> k \<Longrightarrow> bit x k = False"
  using fits_bit by fastforce

lemma bit_times2_int: "bit (a * 2 :: int) n \<longleftrightarrow> n \<noteq> 0 \<and> bit a (n - 1)"
  using bit_double_iff[of a n] by (simp add: mult.commute)

lemma bit_mod2_int: "bit (a mod 2 :: int) n \<longleftrightarrow> n = 0 \<and> bit a 0"
  by (metis bit_take_bit_iff less_one take_bit_eq_mod power_one_right)

lemma odd_drop_bit_int: "odd (drop_bit n (a::int)) \<longleftrightarrow> bit a n"
  by (simp add: bit_iff_odd_drop_bit)

lemma upt_lists: "[0..<12] = [0, 1, 2, 3, 4, 5, 6, 7, 8, 9, 10, (11::nat)]"
  "[0..<13] = [0, 1, 2, 3, 4, 5, 6, 7, 8, 9, 10, 11, (12::nat)]"
  "[0..<21] = [0, 1, 2, 3, 4, 5, 6, 7, 8, 9, 10, 11, 12, 13, 14, 15, 16, 17, 18, 19, (20::nat)]"
  "[0..<32] = [0, 1, 2, 3, 4, 5, 6, 7, 8, 9, 10, 11, 12, 13, 14, 15, 16, 17, 18, 19, 20,
     21, 22, 23, 24, 25, 26, 27, 28, 29, 30, (31::nat)]"
  by code_simp+

lemma signed_take_bit_eqI:
  "take_bit n a = take_bit n b \<Longrightarrow> n = Suc m \<Longrightarrow> signed_take_bit m (a::int) = signed_take_bit m b"
  by (simp add: signed_take_bit_eq_iff_take_bit_eq)

lemma take_bit_eq_by_list:
  "(\<forall>k \<in> set [0..<m]. bit a k = bit b k) \<Longrightarrow> take_bit m a = take_bit m b"
  by (rule bit_eqI) (auto simp: bit_take_bit_iff)

lemmas enc_bit_simps = bit_simps bit_field_iff fits_bit_high bit_times2_int bit_mod2_int
  odd_drop_bit_int numeral_2_eq_2[symmetric]

lemma imm_b_formato_b:
  assumes "fits 5 rs2" "fits 5 rs1" "fits 3 f3" "fits 7 op"
  shows "imm_b (formato_b imm rs2 rs1 f3 op) = signed_take_bit 12 (imm AND NOT 1)"
proof -
  let ?w = "formato_b imm rs2 rs1 f3 op"
  have "take_bit 13 (push_bit 12 (field ?w 31 1) OR push_bit 11 (field ?w 7 1) OR push_bit 5 (field ?w 25 6)
      OR push_bit 1 (field ?w 8 4)) = take_bit 13 (imm AND NOT 1)"
    apply (rule take_bit_eq_by_list)
    unfolding upt_lists using assms by (simp add: formato_b_def Let_def and_lits enc_bit_simps)
  then show ?thesis
    unfolding imm_b_def by (rule signed_take_bit_eqI) simp
qed

lemma imm_j_formato_j:
  assumes "fits 5 rd" "fits 7 op"
  shows "imm_j (formato_j imm rd op) = signed_take_bit 20 (imm AND NOT 1)"
proof -
  let ?w = "formato_j imm rd op"
  have "take_bit 21 (push_bit 20 (field ?w 31 1) OR push_bit 12 (field ?w 12 8) OR push_bit 11 (field ?w 20 1)
      OR push_bit 1 (field ?w 21 10)) = take_bit 21 (imm AND NOT 1)"
    apply (rule take_bit_eq_by_list)
    unfolding upt_lists using assms by (simp add: formato_j_def Let_def and_lits enc_bit_simps)
  then show ?thesis
    unfolding imm_j_def by (rule signed_take_bit_eqI) simp
qed


lemma fields_formato_r:
  assumes "fits 7 f7" "fits 5 rs2" "fits 5 rs1" "fits 3 f3" "fits 5 rd" "fits 7 op"
  shows "funct7_of (formato_r f7 rs2 rs1 f3 rd op) = f7 \<and> rs2_of (formato_r f7 rs2 rs1 f3 rd op) = rs2
       \<and> rs1_of (formato_r f7 rs2 rs1 f3 rd op) = rs1 \<and> funct3_of (formato_r f7 rs2 rs1 f3 rd op) = f3
       \<and> rd_of (formato_r f7 rs2 rs1 f3 rd op) = rd \<and> opcode_of (formato_r f7 rs2 rs1 f3 rd op) = op"
  unfolding funct7_of_def rs2_of_def rs1_of_def funct3_of_def rd_of_def opcode_of_def formato_r_def
  using assms by (intro conjI field_eqI) (auto simp: bit_simps dest: fits_bit)

lemma fields_formato_i:
  assumes "fits 5 rs1" "fits 3 f3" "fits 5 rd" "fits 7 op"
  shows "rs1_of (formato_i imm rs1 f3 rd op) = rs1 \<and> funct3_of (formato_i imm rs1 f3 rd op) = f3 \<and>
    rd_of (formato_i imm rs1 f3 rd op) = rd \<and> opcode_of (formato_i imm rs1 f3 rd op) = op"
  unfolding rs1_of_def funct3_of_def rd_of_def opcode_of_def formato_i_def Let_def and_lits
  using assms by (intro conjI field_eqI) (auto simp: bit_simps dest: fits_bit)

lemma fields_formato_s:
  assumes "fits 5 rs2" "fits 5 rs1" "fits 3 f3" "fits 7 op"
  shows "rs2_of (formato_s imm rs2 rs1 f3 op) = rs2 \<and> rs1_of (formato_s imm rs2 rs1 f3 op) = rs1 \<and>
    funct3_of (formato_s imm rs2 rs1 f3 op) = f3 \<and> opcode_of (formato_s imm rs2 rs1 f3 op) = op"
  unfolding rs2_of_def rs1_of_def funct3_of_def opcode_of_def formato_s_def Let_def and_lits
  using assms by (intro conjI field_eqI) (auto simp: bit_simps dest: fits_bit)

lemma fields_formato_b:
  assumes "fits 5 rs2" "fits 5 rs1" "fits 3 f3" "fits 7 op"
  shows "rs2_of (formato_b imm rs2 rs1 f3 op) = rs2 \<and> rs1_of (formato_b imm rs2 rs1 f3 op) = rs1 \<and>
    funct3_of (formato_b imm rs2 rs1 f3 op) = f3 \<and> opcode_of (formato_b imm rs2 rs1 f3 op) = op"
  unfolding rs2_of_def rs1_of_def funct3_of_def opcode_of_def formato_b_def Let_def and_lits
  using assms by (intro conjI field_eqI) (auto simp: bit_simps dest: fits_bit)

lemma fields_formato_u:
  assumes "fits 5 rd" "fits 7 op"
  shows "rd_of (formato_u imm rd op) = rd \<and> opcode_of (formato_u imm rd op) = op"
  unfolding rd_of_def opcode_of_def formato_u_def and_u_lit
  using assms by (intro conjI field_eqI) (auto simp: bit_simps dest: fits_bit)

lemma fields_formato_j:
  assumes "fits 5 rd" "fits 7 op"
  shows "rd_of (formato_j imm rd op) = rd \<and> opcode_of (formato_j imm rd op) = op"
  unfolding rd_of_def opcode_of_def formato_j_def Let_def and_lits
  using assms by (intro conjI field_eqI) (auto simp: bit_simps dest: fits_bit)

lemma imm_u_formato_u:
  assumes "fits 5 rd" "fits 7 op"
  shows "imm_u (formato_u imm rd op) = signed_take_bit 31 (imm AND NOT 0xfff)"
proof -
  have "take_bit 32 (push_bit 12 (field (formato_u imm rd op) 12 20)) = take_bit 32 (imm AND NOT 0xfff)"
    apply (rule take_bit_eq_by_list)
    unfolding upt_lists using assms by (simp add: formato_u_def and_u_lit enc_bit_simps)
  then show ?thesis unfolding imm_u_def by (rule signed_take_bit_eqI) simp
qed

lemma imm_i_formato_i:
  "imm_i (formato_i imm rs1 f3 rd op) = signed_take_bit 11 imm"
  if "fits 5 rs1" "fits 3 f3" "fits 5 rd" "fits 7 op"
proof -
  have "take_bit 12 (field (formato_i imm rs1 f3 rd op) 20 12) = take_bit 12 imm"
    apply (rule take_bit_eq_by_list)
    unfolding upt_lists using that by (simp add: formato_i_def Let_def and_lits enc_bit_simps)
  then show ?thesis
    unfolding imm_i_def by (rule signed_take_bit_eqI) simp
qed

lemma nonneg_formato:
  "0 \<le> formato_r f7 rs2 rs1 f3 rd op \<longleftrightarrow> 0 \<le> f7 \<and> 0 \<le> rs2 \<and> 0 \<le> rs1 \<and> 0 \<le> f3 \<and> 0 \<le> rd \<and> 0 \<le> op"
  "0 \<le> formato_i imm rs1 f3 rd op \<longleftrightarrow> 0 \<le> rs1 \<and> 0 \<le> f3 \<and> 0 \<le> rd \<and> 0 \<le> op"
  "0 \<le> formato_s imm rs2 rs1 f3 op \<longleftrightarrow> 0 \<le> rs2 \<and> 0 \<le> rs1 \<and> 0 \<le> f3 \<and> 0 \<le> op"
  "0 \<le> formato_b imm rs2 rs1 f3 op \<longleftrightarrow> 0 \<le> rs2 \<and> 0 \<le> rs1 \<and> 0 \<le> f3 \<and> 0 \<le> op"
  "0 \<le> formato_u imm rd op \<longleftrightarrow> 0 \<le> rd \<and> 0 \<le> op"
  "0 \<le> formato_j imm rd op \<longleftrightarrow> 0 \<le> rd \<and> 0 \<le> op"
  by (simp_all add: formato_r_def formato_i_def formato_s_def formato_b_def formato_u_def formato_j_def
      Let_def and_lits and_u_lit)

lemma signed_take_bit_exact_iff:
  "signed_take_bit m (x AND NOT 1) = (x::int) \<longleftrightarrow> even x \<and> - (2 ^ m) \<le> x \<and> x < 2 ^ m"
proof
  assume h: "signed_take_bit m (x AND NOT 1) = x"
  have a: "- (2 ^ m) \<le> signed_take_bit m (x AND NOT 1)"
    by (rule signed_take_bit_int_greater_eq_minus_exp)
  have b: "signed_take_bit m (x AND NOT 1) < 2 ^ m"
    by (rule signed_take_bit_int_less_exp)
  have "- (2 ^ m) \<le> x \<and> x < 2 ^ m"
    using a b unfolding h by simp
  moreover have "\<not> bit x 0"
    using h by (metis bit_and_iff bit_not_iff bit_signed_take_bit_iff min_0R bit_1_iff)
  ultimately show "even x \<and> - (2 ^ m) \<le> x \<and> x < 2 ^ m"
    by (simp add: bit_0)
next
  assume h: "even x \<and> - (2 ^ m) \<le> x \<and> x < 2 ^ m"
  then have "x AND NOT 1 = x"
    by (intro bit_eqI) (auto simp: bit_simps bit_0 elim: bit_imp_possible_bit dest: gr0_implies_Suc)
  with h show "signed_take_bit m (x AND NOT 1) = x"
    by (simp add: signed_take_bit_int_eq_self_iff)
qed

lemma digits_us_bin:
  "list_all (\<lambda>c. c = CHR ''0'' \<or> c = CHR ''1'') s \<Longrightarrow> s \<noteq> [] \<or> \<not> flag \<Longrightarrow>
   digits_us 2 acc flag s = Some (foldl bit_char_val acc s)"
proof (induction s arbitrary: acc flag)
  case Nil
  then show ?case by simp
next
  case (Cons c cs)
  then have "c = CHR ''0'' \<or> c = CHR ''1''" by simp
  then show ?case
    using Cons.IH[where flag = False] Cons.prems
    by (auto simp: digit_val_def bit_char_val_def)
qed

lemma bin_digits_chars: "list_all (\<lambda>c. c = CHR ''0'' \<or> c = CHR ''1'') (bin_digits n)"
  by (induction n rule: bin_digits.induct) (subst bin_digits.simps; simp)

lemma bin_digits_ne: "bin_digits n \<noteq> []"
  by (subst bin_digits.simps) simp

lemma bin_digits_value: "foldl bit_char_val 0 (bin_digits n) = n"
proof (induction n rule: bin_digits.induct)
  case (1 n)
  show ?case
  proof (cases "n < 2")
    case True
    then show ?thesis by (subst bin_digits.simps) (auto simp: bit_char_val_def)
  next
    case False
    then have "foldl bit_char_val 0 (bin_digits n)
        = bit_char_val (n div 2) (if n mod 2 = 0 then CHR ''0'' else CHR ''1'')"
      using "1.IH" by (subst bin_digits.simps) simp
    also have "\<dots> = n"
      by (cases "n mod 2 = 0") (simp_all add: bit_char_val_def, arith+)
    finally show ?thesis .
  qed
qed

lemma bin_digits_length: "n < 2 ^ k \<Longrightarrow> 0 < k \<Longrightarrow> length (bin_digits n) \<le> k"
proof (induction n arbitrary: k rule: bin_digits.induct)
  case (1 n)
  show ?case
  proof (cases "n < 2")
    case True
    with "1.prems" show ?thesis by (subst bin_digits.simps) simp
  next
    case False
    obtain k' where k: "k = Suc k'"
      using "1.prems" by (cases k) auto
    have "0 < k'"
      using False "1.prems" k by (cases k') auto
    have "n div 2 < 2 ^ k'" using "1.prems" k by simp
    with False "1.IH" k \<open>0 < k'\<close> show ?thesis
      by (subst bin_digits.simps) simp
  qed
qed

lemma foldl_bit_char_zeros: "foldl bit_char_val 0 (replicate k (CHR ''0'')) = 0"
  by (induction k) (simp_all add: bit_char_val_def)


subsection \<open>Encoders against decoders\<close>

text \<open>
  C11: the R-format encoder places every field where the RV32I decoder finds it: with
  fields in range, decoding recovers \<open>funct7\<close>, \<open>rs2\<close>, \<open>rs1\<close>, \<open>funct3\<close>,
  \<open>rd\<close> and the opcode.
\<close>

theorem formato_r_roundtrip:
  assumes "fits 7 f7" "fits 5 rs2" "fits 5 rs1" "fits 3 f3" "fits 5 rd" "fits 7 op"
  shows "funct7_of (formato_r f7 rs2 rs1 f3 rd op) = f7 \<and> rs2_of (formato_r f7 rs2 rs1 f3 rd op) = rs2
       \<and> rs1_of (formato_r f7 rs2 rs1 f3 rd op) = rs1 \<and> funct3_of (formato_r f7 rs2 rs1 f3 rd op) = f3
       \<and> rd_of (formato_r f7 rs2 rs1 f3 rd op) = rd \<and> opcode_of (formato_r f7 rs2 rs1 f3 rd op) = op"
  using assms by (rule fields_formato_r)

theorem formato_r_roundtrip_witness:
  "fits 7 32 \<and> fits 5 3 \<and> fits 5 2 \<and> fits 3 0 \<and> fits 5 1 \<and> fits 7 51 \<and>
   funct7_of (formato_r 32 3 2 0 1 51) = 32 \<and> rs2_of (formato_r 32 3 2 0 1 51) = 3 \<and>
   rs1_of (formato_r 32 3 2 0 1 51) = 2 \<and> funct3_of (formato_r 32 3 2 0 1 51) = 0 \<and>
   rd_of (formato_r 32 3 2 0 1 51) = 1 \<and> opcode_of (formato_r 32 3 2 0 1 51) = 51"
proof -
  have h: "fits 7 32" "fits 5 3" "fits 5 2" "fits 3 0" "fits 5 1" "fits 7 51" by simp_all
  show ?thesis using h formato_r_roundtrip[OF h] by blast
qed

text \<open>
  C12: the I-format encoder masks its immediate to 12 bits: decoding gives back the immediate sign-extended from bit 11 (so an immediate outside \<open>[-2048, 2047]\<close> silently wraps), and the register, \<open>funct3\<close> and opcode fields.
\<close>

theorem formato_i_roundtrip:
  assumes "fits 5 rs1" "fits 3 f3" "fits 5 rd" "fits 7 op"
  shows "imm_i (formato_i imm rs1 f3 rd op) = signed_take_bit 11 imm \<and>
    rs1_of (formato_i imm rs1 f3 rd op) = rs1 \<and> funct3_of (formato_i imm rs1 f3 rd op) = f3 \<and>
    rd_of (formato_i imm rs1 f3 rd op) = rd \<and> opcode_of (formato_i imm rs1 f3 rd op) = op"
proof (intro conjI)
  show "imm_i (formato_i imm rs1 f3 rd op) = signed_take_bit 11 imm"
    using assms by (rule imm_i_formato_i)
qed (use fields_formato_i[OF assms] in simp_all)

theorem formato_i_roundtrip_witness:
  "fits 5 0 \<and> fits 3 0 \<and> fits 5 10 \<and> fits 7 19 \<and> imm_i (formato_i 4095 0 0 10 19) = signed_take_bit 11 4095"
proof -
  have h: "fits 5 0" "fits 3 0" "fits 5 10" "fits 7 19" by simp_all
  show ?thesis using h formato_i_roundtrip[OF h, of 4095] by blast
qed

text \<open>
  C13: the S-format encoder splits its 12-bit immediate into \<open>imm[11:5]\<close> and \<open>imm[4:0]\<close> so that the RV32I decoder reassembles it (sign-extended from bit 11), and keeps both source registers, \<open>funct3\<close> and the opcode.
\<close>

theorem formato_s_roundtrip:
  assumes "fits 5 rs2" "fits 5 rs1" "fits 3 f3" "fits 7 op"
  shows "imm_s (formato_s imm rs2 rs1 f3 op) = signed_take_bit 11 imm \<and>
    rs2_of (formato_s imm rs2 rs1 f3 op) = rs2 \<and> rs1_of (formato_s imm rs2 rs1 f3 op) = rs1 \<and>
    funct3_of (formato_s imm rs2 rs1 f3 op) = f3 \<and> opcode_of (formato_s imm rs2 rs1 f3 op) = op"
proof (intro conjI)
  let ?w = "formato_s imm rs2 rs1 f3 op"
  have "take_bit 12 (push_bit 5 (field ?w 25 7) OR field ?w 7 5) = take_bit 12 imm"
    apply (rule take_bit_eq_by_list)
    unfolding upt_lists using assms by (simp add: formato_s_def Let_def and_lits enc_bit_simps)
  then show "imm_s ?w = signed_take_bit 11 imm"
    unfolding imm_s_def by (rule signed_take_bit_eqI) simp
qed (use fields_formato_s[OF assms] in simp_all)

theorem formato_s_roundtrip_witness:
  "fits 5 10 \<and> fits 5 2 \<and> fits 3 2 \<and> fits 7 35 \<and> imm_s (formato_s (-8) 10 2 2 35) = signed_take_bit 11 (-8)"
proof -
  have h: "fits 5 10" "fits 5 2" "fits 3 2" "fits 7 35" by simp_all
  show ?thesis using h formato_s_roundtrip[OF h, of "-8"] by blast
qed

text \<open>
  C14: the B-format encoder keeps bits 1--12 of the branch offset in the split fields \<open>imm[12|10:5]\<close>, \<open>imm[4:1|11]\<close>: the decoder gives back the offset with bit 0 cleared, sign-extended from bit 12, and the register, \<open>funct3\<close> and opcode fields.
\<close>

theorem formato_b_roundtrip:
  assumes "fits 5 rs2" "fits 5 rs1" "fits 3 f3" "fits 7 op"
  shows "imm_b (formato_b imm rs2 rs1 f3 op) = signed_take_bit 12 (imm AND NOT 1) \<and>
    rs2_of (formato_b imm rs2 rs1 f3 op) = rs2 \<and> rs1_of (formato_b imm rs2 rs1 f3 op) = rs1 \<and>
    funct3_of (formato_b imm rs2 rs1 f3 op) = f3 \<and> opcode_of (formato_b imm rs2 rs1 f3 op) = op"
proof (intro conjI)
  show "imm_b (formato_b imm rs2 rs1 f3 op) = signed_take_bit 12 (imm AND NOT 1)"
    using assms by (rule imm_b_formato_b)
qed (use fields_formato_b[OF assms] in simp_all)

theorem formato_b_roundtrip_witness:
  "fits 5 0 \<and> fits 5 10 \<and> fits 3 0 \<and> fits 7 99 \<and>
   imm_b (formato_b (-4) 0 10 0 99) = signed_take_bit 12 ((-4) AND NOT 1)"
proof -
  have h: "fits 5 0" "fits 5 10" "fits 3 0" "fits 7 99" by simp_all
  show ?thesis using h formato_b_roundtrip[OF h, of "-4"] by blast
qed

text \<open>
  The U-format encoder keeps the upper 20 bits of its immediate: the decoder gives back the immediate with its low 12 bits cleared (as a signed 32-bit value), and the \<open>rd\<close> and opcode fields.
\<close>

theorem formato_u_roundtrip:
  assumes "fits 5 rd" "fits 7 op"
  shows "imm_u (formato_u imm rd op) = signed_take_bit 31 (imm AND NOT 0xfff) \<and>
    rd_of (formato_u imm rd op) = rd \<and> opcode_of (formato_u imm rd op) = op"
  using imm_u_formato_u[OF assms] fields_formato_u[OF assms] by simp

theorem formato_u_roundtrip_witness:
  "fits 5 10 \<and> fits 7 23 \<and> imm_u (formato_u 4096 10 23) = signed_take_bit 31 (4096 AND NOT 0xfff)"
proof -
  have h: "fits 5 10" "fits 7 23" by simp_all
  show ?thesis using h formato_u_roundtrip[OF h, of 4096] by blast
qed

text \<open>
  C15: the J-format encoder keeps bits 1--20 of the jump offset in the scrambled field \<open>imm[20|10:1|11|19:12]\<close>: the decoder gives back the offset with bit 0 cleared, sign-extended from bit 20, and the \<open>rd\<close> and opcode fields.
\<close>

theorem formato_j_roundtrip:
  assumes "fits 5 rd" "fits 7 op"
  shows "imm_j (formato_j imm rd op) = signed_take_bit 20 (imm AND NOT 1) \<and>
    rd_of (formato_j imm rd op) = rd \<and> opcode_of (formato_j imm rd op) = op"
proof (intro conjI)
  show "imm_j (formato_j imm rd op) = signed_take_bit 20 (imm AND NOT 1)"
    using assms by (rule imm_j_formato_j)
qed (use fields_formato_j[OF assms] in simp_all)

theorem formato_j_roundtrip_witness:
  "fits 5 1 \<and> fits 7 111 \<and> imm_j (formato_j 2048 1 111) = signed_take_bit 20 (2048 AND NOT 1)"
proof -
  have h: "fits 5 1" "fits 7 111" by simp_all
  show ?thesis using h formato_j_roundtrip[OF h, of 2048] by blast
qed


text \<open>
  C16: a branch offset survives the B-format encoding exactly when it is even and
  lies in \<open>[-4096, 4096)\<close>; any other target address is silently encoded as a
  different offset, since neither the encoder nor \<open>beq_enc\<close> checks the range.
\<close>

theorem formato_b_exact:
  assumes "fits 5 rs2" "fits 5 rs1" "fits 3 f3" "fits 7 op"
  shows "imm_b (formato_b off rs2 rs1 f3 op) = off \<longleftrightarrow> even off \<and> -4096 \<le> off \<and> off < 4096"
proof -
  have "imm_b (formato_b off rs2 rs1 f3 op) = signed_take_bit 12 (off AND NOT 1)"
    using assms by (rule imm_b_formato_b)
  then show ?thesis using signed_take_bit_exact_iff[of 12 off] by simp
qed

theorem formato_b_exact_witness:
  "fits 5 0 \<and> fits 5 10 \<and> fits 3 0 \<and> fits 7 99 \<and>
   imm_b (formato_b (-4) 0 10 0 99) = -4 \<and> imm_b (formato_b 4096 0 10 0 99) \<noteq> 4096"
proof -
  have h: "fits 5 0" "fits 5 10" "fits 3 0" "fits 7 99" by simp_all
  show ?thesis using h formato_b_exact[OF h, of "-4"] formato_b_exact[OF h, of 4096] by simp
qed

text \<open>
  C17: a jump offset survives the J-format encoding exactly when it is even and lies
  in \<open>[-2^20, 2^20)\<close>.
\<close>

theorem formato_j_exact:
  assumes "fits 5 rd" "fits 7 op"
  shows "imm_j (formato_j off rd op) = off \<longleftrightarrow> even off \<and> -1048576 \<le> off \<and> off < 1048576"
proof -
  have "imm_j (formato_j off rd op) = signed_take_bit 20 (off AND NOT 1)"
    using assms by (rule imm_j_formato_j)
  then show ?thesis using signed_take_bit_exact_iff[of 20 off] by simp
qed

theorem formato_j_exact_witness:
  "fits 5 1 \<and> fits 7 111 \<and> imm_j (formato_j (-8) 1 111) = -8 \<and> imm_j (formato_j 3 1 111) \<noteq> 3"
proof -
  have h: "fits 5 1" "fits 7 111" by simp_all
  show ?thesis using h formato_j_exact[OF h, of "-8"] formato_j_exact[OF h, of 3] by simp
qed

text \<open>
  C18: with register, function and opcode fields in range, every encoder returns an
  unsigned 32-bit value, whatever the immediate (immediates are masked to their
  field).
\<close>

theorem encoders_fit_32:
  "fits 7 f7 \<Longrightarrow> fits 5 rs2 \<Longrightarrow> fits 5 rs1 \<Longrightarrow> fits 3 f3 \<Longrightarrow> fits 5 rd \<Longrightarrow> fits 7 op \<Longrightarrow>
   fits 32 (formato_r f7 rs2 rs1 f3 rd op) \<and> fits 32 (formato_i imm rs1 f3 rd op) \<and>
   fits 32 (formato_s imm rs2 rs1 f3 op) \<and> fits 32 (formato_b imm rs2 rs1 f3 op) \<and>
   fits 32 (formato_u imm rd op) \<and> fits 32 (formato_j imm rd op)"
  unfolding formato_r_def formato_i_def formato_s_def formato_b_def formato_u_def formato_j_def Let_def
    and_lits and_u_lit
  by (intro conjI fits_by_bits)
     (auto simp: bit_simps fits_bit_high dest: fits_nonneg)

theorem encoders_fit_32_witness:
  "fits 7 0 \<and> fits 5 1 \<and> fits 5 2 \<and> fits 3 0 \<and> fits 5 3 \<and> fits 7 51 \<and>
   fits 32 (formato_r 0 1 2 0 3 51) \<and> fits 32 (formato_i (-1) 2 0 3 51) \<and>
   fits 32 (formato_s (-1) 1 2 0 51) \<and> fits 32 (formato_b (-1) 1 2 0 51) \<and>
   fits 32 (formato_u (-1) 3 51) \<and> fits 32 (formato_j (-1) 3 51)"
proof -
  have h: "fits 7 0" "fits 5 1" "fits 5 2" "fits 3 0" "fits 5 3" "fits 7 51" by simp_all
  show ?thesis using h encoders_fit_32[OF h, of "-1"] by blast
qed

text \<open>
  The failure sentinel \<open>-1\<close> of \<open>parse_reg\<close> is not caught by the encoders:
  in a register position it makes the encoded value negative, a Python integer that
  is no 32-bit instruction word.
\<close>

theorem encoders_negative_register:
  assumes "x < 0"
  shows "formato_r f7 rs2 rs1 f3 x op < 0 \<and> formato_i imm rs1 f3 x op < 0 \<and>
    formato_s imm x rs1 f3 op < 0 \<and> formato_b imm x rs1 f3 op < 0 \<and>
    formato_u imm x op < 0 \<and> formato_j imm x op < 0"
  using assms unfolding linorder_not_le[symmetric] nonneg_formato by simp

theorem encoders_negative_register_witness:
  "(-1::int) < 0 \<and> formato_r 0 2 1 0 (-1) 51 < 0"
  using encoders_negative_register[of "-1" 0 2 1 0 51] by simp

subsection \<open>The helpers\<close>

text \<open>
  \<open>int_to_bin v bits\<close>, the text-image serialiser's formatter, returns exactly
  \<open>bits\<close> binary digits, and reading them back (\<open>int(s, 2)\<close>) gives \<open>v\<close> reduced
  to \<open>bits\<close> bits.
\<close>

theorem int_to_bin_roundtrip:
  assumes "0 < bits"
  shows "length (int_to_bin v bits) = bits \<and> parse_digits 2 (int_to_bin v bits) = Some (nat (take_bit bits v))"
proof -
  define n where "n = nat (take_bit bits v)"
  have m: "v AND (push_bit bits 1 - 1) = take_bit bits v"
    by (simp add: take_bit_eq_mask mask_eq_exp_minus_1 push_bit_eq_mult)
  have "n < 2 ^ bits"
    unfolding n_def using take_bit_int_less_exp[of bits v] by (simp add: nat_less_iff)
  then have len: "length (bin_digits n) \<le> bits"
    using assms by (rule bin_digits_length)
  have ib: "int_to_bin v bits = replicate (bits - length (bin_digits n)) (CHR ''0'') @ bin_digits n"
    by (simp add: int_to_bin_def Let_def n_def take_bit_eq_mask mask_eq_exp_minus_1)
  have chars: "list_all (\<lambda>c. c = CHR ''0'' \<or> c = CHR ''1'') (int_to_bin v bits)"
    using bin_digits_chars[of n] by (simp add: ib list_all_iff set_replicate_conv_if)
  have "parse_digits 2 (int_to_bin v bits) = Some n"
    using digits_us_bin[OF chars, where acc = 0 and flag = True] bin_digits_ne[of n]
    by (simp add: parse_digits_def ib foldl_bit_char_zeros bin_digits_value)
  moreover have "length (int_to_bin v bits) = bits"
    using len by (simp add: ib)
  ultimately show ?thesis by (simp add: n_def)
qed

theorem int_to_bin_roundtrip_witness:
  "(0::nat) < 32 \<and> length (int_to_bin (-4) 32) = 32 \<and>
   parse_digits 2 (int_to_bin (-4) 32) = Some (nat (take_bit 32 (-4)))"
  using int_to_bin_roundtrip[of 32 "-4"] by simp

text \<open>
  \<open>to_signed val bits\<close> is the two's-complement reading of a \<open>bits\<close>-bit value:
  on values that fit, it agrees with sign extension from bit \<open>bits - 1\<close>.
\<close>

theorem to_signed_eq:
  assumes "fits bits val" "0 < bits"
  shows "to_signed val bits = signed_take_bit (bits - 1) val"
proof -
  from assms have tb: "take_bit bits val = val" by (simp add: fits_take_bit_iff)
  have m: "push_bit bits 1 - 1 = (mask bits :: int)" by (simp add: mask_eq_exp_minus_1)
  have s: "signed_take_bit (bits - 1) val = take_bit bits val - 2 ^ bits * of_bool (bit val (bits - 1))"
    using assms(2) by (simp add: signed_take_bit_eq_take_bit_minus)
  show ?thesis
    using tb s m by (auto simp: to_signed_def Let_def take_bit_eq_mask push_bit_eq_mult)
qed

theorem to_signed_eq_witness:
  "fits 12 4095 \<and> (0::nat) < 12 \<and> to_signed 4095 12 = signed_take_bit 11 4095"
  using to_signed_eq[of 12 4095] by simp

end
