(* ===== verification/Instructions.thy ===== *)
theory Instructions
  imports Registers Formats
begin

text \<open>
  The per-mnemonic encoders of \<open>aRVA.py\<close> (\<open>add_enc\<close> \ldots \<open>jal_enc\<close>, lines
  112--321), the dispatch table \<open>INSTR_MAP\<close> (lines 323--364) and the call of a
  handler by its format tag in \<open>assemble\<close> (lines 541--553).  A handler takes the
  operand strings, resolves registers with \<open>parse_reg\<close>, parses immediates with
  \<open>int(x, 0)\<close> and memory operands with the regular expression of line 224, and
  raises \<open>IndexError\<close>, \<open>ValueError\<close>, \<open>AttributeError\<close> (no match of the
  memory-operand pattern) or \<open>KeyError\<close> (unknown label); every raise is an
  \<open>Inl\<close> of the model.  The handlers of one format share their body, which is
  written once (\<open>enc_r\<close>, \<open>enc_i\<close>, \ldots) and instantiated with the
  mnemonic's constants.  The lemmas check the constants of the table against the
  RV32I opcode map (\<open>rv32i_isa\<close>) and show which exception each malformed operand
  list raises.
\<close>

unbundle bit_operations_syntax

subsection \<open>The shared bodies of the handlers\<close>

text \<open>R format, e.g. \<open>add_enc\<close> (lines 112--116).\<close>

definition enc_r :: "int \<Rightarrow> int \<Rightarrow> string list \<Rightarrow> int py" where
  "enc_r funct7 funct3 args =
     py_bind (py_index args 0) (\<lambda>a0. py_bind (py_index args 1) (\<lambda>a1. py_bind (py_index args 2) (\<lambda>a2.
       Inr (formato_r funct7 (parse_reg a2) (parse_reg a1) funct3 (parse_reg a0) 0x33))))"

text \<open>I format with an immediate operand, e.g. \<open>addi_enc\<close> (lines 165--169) and
  \<open>jalr_enc\<close> (lines 243--247); \<open>extra\<close> is OR-ed into the immediate
  (\<open>0x20 << 5\<close> for \<open>srai\<close>, line 217).\<close>

definition enc_i :: "int \<Rightarrow> int \<Rightarrow> int \<Rightarrow> string list \<Rightarrow> int py" where
  "enc_i opcode funct3 extra args =
     py_bind (py_index args 0) (\<lambda>a0. py_bind (py_index args 1) (\<lambda>a1.
       py_bind (py_index args 2) (\<lambda>a2. py_bind (py_int a2) (\<lambda>imm.
         Inr (formato_i (imm OR extra) (parse_reg a1) funct3 (parse_reg a0) opcode)))))"

text \<open>The memory operand \<open>offset(reg)\<close> (lines 224--226): no match raises
  \<open>AttributeError\<close> at \<open>m.group\<close>.\<close>

definition mem_arg :: "string \<Rightarrow> (int \<times> int) py" where
  "mem_arg a =
     (case mem_operand (remove_spaces a) of
        None \<Rightarrow> Inl AttributeError
      | Some (g1, g2) \<Rightarrow> py_bind (py_int g1) (\<lambda>imm. Inr (imm, parse_reg g2)))"

text \<open>Loads, e.g. \<open>lw_enc\<close> (lines 222--227).\<close>

definition enc_load :: "int \<Rightarrow> string list \<Rightarrow> int py" where
  "enc_load funct3 args =
     py_bind (py_index args 0) (\<lambda>a0. py_bind (py_index args 1) (\<lambda>a1.
       py_bind (mem_arg a1) (\<lambda>(imm, rs1).
         Inr (formato_i imm rs1 funct3 (parse_reg a0) 0x03))))"

text \<open>Stores, e.g. \<open>sw_enc\<close> (lines 251--256).\<close>

definition enc_store :: "int \<Rightarrow> string list \<Rightarrow> int py" where
  "enc_store funct3 args =
     py_bind (py_index args 0) (\<lambda>a0. py_bind (py_index args 1) (\<lambda>a1.
       py_bind (mem_arg a1) (\<lambda>(imm, rs1).
         Inr (formato_s imm (parse_reg a0) rs1 funct3 0x23))))"

text \<open>Branches, e.g. \<open>beq_enc\<close> (lines 275--280): \<open>symtab[lbl]\<close> raises
  \<open>KeyError\<close> for an unknown label.\<close>

definition py_lookup :: "('k \<rightharpoonup> 'v) \<Rightarrow> 'k \<Rightarrow> 'v py" where
  "py_lookup m k = (case m k of None \<Rightarrow> Inl KeyError | Some v \<Rightarrow> Inr v)"

definition enc_branch :: "int \<Rightarrow> string list \<Rightarrow> int \<Rightarrow> symtab \<Rightarrow> int py" where
  "enc_branch funct3 args curr_addr symtab =
     py_bind (py_index args 0) (\<lambda>a0. py_bind (py_index args 1) (\<lambda>a1.
       py_bind (py_index args 2) (\<lambda>lbl. py_bind (py_lookup symtab lbl) (\<lambda>target.
         Inr (formato_b (target - curr_addr) (parse_reg a1) (parse_reg a0) funct3 0x63)))))"

text \<open>U format, e.g. \<open>lui_enc\<close> (lines 305--308).\<close>

definition enc_u :: "int \<Rightarrow> string list \<Rightarrow> int py" where
  "enc_u opcode args =
     py_bind (py_index args 0) (\<lambda>a0. py_bind (py_index args 1) (\<lambda>a1. py_bind (py_int a1) (\<lambda>imm.
       Inr (formato_u imm (parse_reg a0) opcode))))"

subsection \<open>The handlers (lines 112--321)\<close>

definition add_enc :: "string list \<Rightarrow> int py" where "add_enc args = enc_r 0x00 0x0 args"
definition sub_enc :: "string list \<Rightarrow> int py" where "sub_enc args = enc_r 0x20 0x0 args"
definition sll_enc :: "string list \<Rightarrow> int py" where "sll_enc args = enc_r 0x00 0x1 args"
definition srl_enc :: "string list \<Rightarrow> int py" where "srl_enc args = enc_r 0x00 0x5 args"
definition sra_enc :: "string list \<Rightarrow> int py" where "sra_enc args = enc_r 0x20 0x5 args"
definition and_enc :: "string list \<Rightarrow> int py" where "and_enc args = enc_r 0x00 0x7 args"
definition or_enc :: "string list \<Rightarrow> int py" where "or_enc args = enc_r 0x00 0x6 args"
definition xor_enc :: "string list \<Rightarrow> int py" where "xor_enc args = enc_r 0x00 0x4 args"
definition slt_enc :: "string list \<Rightarrow> int py" where "slt_enc args = enc_r 0x00 0x2 args"
definition sltu_enc :: "string list \<Rightarrow> int py" where "sltu_enc args = enc_r 0x00 0x3 args"

definition addi_enc :: "string list \<Rightarrow> int py" where "addi_enc args = enc_i 0x13 0x0 0 args"
definition andi_enc :: "string list \<Rightarrow> int py" where "andi_enc args = enc_i 0x13 0x7 0 args"
definition ori_enc :: "string list \<Rightarrow> int py" where "ori_enc args = enc_i 0x13 0x6 0 args"
definition xori_enc :: "string list \<Rightarrow> int py" where "xori_enc args = enc_i 0x13 0x4 0 args"
definition slti_enc :: "string list \<Rightarrow> int py" where "slti_enc args = enc_i 0x13 0x2 0 args"
definition sltiu_enc :: "string list \<Rightarrow> int py" where "sltiu_enc args = enc_i 0x13 0x3 0 args"
definition slli_enc :: "string list \<Rightarrow> int py" where "slli_enc args = enc_i 0x13 0x1 0 args"
definition srli_enc :: "string list \<Rightarrow> int py" where "srli_enc args = enc_i 0x13 0x5 0 args"
definition srai_enc :: "string list \<Rightarrow> int py" where
  "srai_enc args = enc_i 0x13 0x5 (push_bit 5 0x20) args"

definition lw_enc :: "string list \<Rightarrow> int py" where "lw_enc args = enc_load 0x2 args"
definition lb_enc :: "string list \<Rightarrow> int py" where "lb_enc args = enc_load 0x0 args"
definition lh_enc :: "string list \<Rightarrow> int py" where "lh_enc args = enc_load 0x1 args"
definition jalr_enc :: "string list \<Rightarrow> int py" where "jalr_enc args = enc_i 0x67 0x0 0 args"

definition sw_enc :: "string list \<Rightarrow> int py" where "sw_enc args = enc_store 0x2 args"
definition sb_enc :: "string list \<Rightarrow> int py" where "sb_enc args = enc_store 0x0 args"
definition sh_enc :: "string list \<Rightarrow> int py" where "sh_enc args = enc_store 0x1 args"

definition beq_enc :: "string list \<Rightarrow> int \<Rightarrow> symtab \<Rightarrow> int py" where
  "beq_enc args curr_addr symtab = enc_branch 0x0 args curr_addr symtab"
definition bne_enc :: "string list \<Rightarrow> int \<Rightarrow> symtab \<Rightarrow> int py" where
  "bne_enc args curr_addr symtab = enc_branch 0x1 args curr_addr symtab"
definition blt_enc :: "string list \<Rightarrow> int \<Rightarrow> symtab \<Rightarrow> int py" where
  "blt_enc args curr_addr symtab = enc_branch 0x4 args curr_addr symtab"
definition bge_enc :: "string list \<Rightarrow> int \<Rightarrow> symtab \<Rightarrow> int py" where
  "bge_enc args curr_addr symtab = enc_branch 0x5 args curr_addr symtab"

definition lui_enc :: "string list \<Rightarrow> int py" where "lui_enc args = enc_u 0x37 args"
definition auipc_enc :: "string list \<Rightarrow> int py" where "auipc_enc args = enc_u 0x17 args"

definition jal_enc :: "string list \<Rightarrow> int \<Rightarrow> symtab \<Rightarrow> int py" where
  "jal_enc args curr_addr symtab =
     py_bind (py_index args 0) (\<lambda>a0. py_bind (py_index args 1) (\<lambda>lbl.
       py_bind (py_lookup symtab lbl) (\<lambda>target.
         Inr (formato_j (target - curr_addr) (parse_reg a0) 0x6F))))"

subsection \<open>The dispatch table (lines 323--364)\<close>

datatype fmt = FmtR | FmtI | FmtS | FmtB | FmtU | FmtJ

text \<open>A handler of the table is called with the operands only (formats R, I, S, U)
  or also with the instruction's address and the symbol table (B, J).\<close>

datatype handler = Plain "string list \<Rightarrow> int py" | Rel "string list \<Rightarrow> int \<Rightarrow> symtab \<Rightarrow> int py"

definition INSTR_MAP :: "(string \<times> fmt \<times> handler) list" where
  "INSTR_MAP = [
     (''add'', FmtR, Plain add_enc), (''sub'', FmtR, Plain sub_enc),
     (''sll'', FmtR, Plain sll_enc), (''srl'', FmtR, Plain srl_enc),
     (''sra'', FmtR, Plain sra_enc), (''and'', FmtR, Plain and_enc),
     (''or'', FmtR, Plain or_enc), (''xor'', FmtR, Plain xor_enc),
     (''slt'', FmtR, Plain slt_enc), (''sltu'', FmtR, Plain sltu_enc),
     (''addi'', FmtI, Plain addi_enc), (''andi'', FmtI, Plain andi_enc),
     (''ori'', FmtI, Plain ori_enc), (''xori'', FmtI, Plain xori_enc),
     (''slti'', FmtI, Plain slti_enc), (''sltiu'', FmtI, Plain sltiu_enc),
     (''slli'', FmtI, Plain slli_enc), (''srli'', FmtI, Plain srli_enc),
     (''srai'', FmtI, Plain srai_enc),
     (''lw'', FmtI, Plain lw_enc), (''lb'', FmtI, Plain lb_enc), (''lh'', FmtI, Plain lh_enc),
     (''jalr'', FmtI, Plain jalr_enc),
     (''sw'', FmtS, Plain sw_enc), (''sb'', FmtS, Plain sb_enc), (''sh'', FmtS, Plain sh_enc),
     (''beq'', FmtB, Rel beq_enc), (''bne'', FmtB, Rel bne_enc),
     (''blt'', FmtB, Rel blt_enc), (''bge'', FmtB, Rel bge_enc),
     (''lui'', FmtU, Plain lui_enc), (''auipc'', FmtU, Plain auipc_enc),
     (''jal'', FmtJ, Rel jal_enc)]"

text \<open>Lines 543--551: R, I, S and U handlers are called as \<open>handler(args)\<close>, B and J
  handlers as \<open>handler(args, addr, symtab)\<close>; a call with the wrong arity would
  raise \<open>TypeError\<close>.  (The \<open>else\<close> branch of line 550 is unreachable: the six
  tags are all the table uses.)\<close>

definition run_handler :: "fmt \<Rightarrow> handler \<Rightarrow> string list \<Rightarrow> int \<Rightarrow> symtab \<Rightarrow> int py" where
  "run_handler typ h args addr symtab =
     (if typ = FmtR \<or> typ = FmtI \<or> typ = FmtS \<or> typ = FmtU
      then (case h of Plain f \<Rightarrow> f args | Rel _ \<Rightarrow> Inl TypeError)
      else (case h of Rel f \<Rightarrow> f args addr symtab | Plain _ \<Rightarrow> Inl TypeError))"

subsection \<open>The RV32I opcode map\<close>

text \<open>
  Opcode, \<open>funct3\<close> and \<open>funct7\<close> of the supported instructions, from the RV32I
  base instruction listing of the RISC-V unprivileged ISA manual (funct3 and funct7
  are 0 where the format has no such field; for \<open>srai\<close> the funct7 column is
  \<open>imm[11:5]\<close>).
\<close>

definition rv32i_isa :: "(string \<times> fmt \<times> int \<times> int \<times> int) list" where
  "rv32i_isa = [
     (''add'', FmtR, 51, 0, 0), (''sub'', FmtR, 51, 0, 32), (''sll'', FmtR, 51, 1, 0),
     (''slt'', FmtR, 51, 2, 0), (''sltu'', FmtR, 51, 3, 0), (''xor'', FmtR, 51, 4, 0),
     (''srl'', FmtR, 51, 5, 0), (''sra'', FmtR, 51, 5, 32), (''or'', FmtR, 51, 6, 0),
     (''and'', FmtR, 51, 7, 0),
     (''addi'', FmtI, 19, 0, 0), (''slti'', FmtI, 19, 2, 0), (''sltiu'', FmtI, 19, 3, 0),
     (''xori'', FmtI, 19, 4, 0), (''ori'', FmtI, 19, 6, 0), (''andi'', FmtI, 19, 7, 0),
     (''slli'', FmtI, 19, 1, 0), (''srli'', FmtI, 19, 5, 0), (''srai'', FmtI, 19, 5, 32),
     (''lb'', FmtI, 3, 0, 0), (''lh'', FmtI, 3, 1, 0), (''lw'', FmtI, 3, 2, 0),
     (''jalr'', FmtI, 103, 0, 0),
     (''sb'', FmtS, 35, 0, 0), (''sh'', FmtS, 35, 1, 0), (''sw'', FmtS, 35, 2, 0),
     (''beq'', FmtB, 99, 0, 0), (''bne'', FmtB, 99, 1, 0), (''blt'', FmtB, 99, 4, 0),
     (''bge'', FmtB, 99, 5, 0),
     (''lui'', FmtU, 55, 0, 0), (''auipc'', FmtU, 23, 0, 0), (''jal'', FmtJ, 111, 0, 0)]"

text \<open>The shapes of the handlers of the table: which shared body, with which
  constants, each format tag is paired with.\<close>

inductive handler_shape :: "fmt \<Rightarrow> handler \<Rightarrow> bool" where
  shape_r: "fits 7 f7 \<Longrightarrow> fits 3 f3 \<Longrightarrow> handler_shape FmtR (Plain (enc_r f7 f3))"
| shape_i: "fits 7 opc \<Longrightarrow> fits 3 f3 \<Longrightarrow> handler_shape FmtI (Plain (enc_i opc f3 x))"
| shape_load: "fits 3 f3 \<Longrightarrow> handler_shape FmtI (Plain (enc_load f3))"
| shape_s: "fits 3 f3 \<Longrightarrow> handler_shape FmtS (Plain (enc_store f3))"
| shape_b: "fits 3 f3 \<Longrightarrow> handler_shape FmtB (Rel (enc_branch f3))"
| shape_u: "fits 7 opc \<Longrightarrow> handler_shape FmtU (Plain (enc_u opc))"
| shape_j: "handler_shape FmtJ (Rel jal_enc)"


subsection \<open>Characterisation of the handlers\<close>

lemma enc_r_Inr:
  "enc_r f7 f3 args = Inr w \<longleftrightarrow>
   2 < length args \<and> w = formato_r f7 (parse_reg (args ! 2)) (parse_reg (args ! 1)) f3 (parse_reg (args ! 0)) 0x33"
  by (auto simp: enc_r_def py_bind_def py_index_def split: sum.splits)

lemma enc_r_fields:
  assumes "enc_r f7 f3 args = Inr w" "0 \<le> w" "fits 7 f7" "fits 3 f3"
  shows "opcode_of w = 51 \<and> funct3_of w = f3 \<and> funct7_of w = f7 \<and>
    rd_of w = parse_reg (args ! 0) \<and> rs1_of w = parse_reg (args ! 1) \<and> rs2_of w = parse_reg (args ! 2)"
proof -
  from assms(1) have w: "w = formato_r f7 (parse_reg (args ! 2)) (parse_reg (args ! 1)) f3 (parse_reg (args ! 0)) 0x33"
    by (simp add: enc_r_Inr)
  with assms(2) have "fits 5 (parse_reg (args ! 2))" "fits 5 (parse_reg (args ! 1))" "fits 5 (parse_reg (args ! 0))"
    by (simp_all add: nonneg_formato parse_reg_nonneg_fits)
  with assms(3,4) show ?thesis
    using fields_formato_r w by simp
qed

lemma py_lookup_eq_Inr [simp]: "py_lookup m k = Inr v \<longleftrightarrow> m k = Some v"
  by (simp add: py_lookup_def split: option.splits)

lemma enc_i_Inr:
  "enc_i opc f3 extra args = Inr w \<longleftrightarrow> 2 < length args \<and>
   (\<exists>imm. py_int (args ! 2) = Inr imm \<and> w = formato_i (imm OR extra) (parse_reg (args ! 1)) f3 (parse_reg (args ! 0)) opc)"
  by (auto simp: enc_i_def)

lemma mem_arg_Inr:
  "mem_arg a = Inr (imm, rs1) \<longleftrightarrow>
   (\<exists>g1 g2. mem_operand (remove_spaces a) = Some (g1, g2) \<and> py_int g1 = Inr imm \<and> rs1 = parse_reg g2)"
  by (auto simp: mem_arg_def split: option.splits)

lemma enc_load_Inr:
  "enc_load f3 args = Inr w \<longleftrightarrow> 1 < length args \<and>
   (\<exists>imm rs1. mem_arg (args ! 1) = Inr (imm, rs1) \<and> w = formato_i imm rs1 f3 (parse_reg (args ! 0)) 0x03)"
  by (auto simp: enc_load_def)

lemma enc_store_Inr:
  "enc_store f3 args = Inr w \<longleftrightarrow> 1 < length args \<and>
   (\<exists>imm rs1. mem_arg (args ! 1) = Inr (imm, rs1) \<and> w = formato_s imm (parse_reg (args ! 0)) rs1 f3 0x23)"
  by (auto simp: enc_store_def)

lemma enc_branch_Inr:
  "enc_branch f3 args a st = Inr w \<longleftrightarrow> 2 < length args \<and>
   (\<exists>t. st (args ! 2) = Some t \<and> w = formato_b (t - a) (parse_reg (args ! 1)) (parse_reg (args ! 0)) f3 0x63)"
  by (auto simp: enc_branch_def)

lemma enc_u_Inr:
  "enc_u opc args = Inr w \<longleftrightarrow> 1 < length args \<and>
   (\<exists>imm. py_int (args ! 1) = Inr imm \<and> w = formato_u imm (parse_reg (args ! 0)) opc)"
  by (auto simp: enc_u_def)

lemma jal_enc_Inr:
  "jal_enc args a st = Inr w \<longleftrightarrow> 1 < length args \<and>
   (\<exists>t. st (args ! 1) = Some t \<and> w = formato_j (t - a) (parse_reg (args ! 0)) 0x6F)"
  by (auto simp: jal_enc_def)

lemma enc_i_fields:
  assumes "enc_i opc f3 extra args = Inr w" "0 \<le> w" "fits 7 opc" "fits 3 f3"
  shows "opcode_of w = opc \<and> funct3_of w = f3 \<and> rd_of w = parse_reg (args ! 0) \<and> rs1_of w = parse_reg (args ! 1)"
proof -
  from assms(1) obtain imm where w: "w = formato_i (imm OR extra) (parse_reg (args ! 1)) f3 (parse_reg (args ! 0)) opc"
    by (auto simp: enc_i_Inr)
  with assms(2) have "fits 5 (parse_reg (args ! 1))" "fits 5 (parse_reg (args ! 0))"
    by (simp_all add: nonneg_formato parse_reg_nonneg_fits)
  with assms(3,4) show ?thesis using fields_formato_i w by simp
qed

lemma enc_load_fields:
  assumes "enc_load f3 args = Inr w" "0 \<le> w" "fits 3 f3"
  shows "opcode_of w = 3 \<and> funct3_of w = f3 \<and> rd_of w = parse_reg (args ! 0)"
proof -
  from assms(1) obtain imm rs1 where w: "w = formato_i imm rs1 f3 (parse_reg (args ! 0)) 0x03"
    and m: "mem_arg (args ! 1) = Inr (imm, rs1)"
    by (auto simp: enc_load_Inr)
  from m obtain g2 where "rs1 = parse_reg g2" by (auto simp: mem_arg_Inr)
  with w assms(2) have "fits 5 rs1" "fits 5 (parse_reg (args ! 0))"
    by (simp_all add: nonneg_formato parse_reg_nonneg_fits)
  with assms(3) show ?thesis using fields_formato_i w by simp
qed

lemma enc_store_fields:
  assumes "enc_store f3 args = Inr w" "0 \<le> w" "fits 3 f3"
  shows "opcode_of w = 35 \<and> funct3_of w = f3 \<and> rs2_of w = parse_reg (args ! 0)"
proof -
  from assms(1) obtain imm rs1 where w: "w = formato_s imm (parse_reg (args ! 0)) rs1 f3 0x23"
    and m: "mem_arg (args ! 1) = Inr (imm, rs1)"
    by (auto simp: enc_store_Inr)
  from m obtain g2 where "rs1 = parse_reg g2" by (auto simp: mem_arg_Inr)
  with w assms(2) have "fits 5 rs1" "fits 5 (parse_reg (args ! 0))"
    by (simp_all add: nonneg_formato parse_reg_nonneg_fits)
  with assms(3) show ?thesis using fields_formato_s w by simp
qed

lemma enc_branch_fields:
  assumes "enc_branch f3 args a st = Inr w" "0 \<le> w" "fits 3 f3"
  shows "opcode_of w = 99 \<and> funct3_of w = f3 \<and> rs1_of w = parse_reg (args ! 0) \<and> rs2_of w = parse_reg (args ! 1)"
proof -
  from assms(1) obtain t where w: "w = formato_b (t - a) (parse_reg (args ! 1)) (parse_reg (args ! 0)) f3 0x63"
    by (auto simp: enc_branch_Inr)
  with assms(2) have "fits 5 (parse_reg (args ! 1))" "fits 5 (parse_reg (args ! 0))"
    by (simp_all add: nonneg_formato parse_reg_nonneg_fits)
  with assms(3) show ?thesis using fields_formato_b w by simp
qed

lemma enc_u_fields:
  assumes "enc_u opc args = Inr w" "0 \<le> w" "fits 7 opc"
  shows "opcode_of w = opc \<and> rd_of w = parse_reg (args ! 0)"
proof -
  from assms(1) obtain imm where w: "w = formato_u imm (parse_reg (args ! 0)) opc"
    by (auto simp: enc_u_Inr)
  with assms(2) have "fits 5 (parse_reg (args ! 0))"
    by (simp add: nonneg_formato parse_reg_nonneg_fits)
  with assms(3) show ?thesis using fields_formato_u w by simp
qed

lemma enc_u_imm:
  assumes "enc_u opc args = Inr w" "0 \<le> w" "fits 7 opc"
  shows "\<exists>imm. py_int (args ! 1) = Inr imm \<and> imm_u w = signed_take_bit 31 (imm AND NOT 0xfff)"
proof -
  from assms(1) obtain imm where i: "py_int (args ! 1) = Inr imm" and w: "w = formato_u imm (parse_reg (args ! 0)) opc"
    by (auto simp: enc_u_Inr)
  with assms(2) have "fits 5 (parse_reg (args ! 0))"
    by (simp add: nonneg_formato parse_reg_nonneg_fits)
  with assms(3) i w show ?thesis using imm_u_formato_u by blast
qed

lemma jal_enc_fields:
  assumes "jal_enc args a st = Inr w" "0 \<le> w"
  shows "opcode_of w = 111 \<and> rd_of w = parse_reg (args ! 0)"
proof -
  from assms(1) obtain t where w: "w = formato_j (t - a) (parse_reg (args ! 0)) 0x6F"
    by (auto simp: jal_enc_Inr)
  with assms(2) have "fits 5 (parse_reg (args ! 0))"
    by (simp add: nonneg_formato parse_reg_nonneg_fits)
  then show ?thesis using fields_formato_j w by simp
qed

lemmas handler_defs = add_enc_def sub_enc_def sll_enc_def srl_enc_def sra_enc_def and_enc_def
  or_enc_def xor_enc_def slt_enc_def sltu_enc_def addi_enc_def andi_enc_def ori_enc_def
  xori_enc_def slti_enc_def sltiu_enc_def slli_enc_def srli_enc_def srai_enc_def lw_enc_def
  lb_enc_def lh_enc_def jalr_enc_def sw_enc_def sb_enc_def sh_enc_def beq_enc_def bne_enc_def
  blt_enc_def bge_enc_def lui_enc_def auipc_enc_def

lemma handler_eta:
  "add_enc = enc_r 0x00 0x0" "sub_enc = enc_r 0x20 0x0" "sll_enc = enc_r 0x00 0x1"
  "srl_enc = enc_r 0x00 0x5" "sra_enc = enc_r 0x20 0x5" "and_enc = enc_r 0x00 0x7"
  "or_enc = enc_r 0x00 0x6" "xor_enc = enc_r 0x00 0x4" "slt_enc = enc_r 0x00 0x2"
  "sltu_enc = enc_r 0x00 0x3"
  "addi_enc = enc_i 0x13 0x0 0" "andi_enc = enc_i 0x13 0x7 0" "ori_enc = enc_i 0x13 0x6 0"
  "xori_enc = enc_i 0x13 0x4 0" "slti_enc = enc_i 0x13 0x2 0" "sltiu_enc = enc_i 0x13 0x3 0"
  "slli_enc = enc_i 0x13 0x1 0" "srli_enc = enc_i 0x13 0x5 0"
  "srai_enc = enc_i 0x13 0x5 (push_bit 5 0x20)" "jalr_enc = enc_i 0x67 0x0 0"
  "lw_enc = enc_load 0x2" "lb_enc = enc_load 0x0" "lh_enc = enc_load 0x1"
  "sw_enc = enc_store 0x2" "sb_enc = enc_store 0x0" "sh_enc = enc_store 0x1"
  "beq_enc = enc_branch 0x0" "bne_enc = enc_branch 0x1" "blt_enc = enc_branch 0x4"
  "bge_enc = enc_branch 0x5" "lui_enc = enc_u 0x37" "auipc_enc = enc_u 0x17"
  by (simp_all add: fun_eq_iff handler_defs)


inductive_cases handler_shape_R: "handler_shape FmtR h"
inductive_cases handler_shape_B: "handler_shape FmtB h"
inductive_cases handler_shape_U: "handler_shape FmtU h"


lemma INSTR_MAP_shape:
  assumes "map_of INSTR_MAP m = Some (t, h)"
  shows "handler_shape t h"
proof -
  have "(m, t, h) \<in> set INSTR_MAP" using assms by (rule map_of_SomeD)
  then show ?thesis
    unfolding INSTR_MAP_def set_simps insert_iff empty_iff
    by (elim disjE) (simp_all add: handler_eta handler_shape.intros)
qed

lemma fits5_regs_b:
  assumes "0 \<le> formato_b imm (parse_reg a) (parse_reg b) f3 op"
  shows "fits 5 (parse_reg a) \<and> fits 5 (parse_reg b)"
  using assms by (simp add: nonneg_formato parse_reg_nonneg_fits)

lemma formato_i_upper_fields:
  assumes "fits 5 rs1" "fits 3 f3" "fits 5 rd" "fits 7 op"
  shows "funct7_of (formato_i imm rs1 f3 rd op) = field imm 5 7 \<and>
    rs2_of (formato_i imm rs1 f3 rd op) = field imm 0 5"
  unfolding funct7_of_def rs2_of_def formato_i_def Let_def and_lits
  using assms by (intro conjI field_eqI) (auto simp: bit_simps bit_field_iff fits_field dest: fits_bit)

lemma bit_pow2_lits: "bit (1024::int) n \<longleftrightarrow> n = 10" "bit (32::int) n \<longleftrightarrow> n = 5"
  using bit_exp_iff[of 10 n, where 'a = int] bit_exp_iff[of 5 n, where 'a = int] by simp_all

lemma field_or_1024: "field (sh OR push_bit 5 0x20) 5 7 = 0x20 OR field sh 5 7"
  "field (sh OR push_bit 5 0x20) 0 5 = field (sh::int) 0 5"
  by (auto intro!: bit_eqI simp: bit_field_iff bit_simps bit_pow2_lits)

subsection \<open>Properties of the handlers and of the table\<close>

text \<open>C3: every mnemonic of the dispatch table is an RV32I instruction of the same format, and a word its handler produces (with valid registers) carries the opcode, funct3 and funct7 the ISA manual gives that mnemonic\<close>

theorem instr_map_isa:
  assumes "map_of INSTR_MAP m = Some (t, h)" "run_handler t h args addr st = Inr w" "0 \<le> w"
  shows "\<exists>opc f3 f7. map_of rv32i_isa m = Some (t, opc, f3, f7) \<and> opcode_of w = opc \<and>
    (t \<noteq> FmtU \<and> t \<noteq> FmtJ \<longrightarrow> funct3_of w = f3) \<and> (t = FmtR \<longrightarrow> funct7_of w = f7)"
proof -
  have "(m, t, h) \<in> set INSTR_MAP" using assms(1) by (rule map_of_SomeD)
  then show ?thesis
    using assms(2,3) unfolding INSTR_MAP_def set_simps insert_iff empty_iff
    apply (elim disjE)
    apply (simp_all add: rv32i_isa_def run_handler_def handler_eta)
    apply (auto dest: enc_r_fields enc_i_fields enc_load_fields enc_store_fields enc_branch_fields
          enc_u_fields jal_enc_fields)
    done
qed

lemma instr_map_isa_witness:
  "map_of rv32i_isa ''sub'' = Some (FmtR, 51, 0, 32) \<and> opcode_of 0x40C58533 = 51 \<and>
   funct3_of 0x40C58533 = 0 \<and> funct7_of 0x40C58533 = 32"
proof -
  have a: "map_of INSTR_MAP ''sub'' = Some (FmtR, Plain sub_enc)" by (simp add: INSTR_MAP_def)
  have b: "run_handler FmtR (Plain sub_enc) [''a0'', ''a1'', ''a2''] 0 Map.empty = Inr 0x40C58533"
    unfolding run_handler_def sub_enc_def by simp code_simp
  have c: "map_of rv32i_isa ''sub'' = Some (FmtR, 51, 0, 32)" by (simp add: rv32i_isa_def)
  show ?thesis using instr_map_isa[OF a b] c by simp
qed

text \<open>C4: a branch of the table encodes the offset target minus the instruction's own address, reduced to the 13-bit even range of the B format, and takes rs1 and rs2 from its first two operands\<close>

theorem branch_encoding:
  assumes "map_of INSTR_MAP m = Some (FmtB, h)" "run_handler FmtB h args addr st = Inr w" "0 \<le> w"
  shows "\<exists>t. st (args ! 2) = Some t \<and> imm_b w = signed_take_bit 12 ((t - addr) AND NOT 1) \<and>
    rs1_of w = parse_reg (args ! 0) \<and> rs2_of w = parse_reg (args ! 1)"
proof -
  from INSTR_MAP_shape[OF assms(1)] obtain f3 where h: "h = Rel (enc_branch f3)" "fits 3 f3"
    by (auto elim: handler_shape_B)
  with assms(2) obtain t where t: "st (args ! 2) = Some t"
    and w: "w = formato_b (t - addr) (parse_reg (args ! 1)) (parse_reg (args ! 0)) f3 0x63"
    by (auto simp: run_handler_def enc_branch_Inr)
  with assms(3) have "fits 5 (parse_reg (args ! 1)) \<and> fits 5 (parse_reg (args ! 0))"
    by (simp add: fits5_regs_b)
  with h(2) t w show ?thesis
    using imm_b_formato_b fields_formato_b by simp
qed

lemma branch_encoding_witness:
  "map_of INSTR_MAP ''beq'' = Some (FmtB, Rel beq_enc) \<and>
   run_handler FmtB (Rel beq_enc) [''a0'', ''x0'', ''main''] 0x00400004 [''main'' \<mapsto> 0x00400000] = Inr 0xFE050EE3 \<and>
   (0::int) \<le> 0xFE050EE3 \<and>
   imm_b 0xFE050EE3 = -4"
proof -
  have a: "map_of INSTR_MAP ''beq'' = Some (FmtB, Rel beq_enc)" by (simp add: INSTR_MAP_def)
  have b: "run_handler FmtB (Rel beq_enc) [''a0'', ''x0'', ''main''] 0x00400004 [''main'' \<mapsto> 0x00400000] = Inr 0xFE050EE3"
    unfolding run_handler_def beq_enc_def by simp code_simp
  have "imm_b 0xFE050EE3 = signed_take_bit 12 ((0x00400000 - 0x00400004) AND NOT 1)"
    using branch_encoding[OF a b] by simp
  then show ?thesis using a b by simp
qed

text \<open>C5: jal encodes the offset target minus the instruction's own address, reduced to the 21-bit even range of the J format, with rd from its first operand\<close>

theorem jal_encoding:
  assumes "jal_enc args addr st = Inr w" "0 \<le> w"
  shows "\<exists>t. st (args ! 1) = Some t \<and> imm_j w = signed_take_bit 20 ((t - addr) AND NOT 1) \<and>
    rd_of w = parse_reg (args ! 0)"
proof -
  from assms(1) obtain t where t: "st (args ! 1) = Some t"
    and w: "w = formato_j (t - addr) (parse_reg (args ! 0)) 0x6F"
    by (auto simp: jal_enc_Inr)
  with assms(2) have "fits 5 (parse_reg (args ! 0))"
    by (simp add: nonneg_formato parse_reg_nonneg_fits)
  with t w show ?thesis
    using imm_j_formato_j fields_formato_j by simp
qed

lemma jal_encoding_witness:
  "jal_enc [''ra'', ''f''] 0x400008 [''f'' \<mapsto> 0x400000] = Inr 0xFF9FF0EF \<and> (0::int) \<le> 0xFF9FF0EF \<and>
   imm_j 0xFF9FF0EF = -8 \<and> rd_of 0xFF9FF0EF = 1"
proof -
  have a: "jal_enc [''ra'', ''f''] 0x400008 [''f'' \<mapsto> 0x400000] = Inr 0xFF9FF0EF" by code_simp
  have "imm_j 0xFF9FF0EF = signed_take_bit 20 ((0x400000 - 0x400008) AND NOT 1) \<and> rd_of 0xFF9FF0EF = parse_reg ''ra''"
    using jal_encoding[OF a] by simp
  moreover have "parse_reg ''ra'' = 1" by code_simp
  ultimately show ?thesis using a by simp
qed

text \<open>Every handler of the table raises IndexError when called without operands\<close>

theorem handlers_no_operands:
  "list_all (\<lambda>(m, t, h). run_handler t h [] addr st = Inl IndexError) INSTR_MAP"
  by (simp add: INSTR_MAP_def run_handler_def handler_eta enc_r_def enc_i_def enc_load_def
      enc_store_def enc_branch_def enc_u_def jal_enc_def)

text \<open>A branch or jal whose label is not in the symbol table raises KeyError\<close>

theorem branch_unknown_label:
  assumes "map_of INSTR_MAP m = Some (FmtB, h)" "st lbl = None"
  shows "run_handler FmtB h [r1, r2, lbl] addr st = Inl KeyError \<and>
    run_handler FmtJ (Rel jal_enc) [r1, lbl] addr st = Inl KeyError"
proof -
  from INSTR_MAP_shape[OF assms(1)] obtain f3 where "h = Rel (enc_branch f3)"
    by (auto elim: handler_shape_B)
  with assms(2) show ?thesis
    by (simp add: run_handler_def enc_branch_def jal_enc_def py_lookup_def)
qed

lemma branch_unknown_label_witness:
  "run_handler FmtB (Rel bne_enc) [''a0'', ''a1'', ''L''] 0x400000 Map.empty = Inl KeyError \<and>
   run_handler FmtJ (Rel jal_enc) [''a0'', ''L''] 0x400000 Map.empty = Inl KeyError"
proof -
  have "map_of INSTR_MAP ''bne'' = Some (FmtB, Rel bne_enc)" by (simp add: INSTR_MAP_def)
  then show ?thesis using branch_unknown_label by simp
qed

text \<open>A load or store whose memory operand does not match offset(reg) raises AttributeError (the re.match result is None)\<close>

theorem memory_operand_malformed:
  assumes "map_of INSTR_MAP m = Some (t, Plain h)" "m \<in> {''lw'', ''lb'', ''lh'', ''sw'', ''sb'', ''sh''}"
    "mem_operand (remove_spaces a1) = None"
  shows "h [a0, a1] = Inl AttributeError"
  using assms by (auto simp: INSTR_MAP_def handler_eta enc_load_def enc_store_def mem_arg_def)

lemma memory_operand_malformed_witness:
  "lw_enc [''a0'', ''8''] = Inl AttributeError"
proof -
  have "map_of INSTR_MAP ''lw'' = Some (FmtI, Plain lw_enc)" by (simp add: INSTR_MAP_def)
  moreover have "mem_operand (remove_spaces ''8'') = None" by code_simp
  ultimately show ?thesis using memory_operand_malformed by simp
qed

text \<open>Every R-format handler takes rd, rs1 and rs2 from its operands in that order\<close>

theorem r_operand_order:
  assumes "map_of INSTR_MAP m = Some (FmtR, h)" "run_handler FmtR h args addr st = Inr w" "0 \<le> w"
  shows "rd_of w = parse_reg (args ! 0) \<and> rs1_of w = parse_reg (args ! 1) \<and> rs2_of w = parse_reg (args ! 2)"
proof -
  from INSTR_MAP_shape[OF assms(1)] obtain f7 f3 where "h = Plain (enc_r f7 f3)" "fits 7 f7" "fits 3 f3"
    by (auto elim: handler_shape_R)
  with assms(2,3) show ?thesis
    using enc_r_fields by (simp add: run_handler_def)
qed

lemma r_operand_order_witness:
  "rd_of 0xC58533 = 10 \<and> rs1_of 0xC58533 = 11 \<and> rs2_of 0xC58533 = 12"
proof -
  have a: "map_of INSTR_MAP ''add'' = Some (FmtR, Plain add_enc)" by (simp add: INSTR_MAP_def)
  have b: "run_handler FmtR (Plain add_enc) [''a0'', ''a1'', ''a2''] 0 Map.empty = Inr 0xC58533"
    unfolding run_handler_def add_enc_def by simp code_simp
  have "parse_reg ''a0'' = 10" "parse_reg ''a1'' = 11" "parse_reg ''a2'' = 12" by code_simp+
  then show ?thesis using r_operand_order[OF a b] by simp
qed

text \<open>Srai places 0x20 OR bits 5..11 of the shift amount in funct7 and bits 0..4 in rs2: the shift amount is not range-checked, so 32 gives funct7 0x21, not an error\<close>

theorem srai_shamt:
  assumes "srai_enc [rd, rs, s] = Inr w" "0 \<le> w"
  shows "\<exists>sh. py_int s = Inr sh \<and> funct7_of w = 0x20 OR field sh 5 7 \<and> rs2_of w = field sh 0 5 \<and>
    funct3_of w = 5 \<and> opcode_of w = 0x13"
proof -
  from assms(1) obtain sh where sh: "py_int s = Inr sh"
    and w: "w = formato_i (sh OR push_bit 5 0x20) (parse_reg rs) 5 (parse_reg rd) 0x13"
    by (auto simp: srai_enc_def enc_i_Inr)
  with assms(2) have "fits 5 (parse_reg rs)" "fits 5 (parse_reg rd)"
    by (simp_all add: nonneg_formato parse_reg_nonneg_fits)
  with sh w show ?thesis
    using formato_i_upper_fields fields_formato_i field_or_1024 by simp
qed

lemma srai_shamt_witness:
  "srai_enc [''a0'', ''a1'', ''32''] = Inr 0x4205D513 \<and> funct7_of 0x4205D513 = 0x21 \<and> rs2_of 0x4205D513 = 0"
proof -
  have a: "srai_enc [''a0'', ''a1'', ''32''] = Inr 0x4205D513" by code_simp
  have "py_int ''32'' = Inr 32" by code_simp
  then have "funct7_of 0x4205D513 = 0x20 OR field 32 5 7 \<and> rs2_of 0x4205D513 = field 32 0 5"
    using srai_shamt[OF a] by simp
  then show ?thesis using a by (simp add: field_def)
qed

text \<open>C22: lui and auipc take their immediate operand as the value of the upper 20 bits already shifted: formato_u keeps the immediate with its low 12 bits cleared, so lui rd, k puts k AND NOT 0xfff, not k << 12, in the upper immediate (lui t1, 5 loads 0).\<close>

theorem upper_immediate_unshifted:
  assumes "map_of INSTR_MAP m = Some (FmtU, h)" "run_handler FmtU h args a st = Inr w" "0 \<le> w"
  shows "\<exists>imm. py_int (args ! 1) = Inr imm \<and> imm_u w = signed_take_bit 31 (imm AND NOT 0xfff) \<and>
    rd_of w = parse_reg (args ! 0)"
proof -
  from INSTR_MAP_shape[OF assms(1)] obtain opc where h: "h = Plain (enc_u opc)" "fits 7 opc"
    by (auto elim: handler_shape_U)
  with assms(2) have e: "enc_u opc args = Inr w" by (simp add: run_handler_def)
  show ?thesis using enc_u_imm[OF e assms(3) h(2)] enc_u_fields[OF e assms(3) h(2)] by blast
qed

lemma upper_immediate_unshifted_witness:
  "run_handler FmtU (Plain lui_enc) [''t1'', ''5''] 0x400000 Map.empty = Inr 0x337 \<and>
   imm_u 0x337 = 0 \<and> rd_of 0x337 = 6"
proof -
  have a: "map_of INSTR_MAP ''lui'' = Some (FmtU, Plain lui_enc)" by (simp add: INSTR_MAP_def)
  have b: "run_handler FmtU (Plain lui_enc) [''t1'', ''5''] 0x400000 Map.empty = Inr 0x337"
    unfolding run_handler_def lui_enc_def by simp code_simp
  have "py_int ''5'' = Inr 5" "parse_reg ''t1'' = 6" by code_simp+
  then show ?thesis using upper_immediate_unshifted[OF a b] b by simp
qed
end
