(* ===== verification/LineParser.thy ===== *)
theory LineParser
  imports PyRuntime
begin

text \<open>
  The line classifier \<open>parse_line\<close> of \<open>aRVA.py\<close> (lines 368--394).  A line loses
  everything from its first \<open>#\<close>, is stripped, and is then a label (it contains a
  colon), a directive (it starts with a dot) or an instruction, whose operands are
  split at commas with the regular expression \<open>\s*,\s*\<close>.  The lemmas show that a
  comment never changes the classification, how a line with a colon splits into a
  label and a remainder, that an instruction printed with its operands separated by
  \<open>", "\<close> parses back to the same mnemonic and operand list (so a memory operand
  \<open>8(sp)\<close> stays one operand), and that a colon or \<open>#\<close> inside a string literal is
  taken for a label or a comment.
\<close>

datatype parsed =
    PLabel string
  | PLabelRest string string
  | PDirective string string
  | PInstr string "string list"

definition parse_line :: "string \<Rightarrow> parsed option" where
  "parse_line line0 =
     (let line = py_strip (hd (split_once CHR ''#'' line0)) in
      if line = [] then None
      else if CHR '':'' \<in> set line then
        (let parts = split_once CHR '':'' line;
             lbl = py_strip (parts ! 0);
             rest = py_strip (parts ! 1)
         in if rest = [] then Some (PLabel lbl) else Some (PLabelRest lbl rest))
      else if hd line = CHR ''.'' then
        (let m = py_split_ws1 line in
         if length m = 1 then Some (PDirective (m ! 0) [])
         else Some (PDirective (m ! 0) (py_strip (m ! 1))))
      else
        (let parts = py_split_ws1 (py_strip line);
             mnem = parts ! 0;
             args = (if 1 < length parts then filter (\<lambda>a. a \<noteq> []) (re_split_comma (parts ! 1)) else [])
         in Some (PInstr mnem args)))"

text \<open>An instruction line as a programmer writes it: the mnemonic, a blank, and the
  operands separated by a comma and a blank.\<close>

fun join_ops :: "string list \<Rightarrow> string" where
  "join_ops [] = []"
| "join_ops [a] = a"
| "join_ops (a # as) = a @ '', '' @ join_ops as"

definition show_instr :: "string \<Rightarrow> string list \<Rightarrow> string" where
  "show_instr mnem args = (if args = [] then mnem else mnem @ CHR '' '' # join_ops args)"

text \<open>Mnemonics and operands that survive the round trip: no blank in a mnemonic, no
  blank at the ends of an operand, and none of the characters the classifier splits at.\<close>

definition plain_char :: "char \<Rightarrow> bool" where
  "plain_char c \<longleftrightarrow> c \<noteq> CHR ''#'' \<and> c \<noteq> CHR '':'' \<and> c \<noteq> CHR '',''"

definition ok_mnem :: "string \<Rightarrow> bool" where
  "ok_mnem m \<longleftrightarrow> m \<noteq> [] \<and> hd m \<noteq> CHR ''.'' \<and> list_all (\<lambda>c. plain_char c \<and> \<not> is_space c) m"

definition ok_operand :: "string \<Rightarrow> bool" where
  "ok_operand a \<longleftrightarrow> a \<noteq> [] \<and> list_all plain_char a \<and> \<not> is_space (hd a) \<and> \<not> is_space (last a)"

subsection \<open>Splitting and stripping around a separator\<close>

lemma split_once_notin: "c \<notin> set s \<Longrightarrow> split_once c s = [s]"
  by (simp add: split_once_def)

lemma split_once_append: "c \<notin> set s \<Longrightarrow> split_once c (s @ c # t) = [s, t]"
  by (induction s) (auto simp: split_once_def)

lemma dropWhile_idem: "dropWhile P (dropWhile P xs) = dropWhile P xs"
  by (induction xs) auto

lemma py_lstrip_append_ns: "\<not> is_space c \<Longrightarrow> py_lstrip (x @ c # y) = py_lstrip x @ c # y"
  by (induction x) (auto simp: py_lstrip_def)

lemma py_rstrip_Cons:
  "py_rstrip (x # xs) = (if py_rstrip xs = [] \<and> is_space x then [] else x # py_rstrip xs)"
  by (auto simp: py_rstrip_def dropWhile_append)

lemma py_rstrip_append_ns: "\<not> is_space c \<Longrightarrow> py_rstrip (x @ c # y) = x @ c # py_rstrip y"
  by (induction x) (auto simp: py_rstrip_Cons)

lemma py_strip_around: "\<not> is_space c \<Longrightarrow> py_strip (x @ c # y) = py_lstrip x @ c # py_rstrip y"
  by (simp add: py_strip_def py_lstrip_append_ns py_rstrip_append_ns)

lemma py_rstrip_Nil: "py_rstrip [] = []"
  by (simp add: py_rstrip_def)

lemma py_lstrip_rstrip: "py_rstrip (py_lstrip s) = py_lstrip (py_rstrip s)"
  by (induction s) (auto simp: py_rstrip_Cons py_lstrip_def py_rstrip_Nil)

lemma py_strip_lstrip [simp]: "py_strip (py_lstrip s) = py_strip s"
  by (simp add: py_strip_def py_lstrip_def dropWhile_idem)

lemma py_strip_rstrip [simp]: "py_strip (py_rstrip s) = py_strip s"
  by (simp add: py_strip_def py_lstrip_rstrip[symmetric]) (simp add: py_rstrip_def dropWhile_idem)

lemma set_py_lstrip: "set (py_lstrip s) \<subseteq> set s"
  by (auto simp: py_lstrip_def dest: set_dropWhileD)

lemma colon_not_space: "\<not> is_space CHR '':''"
  by (simp add: is_space_def)


subsection \<open>Joining and splitting operand lists\<close>

lemma set_join_ops: "set (join_ops as) \<subseteq> (\<Union>a\<in>set as. set a) \<union> {CHR '','', CHR '' ''}"
  by (induction as rule: join_ops.induct) auto

lemma join_ops_ends:
  assumes "list_all ok_operand as" "as \<noteq> []"
  shows "join_ops as \<noteq> [] \<and> hd (join_ops as) = hd (hd as) \<and> last (join_ops as) = last (last as)"
  using assms by (induction as rule: join_ops.induct) (auto simp: ok_operand_def)

lemma split_on_notin: "c \<notin> set s \<Longrightarrow> split_on c s = [s]"
  by (induction s) auto

lemma split_on_append: "c \<notin> set s \<Longrightarrow> split_on c (s @ c # t) = s # split_on c t"
  by (induction s) auto

lemma split_on_join_ops:
  assumes "list_all ok_operand as" "as \<noteq> []"
  shows "split_on CHR '','' (join_ops as) = hd as # map (Cons CHR '' '') (tl as)"
  using assms
proof (induction as rule: join_ops.induct)
  case (2 a)
  then have "CHR '','' \<notin> set a" by (auto simp: ok_operand_def plain_char_def list_all_iff)
  then show ?case by (simp add: split_on_notin)
next
  case (3 a b as)
  then have "CHR '','' \<notin> set a" by (auto simp: ok_operand_def plain_char_def list_all_iff)
  with 3 show ?case by (simp add: split_on_append)
qed simp

lemma py_rstrip_no_space: "b \<noteq> [] \<Longrightarrow> \<not> is_space (last b) \<Longrightarrow> py_rstrip b = b"
  by (induction b) (auto simp: py_rstrip_Cons py_rstrip_Nil split: if_splits)

lemma py_lstrip_space_Cons: "is_space c \<Longrightarrow> py_lstrip (c # b) = py_lstrip b"
  by (simp add: py_lstrip_def)

lemma py_lstrip_no_space: "b \<noteq> [] \<Longrightarrow> \<not> is_space (hd b) \<Longrightarrow> py_lstrip b = b"
  by (cases b) (simp_all add: py_lstrip_def)

lemma space_not_space: "is_space CHR '' ''"
  by (simp add: is_space_def)

lemma comma_tail_spaced: "list_all ok_operand as \<Longrightarrow> comma_tail (map (Cons CHR '' '') as) = as"
proof (induction as rule: induct_list012)
  case (2 a)
  then show ?case by (simp add: py_lstrip_space_Cons space_not_space ok_operand_def py_lstrip_no_space)
next
  case (3 a b as)
  then have "py_strip (CHR '' '' # a) = a"
    by (simp add: py_strip_def py_lstrip_space_Cons space_not_space ok_operand_def py_lstrip_no_space
        py_rstrip_no_space)
  with 3 show ?case by simp
qed simp

lemma re_split_comma_join_ops:
  assumes "list_all ok_operand as" "as \<noteq> []"
  shows "re_split_comma (join_ops as) = as"
proof (cases as)
  case (Cons a r)
  with assms have a: "ok_operand a" "list_all ok_operand r" by simp_all
  then have ra: "py_rstrip a = a" by (simp add: ok_operand_def py_rstrip_no_space)
  have ct: "comma_tail (map (Cons CHR '' '') r) = r" using a(2) by (rule comma_tail_spaced)
  show ?thesis using split_on_join_ops[OF assms] Cons ra ct
    by (cases r) (simp_all add: re_split_comma_def)
qed (use assms in simp)

lemma py_split_ws1_word:
  assumes "w \<noteq> []" "list_all (\<lambda>c. \<not> is_space c) w"
  shows "py_split_ws1 w = [w]"
    and "r \<noteq> [] \<Longrightarrow> \<not> is_space (hd r) \<Longrightarrow> py_split_ws1 (w @ CHR '' '' # r) = [w, r]"
proof -
  have l: "py_lstrip (w @ t) = w @ t" for t
    using assms by (cases w) (simp_all add: py_lstrip_def)
  have tw: "takeWhile (\<lambda>c. \<not> is_space c) (w @ t) = w @ takeWhile (\<lambda>c. \<not> is_space c) t"
    and dw: "dropWhile (\<lambda>c. \<not> is_space c) (w @ t) = dropWhile (\<lambda>c. \<not> is_space c) t" for t
    using assms(2) by (simp_all add: list_all_iff takeWhile_append2 dropWhile_append2)
  show "py_split_ws1 w = [w]"
    using l[of "[]"] tw[of "[]"] dw[of "[]"] assms(1)
    by (simp add: py_split_ws1_def py_lstrip_def del: takeWhile_eq_all_conv dropWhile_eq_Nil_conv)
  show "r \<noteq> [] \<Longrightarrow> \<not> is_space (hd r) \<Longrightarrow> py_split_ws1 (w @ CHR '' '' # r) = [w, r]"
    using l tw dw assms(1)
    by (simp add: py_split_ws1_def space_not_space py_lstrip_space_Cons py_lstrip_no_space)
qed

lemma join_ops_plain:
  assumes "list_all ok_operand args"
  shows "CHR ''#'' \<notin> set (join_ops args) \<and> CHR '':'' \<notin> set (join_ops args)"
proof -
  have "\<forall>a\<in>set args. CHR ''#'' \<notin> set a \<and> CHR '':'' \<notin> set a"
    using assms by (auto simp: list_all_iff ok_operand_def plain_char_def)
  then show ?thesis using set_join_ops[of args] by auto
qed

lemma show_instr_chars:
  assumes "ok_mnem mnem" "list_all ok_operand args"
  shows "CHR ''#'' \<notin> set (show_instr mnem args) \<and> CHR '':'' \<notin> set (show_instr mnem args) \<and>
    show_instr mnem args \<noteq> [] \<and> hd (show_instr mnem args) = hd mnem \<and>
    \<not> is_space (last (show_instr mnem args))"
proof -
  have m: "mnem \<noteq> []" "\<forall>c\<in>set mnem. plain_char c \<and> \<not> is_space c"
    using assms(1) by (simp_all add: ok_mnem_def list_all_iff)
  then have "\<not> is_space (last mnem)" "CHR ''#'' \<notin> set mnem" "CHR '':'' \<notin> set mnem"
    by (auto simp: plain_char_def)
  moreover have "args \<noteq> [] \<Longrightarrow> \<not> is_space (last (join_ops args)) \<and> join_ops args \<noteq> []"
    using assms(2) join_ops_ends[OF assms(2)] by (auto simp: list_all_iff ok_operand_def)
  ultimately show ?thesis
    using m(1) join_ops_plain[OF assms(2)] space_not_space by (simp add: show_instr_def)
qed


subsection \<open>Properties of the classifier\<close>

text \<open>A comment does not change how a line is classified: the text after the first \<open>#\<close> is ignored.\<close>

theorem parse_line_comment:
  assumes "CHR ''#'' \<notin> set s"
  shows "parse_line (s @ CHR ''#'' # c) = parse_line s"
  using assms by (simp add: parse_line_def split_once_append split_once_notin)

lemma parse_line_comment_witness:
  "CHR ''#'' \<notin> set ''add a0, a1, a2 '' \<and>
   parse_line (''add a0, a1, a2 '' @ CHR ''#'' # '' sum'') = parse_line ''add a0, a1, a2 ''"
  using parse_line_comment[of "''add a0, a1, a2 ''" "'' sum''"] by simp

text \<open>A line with a colon (before any \<open>#\<close>) is a label: the stripped text before the first colon is its name, and a non-blank remainder is kept, stripped, to be classified again.\<close>

theorem parse_line_label:
  assumes "CHR '':'' \<notin> set lbl" "CHR ''#'' \<notin> set lbl" "CHR ''#'' \<notin> set rest"
  shows "parse_line (lbl @ CHR '':'' # rest) =
    Some (if py_strip rest = [] then PLabel (py_strip lbl) else PLabelRest (py_strip lbl) (py_strip rest))"
proof -
  have "CHR '':'' \<notin> set (py_lstrip lbl)" using assms(1) set_py_lstrip by blast
  then show ?thesis using assms
    by (simp add: parse_line_def split_once_notin py_strip_around colon_not_space split_once_append)
qed

lemma parse_line_label_witness:
  "parse_line (''main'' @ CHR '':'' # '' addi a0, x0, 5'') = Some (PLabelRest ''main'' ''addi a0, x0, 5'')"
proof -
  have "py_strip '' addi a0, x0, 5'' = ''addi a0, x0, 5''" "py_strip ''main'' = ''main''" by code_simp+
  then show ?thesis using parse_line_label[of "''main''" "'' addi a0, x0, 5''"] by simp
qed

text \<open>An instruction printed as its mnemonic, a blank and its operands separated by \<open>", "\<close> is classified as that instruction with exactly those operands; in particular a memory operand such as \<open>8(sp)\<close> is not split.\<close>

theorem parse_show_instr:
  assumes "ok_mnem mnem" "list_all ok_operand args"
  shows "parse_line (show_instr mnem args) = Some (PInstr mnem args)"
proof -
  note c = show_instr_chars[OF assms]
  have strip: "py_strip (show_instr mnem args) = show_instr mnem args"
    using c assms(1) by (intro py_strip_no_space) (auto simp: ok_mnem_def list_all_iff)
  have w: "mnem \<noteq> []" "list_all (\<lambda>c. \<not> is_space c) mnem" "hd mnem \<noteq> CHR ''.''"
    using assms(1) by (auto simp: ok_mnem_def list_all_iff)
  have ws: "py_split_ws1 (show_instr mnem args) = (if args = [] then [mnem] else [mnem, join_ops args])"
  proof (cases "args = []")
    case False
    then have "join_ops args \<noteq> []" "\<not> is_space (hd (join_ops args))"
      using join_ops_ends[OF assms(2)] assms(2) by (auto simp: neq_Nil_conv ok_operand_def)
    then show ?thesis using False py_split_ws1_word(2)[OF w(1,2)] by (simp add: show_instr_def)
  qed (simp add: show_instr_def py_split_ws1_word(1)[OF w(1,2)])
  have filt: "filter (\<lambda>a. a \<noteq> []) args = args"
    using assms(2) by (auto simp: list_all_iff ok_operand_def filter_id_conv)
  show ?thesis
    using c strip w(3) ws filt re_split_comma_join_ops[OF assms(2)]
    by (simp add: parse_line_def split_once_notin)
qed

lemma parse_show_instr_witness:
  "parse_line ''lw a0, 8(sp)'' = Some (PInstr ''lw'' [''a0'', ''8(sp)''])"
proof -
  have "ok_mnem ''lw''" "list_all ok_operand [''a0'', ''8(sp)'']" by code_simp+
  moreover have "show_instr ''lw'' [''a0'', ''8(sp)''] = ''lw a0, 8(sp)''" by code_simp
  ultimately show ?thesis using parse_show_instr[of "''lw''" "[''a0'', ''8(sp)'']"] by simp
qed

text \<open>The classifier looks for \<open>#\<close> and \<open>:\<close> before it knows whether the line is a directive, so a colon inside the string literal of \<open>.ascii\<close> turns the line into a label and a \<open>#\<close> inside it truncates the literal.\<close>

theorem parse_line_string_literal:
  "parse_line ''.ascii \"a:b\"'' = Some (PLabelRest ''.ascii \"a'' ''b\"'') \<and>
   parse_line ''.asciiz \"x#y\"'' = Some (PDirective ''.asciiz'' ''\"x'')"
  by code_simp

end
