(* ===== verification/Pass1.thy ===== *)
theory Pass1
  imports LineParser
begin

text \<open>
  The first pass of \<open>assemble\<close> (\<open>aRVA.py\<close> lines 399--500): the lines are
  classified one by one and a state of two cursors (text and data), the symbol
  table, the list of items for the second pass and the current section is updated.
  A run of the pass either ends in a state, raises (an \<open>Inl\<close> of
  \<open>asm_error\<close>), or loops for ever in one of the two \<open>while\<close> loops of
  \<open>.align\<close>; the last case is the \<open>None\<close> of the outer option.  The lemmas show
  the invariant of the cursors (the text cursor stays a multiple of 4 above
  \<open>TEXT_BASE\<close>, the data cursor above \<open>DATA_BASE\<close>), that therefore the pass always
  ends, that both \<open>.align\<close> loops compute the closed form \<open>a + (-a) mod 2^n\<close>,
  and what the data directives emit.  A second invariant of the reachable states,
  \<open>items_in\<close>, places every data item between \<open>DATA_BASE\<close> and the data cursor
  and every text item at an aligned address below the text cursor; the second pass
  uses it for the safety of the images.
\<close>

unbundle bit_operations_syntax

subsection \<open>State, items and errors\<close>

datatype sect = SecText | SecData

text \<open>The tuples appended to \<open>items\<close>: \<open>('label', addr, lbl)\<close>,
  \<open>('data_word', addr, v)\<close>, \<open>('data_half', addr, v)\<close>, \<open>('data_byte', addr, v)\<close>,
  \<open>('unknown_directive', (dname, carg))\<close>, \<open>('text_instr', addr, (mnem, args, raw))\<close>
  and \<open>('unknown_in_data', (mnem, args))\<close>.\<close>

datatype item =
    ItLabel addr string
  | ItDataWord addr int
  | ItDataHalf addr int
  | ItDataByte addr int
  | ItUnknownDirective string string
  | ItTextInstr addr string "string list" string
  | ItUnknownInData string "string list"

text \<open>What a run of \<open>assemble\<close> may raise: an exception of a Python built-in
  (\<open>int()\<close>, a negative shift count, the codecs, a missing operand of \<open>la\<close>), or
  one of the \<open>ValueError\<close>s the source raises itself (lines 464, 530, 551, 553,
  555), with the data its message carries.\<close>

datatype asm_error =
    PyError py_exc
  | StringLiteralExpected nat
  | SymbolNotFound string addr
  | InstrError string addr py_exc
  | UnknownMnemonic string addr

record p1_state =
  text_addr :: addr
  data_addr :: addr
  symtab :: symtab
  items :: "item list"
  cur_section :: sect

text \<open>A computation that may raise or loop for ever: \<open>None\<close> is the endless loop.\<close>

type_synonym 'a run = "(asm_error + 'a) option"

definition TEXT_BASE :: addr where "TEXT_BASE = 0x00400000"
definition DATA_BASE :: addr where "DATA_BASE = 0x10010000"

definition p1_init :: p1_state where
  "p1_init = \<lparr>text_addr = TEXT_BASE, data_addr = DATA_BASE, symtab = Map.empty, items = [],
     cur_section = SecText\<rparr>"

subsection \<open>Python helpers\<close>

text \<open>\<open>1 << n\<close>: a negative shift count raises \<open>ValueError\<close>.\<close>

definition py_shift1 :: "int \<Rightarrow> int py" where
  "py_shift1 n = (if n < 0 then Inl ValueError else Inr (push_bit (nat n) 1))"

text \<open>\<open>[f(x) for x in xs]\<close> for an \<open>f\<close> that may raise: the first exception wins.\<close>

fun py_map :: "('a \<Rightarrow> 'b py) \<Rightarrow> 'a list \<Rightarrow> 'b list py" where
  "py_map f [] = Inr []"
| "py_map f (x # xs) = py_bind (f x) (\<lambda>y. py_bind (py_map f xs) (\<lambda>ys. Inr (y # ys)))"

definition raise_py :: "'a py \<Rightarrow> ('a \<Rightarrow> 'b run) \<Rightarrow> 'b run" where
  "raise_py m f = (case m of Inl e \<Rightarrow> Some (Inl (PyError e)) | Inr x \<Rightarrow> f x)"

subsection \<open>The loops of the data directives\<close>

text \<open>\<open>for v in vals: items.append((tag, data_addr, v)); data_addr += w\<close>.\<close>

fun emit :: "(addr \<Rightarrow> int \<Rightarrow> item) \<Rightarrow> int \<Rightarrow> int list \<Rightarrow> p1_state \<Rightarrow> p1_state" where
  "emit mk w [] s = s"
| "emit mk w (v # vs) s =
     emit mk w vs (s\<lparr>items := items s @ [mk (data_addr s) v], data_addr := data_addr s + w\<rparr>)"

text \<open>\<open>while text_addr % align_bytes != 0: text_addr += 4\<close> (lines 439--440).\<close>

definition align_text :: "int \<Rightarrow> addr \<Rightarrow> addr option" where
  "align_text align_bytes a = while_option (\<lambda>a. a mod align_bytes \<noteq> 0) (\<lambda>a. a + 4) a"

text \<open>\<open>while data_addr % align_bytes != 0: items.append(('data_byte', data_addr, 0));
  data_addr += 1\<close> (lines 483--485).\<close>

definition align_data :: "int \<Rightarrow> p1_state \<Rightarrow> p1_state option" where
  "align_data align_bytes s =
     while_option (\<lambda>s. data_addr s mod align_bytes \<noteq> 0)
       (\<lambda>s. s\<lparr>items := items s @ [ItDataByte (data_addr s) 0], data_addr := data_addr s + 1\<rparr>) s"

subsection \<open>Directives, instructions and labels\<close>

text \<open>A directive in the data section (lines 443--488).\<close>

definition data_directive :: "nat \<Rightarrow> string \<Rightarrow> string \<Rightarrow> p1_state \<Rightarrow> p1_state run" where
  "data_directive ln_no dname carg s =
     (if dname = ''.word'' then
        raise_py (py_map py_int (re_split_comma carg)) (\<lambda>vals. Some (Inr (emit ItDataWord 4 vals s)))
      else if dname = ''.half'' then
        raise_py (py_map py_int (re_split_comma carg)) (\<lambda>vals. Some (Inr (emit ItDataHalf 2 vals s)))
      else if dname = ''.byte'' then
        raise_py (py_map py_int (re_split_comma carg)) (\<lambda>vals. Some (Inr (emit ItDataByte 1 vals s)))
      else if dname = ''.ascii'' \<or> dname = ''.asciiz'' then
        (case str_literal carg of
           None \<Rightarrow> Some (Inl (StringLiteralExpected ln_no))
         | Some g \<Rightarrow> raise_py (py_bind (unicode_escape g) utf8_encode) (\<lambda>b.
             let s' = emit ItDataByte 1 b s
             in Some (Inr (if dname = ''.asciiz'' then emit ItDataByte 1 [0] s' else s'))))
      else if dname = ''.space'' then
        raise_py (py_int carg) (\<lambda>n. Some (Inr (emit ItDataByte 1 (replicate (nat n) 0) s)))
      else if dname = ''.align'' then
        raise_py (py_bind (py_int carg) py_shift1) (\<lambda>align_bytes.
          map_option Inr (align_data align_bytes s))
      else Some (Inr (s\<lparr>items := items s @ [ItUnknownDirective dname carg]\<rparr>)))"

text \<open>A directive (lines 427--488): \<open>.text\<close> and \<open>.data\<close> switch the section, the
  text section knows only \<open>.align\<close> and ignores every other directive.\<close>

definition directive :: "nat \<Rightarrow> string \<Rightarrow> string \<Rightarrow> p1_state \<Rightarrow> p1_state run" where
  "directive ln_no dname carg s =
     (if dname = ''.text'' then Some (Inr (s\<lparr>cur_section := SecText\<rparr>))
      else if dname = ''.data'' then Some (Inr (s\<lparr>cur_section := SecData\<rparr>))
      else if cur_section s = SecText then
        (if dname = ''.align'' then
           raise_py (py_bind (py_int carg) py_shift1) (\<lambda>align_bytes.
             map_option (\<lambda>a. Inr (s\<lparr>text_addr := a\<rparr>)) (align_text align_bytes (text_addr s)))
         else Some (Inr s))
      else data_directive ln_no dname carg s)"

text \<open>An instruction (lines 490--500): in the text section it is recorded with its
  address and the stripped source line, and the text cursor advances by 4.\<close>

definition instruction :: "string \<Rightarrow> string \<Rightarrow> string list \<Rightarrow> p1_state \<Rightarrow> p1_state" where
  "instruction raw mnem args s =
     (if mnem = ''.text'' then s\<lparr>cur_section := SecText\<rparr>
      else if mnem = ''.data'' then s\<lparr>cur_section := SecData\<rparr>
      else if cur_section s = SecText then
        s\<lparr>items := items s @ [ItTextInstr (text_addr s) mnem args (py_strip raw)],
          text_addr := text_addr s + 4\<rparr>
      else s\<lparr>items := items s @ [ItUnknownInData mnem args]\<rparr>)"

definition cur_addr :: "p1_state \<Rightarrow> addr" where
  "cur_addr s = (if cur_section s = SecText then text_addr s else data_addr s)"

text \<open>A label (lines 411--421): bound to the cursor of the current section.\<close>

definition add_label :: "string \<Rightarrow> p1_state \<Rightarrow> p1_state" where
  "add_label lbl s =
     s\<lparr>symtab := (symtab s)(lbl \<mapsto> cur_addr s), items := items s @ [ItLabel (cur_addr s) lbl]\<rparr>"

text \<open>The part of the loop body after the label test (lines 427--500); a label
  found again in the remainder of a \<open>label: rest\<close> line falls through both tests
  and is dropped.\<close>

definition process_parsed :: "nat \<Rightarrow> string \<Rightarrow> parsed \<Rightarrow> p1_state \<Rightarrow> p1_state run" where
  "process_parsed ln_no raw p s =
     (case p of
        PDirective dname carg \<Rightarrow> directive ln_no dname carg s
      | PInstr mnem args \<Rightarrow> Some (Inr (instruction raw mnem args s))
      | _ \<Rightarrow> Some (Inr s))"

definition process_line :: "nat \<Rightarrow> string \<Rightarrow> p1_state \<Rightarrow> p1_state run" where
  "process_line ln_no raw s =
     (case parse_line raw of
        None \<Rightarrow> Some (Inr s)
      | Some (PLabel lbl) \<Rightarrow> Some (Inr (add_label lbl s))
      | Some (PLabelRest lbl rest) \<Rightarrow>
          (case parse_line rest of
             None \<Rightarrow> Some (Inr (add_label lbl s))
           | Some p \<Rightarrow> process_parsed ln_no raw p (add_label lbl s))
      | Some p \<Rightarrow> process_parsed ln_no raw p s)"

text \<open>The loop \<open>for ln_no, raw in enumerate(lines, start=1)\<close>.\<close>

fun pass1_from :: "nat \<Rightarrow> string list \<Rightarrow> p1_state \<Rightarrow> p1_state run" where
  "pass1_from n [] s = Some (Inr s)"
| "pass1_from n (l # ls) s =
     (case process_line n l s of
        None \<Rightarrow> None
      | Some (Inl e) \<Rightarrow> Some (Inl e)
      | Some (Inr s') \<Rightarrow> pass1_from (Suc n) ls s')"

definition pass1 :: "string list \<Rightarrow> p1_state run" where
  "pass1 lines = pass1_from 1 lines p1_init"

subsection \<open>Reachable states, invariant and the frame of a data directive\<close>

text \<open>The states of the first pass: the initial state and every state a line leads to.\<close>

inductive p1_reach :: "p1_state \<Rightarrow> bool" where
  p1_start: "p1_reach p1_init"
| p1_step: "p1_reach s \<Longrightarrow> process_line n l s = Some (Inr s') \<Longrightarrow> p1_reach s'"

definition p1_inv :: "p1_state \<Rightarrow> bool" where
  "p1_inv s \<longleftrightarrow> text_addr s mod 4 = 0 \<and> TEXT_BASE \<le> text_addr s \<and> DATA_BASE \<le> data_addr s"

text \<open>An item lies within the cursor range \<open>[lo, hi)\<close> of its section: a data item
  covers its width in the data section, a text instruction one aligned word in the text
  section; the other items carry no address of a section.\<close>

fun data_in :: "addr \<Rightarrow> addr \<Rightarrow> item \<Rightarrow> bool" where
  "data_in lo hi (ItDataWord a v) \<longleftrightarrow> lo \<le> a \<and> a + 4 \<le> hi"
| "data_in lo hi (ItDataHalf a v) \<longleftrightarrow> lo \<le> a \<and> a + 2 \<le> hi"
| "data_in lo hi (ItDataByte a v) \<longleftrightarrow> lo \<le> a \<and> a + 1 \<le> hi"
| "data_in lo hi (ItTextInstr a m as r) \<longleftrightarrow> False"
| "data_in lo hi _ \<longleftrightarrow> True"

fun text_in :: "addr \<Rightarrow> addr \<Rightarrow> item \<Rightarrow> bool" where
  "text_in lo hi (ItTextInstr a m as r) \<longleftrightarrow> lo \<le> a \<and> a + 4 \<le> hi \<and> a mod 4 = 0"
| "text_in lo hi _ \<longleftrightarrow> False"

definition items_in :: "p1_state \<Rightarrow> bool" where
  "items_in s \<longleftrightarrow> list_all (\<lambda>x. data_in DATA_BASE (data_addr s) x \<or> text_in TEXT_BASE (text_addr s) x) (items s)"

text \<open>A data directive only appends items within the range it moves the data cursor
  over, and advances the data cursor.\<close>

definition data_step :: "p1_state \<Rightarrow> p1_state \<Rightarrow> bool" where
  "data_step t t' \<longleftrightarrow> text_addr t' = text_addr t \<and> data_addr t \<le> data_addr t' \<and> symtab t' = symtab t \<and>
     cur_section t' = cur_section t \<and>
     (\<exists>xs. items t' = items t @ xs \<and> list_all (data_in (data_addr t) (data_addr t')) xs)"

text \<open>The item constructor of a directive of width \<open>w\<close>.\<close>

definition item_width :: "(addr \<Rightarrow> int \<Rightarrow> item) \<Rightarrow> int \<Rightarrow> bool" where
  "item_width mk w \<longleftrightarrow> 0 \<le> w \<and> (\<forall>a v. data_in a (a + w) (mk a v))"

text \<open>A string literal that \<open>unicode_escape\<close> and UTF-8 leave unchanged: ASCII,
  without backslash, quote or newline.\<close>

definition plain_ascii :: "string \<Rightarrow> bool" where
  "plain_ascii g \<longleftrightarrow> list_all (\<lambda>c. of_char c < (128::nat) \<and> c \<noteq> CHR 0x5C \<and> c \<noteq> CHR 0x22 \<and> c \<noteq> CHR 0x0A) g"

subsection \<open>The loops of \<open>.align\<close> in closed form\<close>

lemma align_steps:
  fixes a N d :: int
  assumes "0 < N" "0 < d" "d dvd N" "d dvd a"
  shows "\<forall>j<nat (((- a) mod N) div d). (a + d * int j) mod N \<noteq> 0"
    and "(a + d * int (nat (((- a) mod N) div d))) mod N = 0"
    and "d * int (nat (((- a) mod N) div d)) = (- a) mod N"
proof -
  define r where "r = (- a) mod N"
  have r: "0 \<le> r" "r < N" using assms(1) by (simp_all add: r_def)
  have "d dvd r" using assms(3,4) by (simp add: r_def dvd_mod)
  then have dm: "d * int (nat (r div d)) = r" using r(1) assms(2) by (simp add: pos_imp_zdiv_nonneg_iff)
  have "(a + r) mod N = (a + - a) mod N" unfolding r_def by (rule mod_add_right_eq)
  then have ar: "(a + r) mod N = 0" by simp
  then show "(a + d * int (nat (((- a) mod N) div d))) mod N = 0" using dm by (simp add: r_def)
  show "d * int (nat (((- a) mod N) div d)) = (- a) mod N" using dm by (simp add: r_def)
  show "\<forall>j<nat (((- a) mod N) div d). (a + d * int j) mod N \<noteq> 0"
  proof (intro allI impI notI)
    fix j assume j: "j < nat (((- a) mod N) div d)" and z: "(a + d * int j) mod N = 0"
    have "N dvd (a + r) - (a + d * int j)"
      by (rule dvd_diff) (use ar z in \<open>simp_all add: mod_eq_0_iff_dvd\<close>)
    then have nd: "N dvd r - d * int j" by (simp add: algebra_simps)
    have "d * int j < d * int (nat (r div d))"
      using j assms(2) unfolding r_def[symmetric] by (intro mult_strict_left_mono) linarith+
    moreover have "0 \<le> d * int j" using assms(2) by simp
    ultimately have "0 < r - d * int j" "r - d * int j < N" using dm r by linarith+
    then show False using nd zdvd_not_zless by blast
  qed
qed

lemma align_text_exact:
  "align_text (2 ^ k) a = (if 2 ^ min k 2 dvd a then Some (a + (- a) mod 2 ^ k) else None)"
proof -
  let ?g = "(2::int) ^ min k 2"
  have "?g dvd 2 ^ 2" by (rule le_imp_power_dvd) simp
  then have g4: "?g dvd 4" by simp
  have gk: "?g dvd 2 ^ k" by (rule le_imp_power_dvd) simp
  show ?thesis
  proof (cases "?g dvd a")
    case False
    have "(a + 4 * int j) mod 2 ^ k \<noteq> 0" for j
    proof
      assume "(a + 4 * int j) mod 2 ^ k = 0"
      then have "?g dvd a + 4 * int j" using gk by (meson dvd_trans mod_0_imp_dvd)
      moreover have "?g dvd 4 * int j" using g4 by simp
      ultimately show False using False by (simp add: dvd_add_left_iff)
    qed
    with False show ?thesis
      by (simp add: align_text_def while_option_None_iff funpow_add_const mult.commute)
  next
    case True
    show ?thesis
    proof (cases "2 \<le> k")
      case k: True
      have "(2::int) ^ 2 dvd 2 ^ k" using k by (rule le_imp_power_dvd)
      then have "4 dvd a" "(4::int) dvd 2 ^ k" using True k by (simp_all add: min_absorb2)
      note st = align_steps[of "2 ^ k" 4 a, OF _ _ this(2,1), simplified]
      show ?thesis using True st
        by (simp add: align_text_def funpow_add_const mult.commute while_option_steps[where m = "nat ((- a) mod 2 ^ k div 4)"])
    next
      case False
      then have "2 ^ k dvd a" using True by (simp add: min_absorb1)
      then show ?thesis using True
        by (simp add: align_text_def while_option_unfold[of _ _ a] mod_eq_0_iff_dvd zmod_zminus1_eq_if)
    qed
  qed
qed

lemma align_data_funpow:
  "((\<lambda>s. s\<lparr>items := items s @ [ItDataByte (data_addr s) 0], data_addr := data_addr s + 1\<rparr>) ^^ j) s =
   s\<lparr>items := items s @ map (\<lambda>i. ItDataByte (data_addr s + int i) 0) [0..<j], data_addr := data_addr s + int j\<rparr>"
  by (induction j) simp_all

lemma align_data_closed:
  "align_data (2 ^ k) s =
   Some (s\<lparr>items := items s @ map (\<lambda>i. ItDataByte (data_addr s + int i) 0) [0..<nat ((- data_addr s) mod 2 ^ k)],
           data_addr := data_addr s + (- data_addr s) mod 2 ^ k\<rparr>)"
proof -
  note st = align_steps[of "2 ^ k" 1 "data_addr s", simplified]
  show ?thesis using st
    by (simp add: align_data_def align_data_funpow while_option_steps[where m = "nat ((- data_addr s) mod 2 ^ k)"])
qed

lemma emit_closed:
  "emit mk w vs s = s\<lparr>items := items s @ map (\<lambda>i. mk (data_addr s + w * int i) (vs ! i)) [0..<length vs],
     data_addr := data_addr s + w * int (length vs)\<rparr>"
proof (induction vs arbitrary: s)
  case (Cons v vs)
  have "map (\<lambda>i. mk (data_addr s + w * int i) ((v # vs) ! i)) [0..<length (v # vs)] =
        mk (data_addr s) v # map (\<lambda>i. mk (data_addr s + w + w * int i) (vs ! i)) [0..<length vs]"
    by (simp add: upt_conv_Cons map_Suc_upt[symmetric] algebra_simps del: upt_Suc)
  then show ?case using Cons by (simp add: algebra_simps)
qed simp


subsection \<open>The effect of one line on the cursors\<close>

lemma py_shift1_Inr: "py_shift1 n = Inr b \<longleftrightarrow> 0 \<le> n \<and> b = 2 ^ nat n"
  by (auto simp: py_shift1_def push_bit_eq_mult)

lemma raise_py_Inr: "raise_py m f = Some (Inr s') \<longleftrightarrow> (\<exists>x. m = Inr x \<and> f x = Some (Inr s'))"
  by (cases m) (simp_all add: raise_py_def)

lemma raise_py_not_None: "(\<And>x. m = Inr x \<Longrightarrow> f x \<noteq> None) \<Longrightarrow> raise_py m f \<noteq> None"
  by (cases m) (simp_all add: raise_py_def)

lemma align_text_mono:
  assumes "align_text N a = Some a'" "a mod 4 = 0"
  shows "a \<le> a' \<and> a' mod 4 = 0"
  using assms unfolding align_text_def
  by (rule_tac while_option_rule[where P = "\<lambda>x. a \<le> x \<and> x mod 4 = 0"]) auto

lemma data_in_mono: "data_in lo hi x \<Longrightarrow> lo' \<le> lo \<Longrightarrow> hi \<le> hi' \<Longrightarrow> data_in lo' hi' x"
  by (cases x) auto

lemma text_in_mono: "text_in lo hi x \<Longrightarrow> lo' \<le> lo \<Longrightarrow> hi \<le> hi' \<Longrightarrow> text_in lo' hi' x"
  by (cases x) auto

lemma list_all_data_in_mono:
  "list_all (data_in lo hi) xs \<Longrightarrow> lo' \<le> lo \<Longrightarrow> hi \<le> hi' \<Longrightarrow> list_all (data_in lo' hi') xs"
  by (auto simp: list_all_iff intro: data_in_mono)

lemma data_step_trans: "data_step t t' \<Longrightarrow> data_step t' t'' \<Longrightarrow> data_step t t''"
  unfolding data_step_def
  by (auto 0 3 intro: list_all_data_in_mono[where lo' = "data_addr t"])

lemma item_width_lits [simp]:
  "item_width ItDataWord 4" "item_width ItDataHalf 2" "item_width ItDataByte 1"
  by (simp_all add: item_width_def)

lemma data_step_emit:
  assumes "item_width mk w"
  shows "data_step s (emit mk w vs s)"
proof -
  have w: "0 \<le> w" "\<And>a v. data_in a (a + w) (mk a v)" using assms by (simp_all add: item_width_def)
  have "data_in (data_addr s) (data_addr s + w * int (length vs)) (mk (data_addr s + w * int i) (vs ! i))"
    if "i < length vs" for i
  proof (rule data_in_mono[OF w(2)])
    show "data_addr s \<le> data_addr s + w * int i" using w(1) by simp
    have "w * (int i + 1) \<le> w * int (length vs)" using that w(1) by (intro mult_left_mono) simp_all
    then show "data_addr s + w * int i + w \<le> data_addr s + w * int (length vs)" by (simp add: algebra_simps)
  qed
  then show ?thesis using w(1) by (auto simp: data_step_def emit_closed list_all_iff)
qed

lemma raise_emit_step:
  "raise_py m (\<lambda>x. Some (Inr (emit mk w (f x) s))) = Some (Inr s') \<Longrightarrow> item_width mk w \<Longrightarrow> data_step s s'"
  by (auto simp: raise_py_Inr data_step_emit)

lemma ascii_case_step:
  assumes "(case str_literal c of None \<Rightarrow> Some (Inl e) | Some g \<Rightarrow> raise_py (m g)
      (\<lambda>b. let t = emit ItDataByte 1 b s in Some (Inr (if z then emit ItDataByte 1 [0] t else t)))) = Some (Inr s')"
  shows "data_step s s'"
proof (cases "str_literal c")
  case (Some g)
  with assms obtain b where "s' = (if z then emit ItDataByte 1 [0] (emit ItDataByte 1 b s) else emit ItDataByte 1 b s)"
    by (auto simp: raise_py_Inr Let_def)
  moreover have "data_step s (emit ItDataByte 1 b s)"
    and "data_step (emit ItDataByte 1 b s) (emit ItDataByte 1 [0] (emit ItDataByte 1 b s))"
    by (simp_all only: data_step_emit item_width_lits)
  ultimately show ?thesis by (cases z) (auto intro: data_step_trans)
qed (use assms in simp)

lemma align_case_step:
  assumes "raise_py (py_bind (py_int c) py_shift1) (\<lambda>b. map_option Inr (align_data b s)) = Some (Inr s')"
  shows "data_step s s'"
proof -
  from assms obtain n where "0 \<le> n" "align_data (2 ^ nat n) s = Some s'"
    by (auto simp: raise_py_Inr py_shift1_Inr)
  moreover have "0 \<le> (- data_addr s) mod 2 ^ nat n" by simp
  ultimately show ?thesis by (auto simp: align_data_closed data_step_def list_all_iff)
qed

lemma data_directive_step:
  assumes "data_directive ln d c s = Some (Inr s')"
  shows "data_step s s'"
proof (cases "d \<in> {''.word'', ''.half'', ''.byte'', ''.ascii'', ''.asciiz'', ''.space'', ''.align''}")
  case True
  then show ?thesis using assms
    by (auto simp: data_directive_def dest!: raise_emit_step ascii_case_step align_case_step)
next
  case False
  then show ?thesis using assms by (auto simp: data_directive_def data_step_def)
qed

lemma align_data_total: "py_bind (py_int c) py_shift1 = Inr b \<Longrightarrow> align_data b s \<noteq> None"
  by (auto simp: py_shift1_Inr align_data_closed)

lemma data_directive_total: "data_directive ln d c s \<noteq> None"
proof (cases "d = ''.align''")
  case True
  then show ?thesis using align_data_total[of c _ s]
    by (auto simp: data_directive_def raise_py_def split: sum.split)
next
  case False
  then show ?thesis
    by (auto simp: data_directive_def raise_py_def Let_def split: sum.split option.split)
qed

lemma directive_cursors:
  assumes "directive ln d c s = Some (Inr s')" "text_addr s mod 4 = 0"
  shows "text_addr s \<le> text_addr s' \<and> text_addr s' mod 4 = 0 \<and> data_addr s \<le> data_addr s'"
  using assms data_directive_step[of ln d c s s'] unfolding directive_def data_step_def
  by (auto simp: raise_py_Inr dest: align_text_mono split: if_splits)

lemma directive_total:
  assumes "text_addr s mod 4 = 0"
  shows "directive ln d c s \<noteq> None"
proof -
  have "align_text (2 ^ k) (text_addr s) \<noteq> None" for k
  proof -
    have "(2::int) ^ min k 2 dvd 2 ^ 2" by (rule le_imp_power_dvd) simp
    then have "(2::int) ^ min k 2 dvd text_addr s" using assms by (auto intro: dvd_trans)
    then show ?thesis by (simp add: align_text_exact)
  qed
  then have "raise_py (py_bind (py_int c) py_shift1)
      (\<lambda>b. map_option (\<lambda>a. Inr (s\<lparr>text_addr := a\<rparr>)) (align_text b (text_addr s))) \<noteq> None"
    by (intro raise_py_not_None) (auto simp: py_shift1_Inr)
  then show ?thesis using data_directive_total by (simp add: directive_def)
qed

lemma instruction_cursors:
  "text_addr s mod 4 = 0 \<Longrightarrow> text_addr s \<le> text_addr (instruction raw m a s) \<and>
    text_addr (instruction raw m a s) mod 4 = 0 \<and> data_addr (instruction raw m a s) = data_addr s"
  by (simp add: instruction_def)

lemma add_label_cursors [simp]:
  "text_addr (add_label l s) = text_addr s" "data_addr (add_label l s) = data_addr s"
  "cur_section (add_label l s) = cur_section s"
  by (simp_all add: add_label_def)

lemma process_parsed_cursors:
  assumes "process_parsed ln raw p s = Some (Inr s')" "text_addr s mod 4 = 0"
  shows "text_addr s \<le> text_addr s' \<and> text_addr s' mod 4 = 0 \<and> data_addr s \<le> data_addr s'"
  using assms directive_cursors instruction_cursors
  by (auto simp: process_parsed_def split: parsed.splits)

lemma process_parsed_total: "text_addr s mod 4 = 0 \<Longrightarrow> process_parsed ln raw p s \<noteq> None"
  using directive_total by (simp add: process_parsed_def split: parsed.splits)

lemma process_line_cursors:
  assumes "process_line ln raw s = Some (Inr s')" "text_addr s mod 4 = 0"
  shows "text_addr s \<le> text_addr s' \<and> text_addr s' mod 4 = 0 \<and> data_addr s \<le> data_addr s'"
  using assms process_parsed_cursors[of ln raw _ "add_label _ s" s'] process_parsed_cursors[of ln raw _ s s']
  by (auto simp: process_line_def split: option.splits parsed.splits)

lemma process_line_total: "text_addr s mod 4 = 0 \<Longrightarrow> process_line ln raw s \<noteq> None"
  using process_parsed_total[of "add_label _ s"] process_parsed_total[of s]
  by (auto simp: process_line_def split: option.splits parsed.splits)


subsection \<open>The cursor invariant and termination\<close>

lemma p1_reach_inv: "p1_reach s \<Longrightarrow> p1_inv s"
proof (induction rule: p1_reach.induct)
  case p1_start
  then show ?case by (simp add: p1_inv_def p1_init_def TEXT_BASE_def)
next
  case (p1_step s n l s')
  then show ?case using process_line_cursors[of n l s s'] by (auto simp: p1_inv_def)
qed

lemma pass1_from_total: "p1_reach s \<Longrightarrow> pass1_from n ls s \<noteq> None"
proof (induction ls arbitrary: n s)
  case (Cons l ls)
  then have "process_line n l s \<noteq> None"
    using p1_reach_inv process_line_total by (auto simp: p1_inv_def)
  then obtain r where r: "process_line n l s = Some r" by blast
  show ?case
  proof (cases r)
    case (Inr s')
    then have "p1_reach s'" using Cons.prems r by (blast intro: p1_step)
    then show ?thesis using Cons.IH r Inr by simp
  qed (simp add: r)
qed simp

lemma py_shift1_nonneg: "0 \<le> n \<Longrightarrow> py_shift1 n = Inr (2 ^ nat n)"
  by (simp add: py_shift1_def push_bit_eq_mult)

lemma unicode_escape_plain: "list_all (\<lambda>c. c \<noteq> CHR 0x5C) g \<Longrightarrow> unicode_escape g = Inr (map of_char g)"
  by (induction g rule: unicode_escape.induct) (simp_all add: py_cons_def)

lemma utf8_encode_ascii: "list_all (\<lambda>c. of_char c < (128::nat)) g \<Longrightarrow>
    utf8_encode (map of_char g) = Inr (map (\<lambda>c. int (of_char c)) g)"
  by (induction g) (simp_all add: utf8_char_def)

lemma str_literal_quoted:
  "list_all (\<lambda>c. c \<noteq> CHR 0x22 \<and> c \<noteq> CHR 0x0A) g \<Longrightarrow> str_literal (CHR 0x22 # g @ [CHR 0x22]) = Some g"
proof -
  assume g: "list_all (\<lambda>c. c \<noteq> CHR 0x22 \<and> c \<noteq> CHR 0x0A) g"
  then have "takeWhile (\<lambda>c. c \<noteq> CHR 0x0A) (g @ [CHR 0x22]) = g @ [CHR 0x22]"
    by (simp add: list_all_iff takeWhile_append2)
  then show ?thesis by (simp add: str_literal_def group_before_last_def)
qed

lemma emit_append: "emit mk w (xs @ ys) s = emit mk w ys (emit mk w xs s)"
  by (induction xs arbitrary: s) simp_all

lemma directive_frame:
  assumes "directive ln d c s = Some (Inr s')"
  shows "symtab s' = symtab s \<and> (\<exists>xs. items s' = items s @ xs)"
  using assms data_directive_step[of ln d c s s']
  by (auto simp: directive_def raise_py_Inr data_step_def split: if_splits)

lemma process_parsed_frame:
  assumes "process_parsed ln raw p s = Some (Inr s')"
  shows "symtab s' = symtab s \<and> (\<exists>xs. items s' = items s @ xs)"
  using assms directive_frame by (auto simp: process_parsed_def instruction_def split: parsed.splits)


subsection \<open>Every item lies within the range of its section\<close>

lemma items_in_extend:
  assumes "items_in s" "items s' = items s @ xs" "data_addr s \<le> data_addr s'" "text_addr s \<le> text_addr s'"
    "list_all (\<lambda>x. data_in DATA_BASE (data_addr s') x \<or> text_in TEXT_BASE (text_addr s') x) xs"
  shows "items_in s'"
  using assms by (auto simp: items_in_def list_all_iff intro: data_in_mono text_in_mono)

lemma items_in_data_step:
  assumes "items_in s" "data_step s s'" "DATA_BASE \<le> data_addr s"
  shows "items_in s'"
proof -
  from assms(2) obtain xs where xs: "items s' = items s @ xs" "list_all (data_in (data_addr s) (data_addr s')) xs"
    "data_addr s \<le> data_addr s'" "text_addr s' = text_addr s"
    by (auto simp: data_step_def)
  have "list_all (data_in DATA_BASE (data_addr s')) xs"
    using list_all_data_in_mono[OF xs(2) assms(3) order_refl] .
  then have "list_all (\<lambda>x. data_in DATA_BASE (data_addr s') x \<or> text_in TEXT_BASE (text_addr s') x) xs"
    by (simp add: list_all_iff)
  then show ?thesis using items_in_extend[OF assms(1) xs(1) xs(3)] xs(4) by simp
qed

lemma items_in_update [simp]:
  "items_in (s\<lparr>cur_section := c\<rparr>) = items_in s"
  by (simp add: items_in_def)

lemma directive_items_in:
  assumes "directive ln d c s = Some (Inr s')" "items_in s" "text_addr s mod 4 = 0" "DATA_BASE \<le> data_addr s"
  shows "items_in s'"
proof -
  consider (sw) "d = ''.text'' \<or> d = ''.data''"
    | (al) "d \<noteq> ''.text''" "d \<noteq> ''.data''" "cur_section s = SecText" "d = ''.align''"
    | (ig) "d \<noteq> ''.text''" "d \<noteq> ''.data''" "cur_section s = SecText" "d \<noteq> ''.align''"
    | (dat) "d \<noteq> ''.text''" "d \<noteq> ''.data''" "cur_section s = SecData"
    using sect.exhaust by blast
  then show ?thesis
  proof cases
    case sw
    then show ?thesis using assms(1,2) by (auto simp: directive_def)
  next
    case al
    with assms(1) obtain b a where "align_text b (text_addr s) = Some a" "s' = s\<lparr>text_addr := a\<rparr>"
      by (auto simp: directive_def raise_py_Inr)
    moreover have "text_addr s \<le> a" using align_text_mono[OF calculation(1) assms(3)] by simp
    ultimately show ?thesis using items_in_extend[OF assms(2), where xs = "[]"] by simp
  next
    case ig
    then show ?thesis using assms(1,2) by (simp add: directive_def)
  next
    case dat
    then have "data_step s s'" using assms(1) by (simp add: directive_def data_directive_step)
    then show ?thesis using items_in_data_step[OF assms(2) _ assms(4)] by blast
  qed
qed
lemma instruction_items_in:
  assumes "items_in s" "TEXT_BASE \<le> text_addr s" "text_addr s mod 4 = 0"
  shows "items_in (instruction raw m a s)"
proof -
  have "text_in TEXT_BASE (text_addr s + 4) (ItTextInstr (text_addr s) m a (py_strip raw))"
    using assms(2,3) by simp
  then show ?thesis using assms(1)
    by (auto simp: instruction_def intro: items_in_extend)
qed

lemma add_label_items_in: "items_in s \<Longrightarrow> items_in (add_label l s)"
  by (simp add: add_label_def items_in_def)

lemma process_parsed_items_in:
  assumes "process_parsed ln raw p s = Some (Inr s')" "items_in s" "p1_inv s"
  shows "items_in s'"
  using assms directive_items_in[of ln _ _ s s'] instruction_items_in[of s]
  by (auto simp: process_parsed_def p1_inv_def split: parsed.splits)

lemma process_line_items_in:
  assumes "process_line ln raw s = Some (Inr s')" "items_in s" "p1_inv s"
  shows "items_in s'"
proof -
  have "p1_inv (add_label l s)" for l using assms(3) by (simp add: p1_inv_def)
  then show ?thesis using assms add_label_items_in[OF assms(2)] process_parsed_items_in
    by (auto simp: process_line_def split: option.splits parsed.splits)
qed

lemma p1_reach_items_in: "p1_reach s \<Longrightarrow> items_in s"
proof (induction rule: p1_reach.induct)
  case p1_start
  then show ?case by (simp add: items_in_def p1_init_def)
next
  case (p1_step s n l s')
  then show ?case using process_line_items_in p1_reach_inv by blast
qed

lemma pass1_from_reach: "p1_reach s \<Longrightarrow> pass1_from n ls s = Some (Inr s') \<Longrightarrow> p1_reach s'"
proof (induction ls arbitrary: n s)
  case (Cons l ls)
  then obtain t where "process_line n l s = Some (Inr t)" "pass1_from (Suc n) ls t = Some (Inr s')"
    by (auto split: option.splits sum.splits)
  then show ?case using Cons by (blast intro: p1_step)
qed simp

subsection \<open>Properties of the first pass\<close>

text \<open>C8: every state the first pass reaches from the initial state keeps the text cursor a multiple of 4 at or above TEXT_BASE and the data cursor at or above DATA_BASE, and a further line moves neither cursor backwards.\<close>

theorem p1_invariant:
  assumes "p1_reach s"
  shows "p1_inv s \<and> (\<forall>n l s'. process_line n l s = Some (Inr s') \<longrightarrow>
    text_addr s \<le> text_addr s' \<and> data_addr s \<le> data_addr s')"
  using p1_reach_inv[OF assms] process_line_cursors by (auto simp: p1_inv_def)

lemma p1_invariant_witness: "p1_reach p1_init \<and> p1_inv p1_init"
  using p1_invariant[OF p1_start] p1_start by simp

text \<open>C9: the first pass ends on every input: neither .align loop runs for ever, because the text cursor stays word-aligned.\<close>

theorem pass1_terminates: "pass1 lines \<noteq> None"
  unfolding pass1_def by (rule pass1_from_total) (rule p1_start)

text \<open>C24: .align n in the text section moves the text cursor a to a + (-a) mod 2^n when 2^min(n,2) divides a, and loops for ever otherwise (the cursor only advances in steps of 4).\<close>

theorem text_align_directive:
  assumes "py_int carg = Inr n" "0 \<le> n" "cur_section s = SecText"
  shows "directive ln ''.align'' carg s =
    (if 2 ^ min (nat n) 2 dvd text_addr s then Some (Inr (s\<lparr>text_addr := text_addr s + (- text_addr s) mod 2 ^ nat n\<rparr>))
     else None)"
  using assms by (simp add: directive_def raise_py_def py_shift1_nonneg align_text_exact)

lemma text_align_directive_witness:
  "directive 1 ''.align'' ''3'' (p1_init\<lparr>text_addr := 0x400004\<rparr>) = Some (Inr (p1_init\<lparr>text_addr := 0x400008\<rparr>))"
proof -
  have "py_int ''3'' = Inr 3" by code_simp
  then show ?thesis using text_align_directive[of "''3''" 3 "p1_init\<lparr>text_addr := 0x400004\<rparr>" 1]
    by (simp add: p1_init_def)
qed

text \<open>C25: .align n in the data section pads the data cursor a with (-a) mod 2^n zero bytes at consecutive addresses, reaching the next multiple of 2^n.\<close>

theorem data_align_directive:
  assumes "py_int carg = Inr n" "0 \<le> n" "cur_section s = SecData"
  shows "directive ln ''.align'' carg s = Some (Inr (s\<lparr>items := items s @
      map (\<lambda>i. ItDataByte (data_addr s + int i) 0) [0..<nat ((- data_addr s) mod 2 ^ nat n)],
      data_addr := data_addr s + (- data_addr s) mod 2 ^ nat n\<rparr>))"
  using assms by (simp add: directive_def data_directive_def raise_py_def py_shift1_nonneg align_data_closed)

lemma data_align_directive_witness:
  "directive 1 ''.align'' ''2'' (p1_init\<lparr>cur_section := SecData, data_addr := 0x10010001\<rparr>) =
   Some (Inr (p1_init\<lparr>cur_section := SecData, data_addr := 0x10010004,
     items := [ItDataByte 0x10010001 0, ItDataByte 0x10010002 0, ItDataByte 0x10010003 0]\<rparr>))"
proof -
  have "py_int ''2'' = Inr 2" by code_simp
  moreover have "[0..<3] = [0, 1, (2::nat)]" by code_simp
  ultimately show ?thesis
    using data_align_directive[of "''2''" 2 "p1_init\<lparr>cur_section := SecData, data_addr := 0x10010001\<rparr>" 1]
    by (simp add: p1_init_def)
qed

text \<open>.word v1, ..., vk in the data section emits one word item per value at consecutive multiples of 4 from the data cursor and advances the cursor by 4k.\<close>

theorem word_directive:
  assumes "py_map py_int (re_split_comma carg) = Inr vals" "cur_section s = SecData"
  shows "directive ln ''.word'' carg s = Some (Inr (s\<lparr>items := items s @
      map (\<lambda>i. ItDataWord (data_addr s + 4 * int i) (vals ! i)) [0..<length vals],
      data_addr := data_addr s + 4 * int (length vals)\<rparr>))"
  using assms by (simp add: directive_def data_directive_def raise_py_def emit_closed)

lemma word_directive_witness:
  "directive 1 ''.word'' ''1, -2'' (p1_init\<lparr>cur_section := SecData\<rparr>) =
   Some (Inr (p1_init\<lparr>cur_section := SecData, data_addr := 0x10010008,
     items := [ItDataWord 0x10010000 1, ItDataWord 0x10010004 (-2)]\<rparr>))"
proof -
  have "py_map py_int (re_split_comma ''1, -2'') = Inr [1, -2]" by code_simp
  then show ?thesis using word_directive[of "''1, -2''" "[1, -2]" "p1_init\<lparr>cur_section := SecData\<rparr>" 1]
    by (simp add: p1_init_def DATA_BASE_def upt_rec)
qed

text \<open>.ascii of a quoted plain ASCII string emits its bytes at consecutive addresses without a terminator, .asciiz emits the same bytes followed by a zero byte.\<close>

theorem string_directives:
  assumes "plain_ascii g" "cur_section s = SecData"
  shows "directive ln ''.ascii'' (CHR 0x22 # g @ [CHR 0x22]) s =
      Some (Inr (emit ItDataByte 1 (map (\<lambda>c. int (of_char c)) g) s)) \<and>
    directive ln ''.asciiz'' (CHR 0x22 # g @ [CHR 0x22]) s =
      Some (Inr (emit ItDataByte 1 (map (\<lambda>c. int (of_char c)) g @ [0]) s))"
proof -
  have "str_literal (CHR 0x22 # g @ [CHR 0x22]) = Some g"
    using assms(1) by (intro str_literal_quoted) (simp add: plain_ascii_def list_all_iff)
  moreover have "py_bind (unicode_escape g) utf8_encode = Inr (map (\<lambda>c. int (of_char c)) g)"
    using assms(1) by (simp add: plain_ascii_def list_all_iff unicode_escape_plain utf8_encode_ascii)
  ultimately show ?thesis using assms(2)
    by (simp add: directive_def data_directive_def raise_py_def emit_append Let_def del: py_bind_eq_Inr)
qed

lemma string_directives_witness:
  "directive 1 ''.asciiz'' (CHR 0x22 # ''AB'' @ [CHR 0x22]) (p1_init\<lparr>cur_section := SecData\<rparr>) =
   Some (Inr (p1_init\<lparr>cur_section := SecData, data_addr := 0x10010003,
     items := [ItDataByte 0x10010000 0x41, ItDataByte 0x10010001 0x42, ItDataByte 0x10010002 0]\<rparr>))"
proof -
  have "plain_ascii ''AB''" by code_simp
  then show ?thesis using string_directives[of "''AB''" "p1_init\<lparr>cur_section := SecData\<rparr>" 1]
    by (simp add: p1_init_def DATA_BASE_def)
qed

text \<open>An instruction line in the text section is recorded at the text cursor, with its stripped source line, and advances the cursor by exactly 4, whatever the mnemonic: the pseudo-instruction la, which pass 2 expands to two words, also advances it by 4.\<close>

theorem instr_line_advance:
  assumes "parse_line raw = Some (PInstr mnem args)" "mnem \<notin> {''.text'', ''.data''}" "cur_section s = SecText"
  shows "process_line n raw s = Some (Inr (s\<lparr>items := items s @ [ItTextInstr (text_addr s) mnem args (py_strip raw)],
    text_addr := text_addr s + 4\<rparr>))"
  using assms by (simp add: process_line_def process_parsed_def instruction_def)

lemma instr_line_advance_witness:
  "process_line 1 ''la a1, v'' p1_init =
   Some (Inr (p1_init\<lparr>items := [ItTextInstr 0x400000 ''la'' [''a1'', ''v''] ''la a1, v''], text_addr := 0x400004\<rparr>))"
proof -
  have "parse_line ''la a1, v'' = Some (PInstr ''la'' [''a1'', ''v''])" "py_strip ''la a1, v'' = ''la a1, v''"
    by code_simp+
  then show ?thesis using instr_line_advance[of "''la a1, v''" "''la''" "[''a1'', ''v'']" p1_init 1]
    by (simp add: p1_init_def TEXT_BASE_def)
qed

text \<open>In the text section every directive other than .text, .data and .align leaves the state unchanged: .word, .byte, .space and the others are silently dropped.\<close>

theorem text_directive_ignored:
  assumes "parse_line raw = Some (PDirective d c)" "d \<notin> {''.text'', ''.data'', ''.align''}" "cur_section s = SecText"
  shows "process_line n raw s = Some (Inr s)"
  using assms by (simp add: process_line_def process_parsed_def directive_def)

lemma text_directive_ignored_witness: "process_line 1 ''.word 7'' p1_init = Some (Inr p1_init)"
proof -
  have "parse_line ''.word 7'' = Some (PDirective ''.word'' ''7'')" by code_simp
  then show ?thesis using text_directive_ignored[of "''.word 7''" "''.word''" "''7''" p1_init 1]
    by (simp add: p1_init_def)
qed

text \<open>A label line binds the label in the symbol table to the cursor of the current section and records a label item there, whatever the rest of the line does.\<close>

theorem label_binding:
  assumes "parse_line raw = Some (PLabel lbl) \<or> parse_line raw = Some (PLabelRest lbl rest)"
    "process_line n raw s = Some (Inr s')"
  shows "symtab s' lbl = Some (cur_addr s) \<and> ItLabel (cur_addr s) lbl \<in> set (items s')"
  using assms process_parsed_frame[of n raw _ "add_label lbl s" s']
  by (auto simp: process_line_def add_label_def split: option.splits) fastforce

lemma label_binding_witness:
  "\<exists>s'. process_line 1 ''main: addi a0, x0, 5'' p1_init = Some (Inr s') \<and> symtab s' ''main'' = Some 0x400000"
proof -
  have p: "parse_line ''main: addi a0, x0, 5'' = Some (PLabelRest ''main'' ''addi a0, x0, 5'')"
    "parse_line ''addi a0, x0, 5'' = Some (PInstr ''addi'' [''a0'', ''x0'', ''5''])" by code_simp+
  then obtain s' where s': "process_line 1 ''main: addi a0, x0, 5'' p1_init = Some (Inr s')"
    by (simp add: process_line_def process_parsed_def)
  then have "symtab s' ''main'' = Some (cur_addr p1_init)"
    using label_binding[of "''main: addi a0, x0, 5''" "''main''" "''addi a0, x0, 5''" 1 p1_init s'] p by simp
  then show ?thesis using s' by (simp add: cur_addr_def p1_init_def TEXT_BASE_def)
qed

end
