(* ===== verification/Pass2.thy ===== *)
theory Pass2
  imports Pass1 Instructions "HOL-Library.AList"
begin

text \<open>
  The second pass of \<open>assemble\<close> (\<open>aRVA.py\<close> lines 503--556) and the whole
  function.  The images \<open>text_bin\<close> and \<open>data_bin\<close> are \<open>OrderedDict\<close>s: an
  association list updated with \<open>AList.update\<close>, which replaces the value of a
  key in place and appends a new key at the end, as assignment to an
  \<open>OrderedDict\<close> does.  Data items become little-endian bytes; text items are
  encoded by the pseudo-instruction rule for \<open>la\<close> or by the handler of
  \<open>INSTR_MAP\<close>, whose exceptions are caught and re-raised as \<open>ValueError\<close>
  (\<open>InstrError\<close>).  The lemmas show what the two words of \<open>la\<close> add up to, that
  the word \<open>la\<close> writes at \<open>addr + 4\<close> is overwritten by the next instruction,
  the scenario of the specification, that \<open>assemble\<close> always returns, where each of
  its errors comes from, and that both images hold only addresses of their section
  (bytes in the data image, aligned words in the text image).
\<close>

unbundle bit_operations_syntax

type_synonym text_bin = "(addr \<times> int) list"
type_synonym data_bin = "(addr \<times> int) list"

subsection \<open>The data image (lines 505--518)\<close>

text \<open>\<open>[(val >> (8*i)) & 0xff for i in range(n)]\<close>.\<close>

definition le_bytes :: "nat \<Rightarrow> int \<Rightarrow> int list" where
  "le_bytes n val = map (\<lambda>i. drop_bit (8 * i) val AND 0xff) [0..<n]"

text \<open>\<open>for i, b in enumerate(bytes_): data_bin[addr+i] = b\<close>.\<close>

fun store_bytes :: "addr \<Rightarrow> int list \<Rightarrow> data_bin \<Rightarrow> data_bin" where
  "store_bytes addr [] db = db"
| "store_bytes addr (b # bs) db = store_bytes (addr + 1) bs (AList.update addr b db)"

definition write_data_item :: "item \<Rightarrow> data_bin \<Rightarrow> data_bin" where
  "write_data_item it db =
     (case it of
        ItDataWord addr val \<Rightarrow> store_bytes addr (le_bytes 4 val) db
      | ItDataHalf addr val \<Rightarrow> store_bytes addr (le_bytes 2 val) db
      | ItDataByte addr val \<Rightarrow> AList.update addr (val AND 0xff) db
      | _ \<Rightarrow> db)"

definition write_data :: "item list \<Rightarrow> data_bin" where
  "write_data its = fold write_data_item its []"

subsection \<open>The text image (lines 520--556)\<close>

text \<open>The pseudo-instruction \<open>la rd, sym\<close> (lines 526--538): \<open>auipc\<close> with the
  displacement rounded down to a page at \<open>addr\<close>, \<open>addi\<close> with the rest at
  \<open>addr + 4\<close>.  \<open>args[0]\<close> raises \<open>IndexError\<close> when there is no operand.\<close>

definition encode_la :: "addr \<Rightarrow> string list \<Rightarrow> symtab \<Rightarrow> text_bin \<Rightarrow> asm_error + text_bin" where
  "encode_la addr args stab tb =
     (case (if 1 < length args then Inr (args ! 1) else py_index args 0) of
        Inl e \<Rightarrow> Inl (PyError e)
      | Inr symb \<Rightarrow>
          (let rd = parse_reg (args ! 0) in
           case stab symb of
             None \<Rightarrow> Inl (SymbolNotFound symb addr)
           | Some target \<Rightarrow>
               (let imm_hi = (target - addr) AND NOT 0xfff;
                    auipc_word = formato_u imm_hi rd 0x17;
                    tb1 = AList.update addr auipc_word tb;
                    imm_lo = target - (addr + imm_hi);
                    addi_word = formato_i imm_lo rd 0x0 rd 0x13
                in Inr (AList.update (addr + 4) addi_word tb1))))"

text \<open>One text item (lines 521--555): \<open>la\<close>, a mnemonic of the table (any exception
  of the handler becomes \<open>InstrError\<close>, line 553) or an unknown mnemonic.\<close>

definition encode_instr ::
  "addr \<Rightarrow> string \<Rightarrow> string list \<Rightarrow> string \<Rightarrow> symtab \<Rightarrow> text_bin \<Rightarrow> asm_error + text_bin" where
  "encode_instr addr mnem args raw stab tb =
     (let mnem_lower = py_lower mnem in
      if mnem_lower = ''la'' then encode_la addr args stab tb
      else (case map_of INSTR_MAP mnem_lower of
              Some (typ, h) \<Rightarrow>
                (case run_handler typ h args addr stab of
                   Inl e \<Rightarrow> Inl (InstrError raw addr e)
                 | Inr word \<Rightarrow> Inr (AList.update addr word tb))
            | None \<Rightarrow> Inl (UnknownMnemonic mnem addr)))"

fun encode_text :: "symtab \<Rightarrow> item list \<Rightarrow> text_bin \<Rightarrow> asm_error + text_bin" where
  "encode_text stab [] tb = Inr tb"
| "encode_text stab (ItTextInstr addr mnem args raw # its) tb =
     (case encode_instr addr mnem args raw stab tb of
        Inl e \<Rightarrow> Inl e
      | Inr tb' \<Rightarrow> encode_text stab its tb')"
| "encode_text stab (_ # its) tb = encode_text stab its tb"

subsection \<open>The assembler (lines 399--556)\<close>

definition assemble :: "string list \<Rightarrow> (text_bin \<times> data_bin \<times> symtab) run" where
  "assemble lines =
     (case pass1 lines of
        None \<Rightarrow> None
      | Some (Inl e) \<Rightarrow> Some (Inl e)
      | Some (Inr s) \<Rightarrow>
          (let data_bin = write_data (items s) in
           case encode_text (symtab s) (items s) [] of
             Inl e \<Rightarrow> Some (Inl e)
           | Inr text_bin \<Rightarrow> Some (Inr (text_bin, data_bin, symtab s))))"

text \<open>The data image holds bytes at addresses in \<open>[lo, hi)\<close>.\<close>

definition byte_image :: "addr \<Rightarrow> addr \<Rightarrow> data_bin \<Rightarrow> bool" where
  "byte_image lo hi db \<longleftrightarrow> list_all (\<lambda>(a, b). lo \<le> a \<and> a < hi \<and> 0 \<le> b \<and> b < 256) db"

text \<open>The errors the second pass raises at a text item \<open>(a, m, args, raw)\<close>:
  \<open>la\<close> without operands (\<open>IndexError\<close>) or with an undefined symbol, an unknown
  mnemonic, or the exception of a handler wrapped with the source line.\<close>

definition text_error :: "symtab \<Rightarrow> string \<Rightarrow> string list \<Rightarrow> string \<Rightarrow> addr \<Rightarrow> asm_error \<Rightarrow> bool" where
  "text_error stab m args raw a e \<longleftrightarrow>
     (if py_lower m = ''la'' then (args = [] \<and> e = PyError IndexError) \<or>
        (\<exists>symb. stab symb = None \<and> e = SymbolNotFound symb a)
      else case map_of INSTR_MAP (py_lower m) of
        None \<Rightarrow> e = UnknownMnemonic m a
      | Some (typ, h) \<Rightarrow> (\<exists>e'. run_handler typ h args a stab = Inl e' \<and> e = InstrError raw a e'))"

text \<open>The text image holds words at word-aligned addresses in \<open>[TEXT_BASE, hi]\<close>.\<close>

definition text_keys_in :: "addr \<Rightarrow> text_bin \<Rightarrow> bool" where
  "text_keys_in hi tb \<longleftrightarrow> list_all (\<lambda>(a, w). TEXT_BASE \<le> a \<and> a mod 4 = 0 \<and> a \<le> hi) tb"

text \<open>The addresses the second pass writes for an item: a text instruction at its
  address, and \<open>la\<close> also at the next word.\<close>

fun item_slots :: "item \<Rightarrow> addr set" where
  "item_slots (ItTextInstr a m args raw) = (if py_lower m = ''la'' then {a, a + 4} else {a})"
| "item_slots _ = {}"

subsection \<open>Arithmetic of the two words of \<open>la\<close>\<close>

lemma and_not_fff: "x AND NOT (0xfff::int) = x - take_bit 12 x"
proof -
  have m: "(0xfff::int) = mask 12" by (simp add: mask_eq_exp_minus_1)
  have "x AND NOT (0xfff::int) = push_bit 12 (drop_bit 12 x)"
    unfolding m by (rule bit_eqI) (auto simp: bit_simps)
  then show ?thesis using bits_ident[of 12 x] by simp
qed

lemma signed_take_bit_11: "signed_take_bit 11 (x::int) = take_bit 12 x - (if bit x 11 then 4096 else 0)"
  by (simp add: signed_take_bit_eq_take_bit_minus)

lemma take_bit_sub_low: "take_bit n (x - take_bit n x) = (0::int)"
proof -
  have "take_bit n (x - take_bit n x) = take_bit n (take_bit n x - take_bit n (take_bit n x))"
    by (simp only: take_bit_diff)
  then show ?thesis by simp
qed

lemma la_words_sum:
  assumes "- (2 ^ 31) \<le> off" "off < (2::int) ^ 31"
  shows "signed_take_bit 31 ((off AND NOT 0xfff) AND NOT 0xfff) + signed_take_bit 11 (off - (off AND NOT 0xfff)) =
    off - (if bit off 11 then 4096 else 0)"
proof -
  have t: "0 \<le> take_bit 12 off" "take_bit 12 off < 4096"
    using take_bit_int_less_exp[of 12 off] by simp_all
  have d: "off - take_bit 12 off = 4096 * (off div 4096)"
    using div_mult_mod_eq[of off 4096] unfolding take_bit_eq_mod by (simp add: algebra_simps)
  have "(- 2147483648) div 4096 \<le> off div (4096::int)"
    using assms(1) by (intro zdiv_mono1) simp_all
  then have "- (2 ^ 31) \<le> off - take_bit 12 off" by (simp add: d)
  then have "signed_take_bit 31 (off - take_bit 12 off) = off - take_bit 12 off"
    using assms t by (intro signed_take_bit_int_eq_self) linarith+
  then show ?thesis
    unfolding and_not_fff by (simp add: take_bit_sub_low signed_take_bit_11 bit_take_bit_iff)
qed

lemma encode_la_Inr:
  assumes "1 < length args" "stab (args ! 1) = Some t"
  shows "encode_la addr args stab tb =
    Inr (AList.update (addr + 4)
           (formato_i (t - (addr + ((t - addr) AND NOT 0xfff))) (parse_reg (args ! 0)) 0 (parse_reg (args ! 0)) 0x13)
           (AList.update addr (formato_u ((t - addr) AND NOT 0xfff) (parse_reg (args ! 0)) 0x17) tb))"
  using assms by (simp add: encode_la_def Let_def)


lemma la_not_in_table: "map_of INSTR_MAP ''la'' = None"
  by (simp add: INSTR_MAP_def)

lemma map_result_Inr:
  assumes "map_option (map_sum id (\<lambda>(t, d, st). (t, d, st k))) r = Some (Inr (t, d, v))"
  shows "\<exists>st. r = Some (Inr (t, d, st)) \<and> st k = v"
proof (cases r)
  case (Some z)
  then show ?thesis using assms by (cases z) auto
qed (use assms in simp)


subsection \<open>The data image and the errors of the second pass\<close>

lemma in_set_update: "x \<in> set (AList.update k v al) \<Longrightarrow> x = (k, v) \<or> x \<in> set al"
  by (induction al) (auto split: if_splits)

lemma byte_image_update:
  "byte_image lo hi db \<Longrightarrow> lo \<le> k \<Longrightarrow> k < hi \<Longrightarrow> 0 \<le> v \<Longrightarrow> v < 256 \<Longrightarrow> byte_image lo hi (AList.update k v db)"
  by (auto simp: byte_image_def list_all_iff dest!: in_set_update)

lemma and_ff_take_bit: "x AND (0xff::int) = take_bit 8 x"
  by (simp add: take_bit_eq_mask mask_eq_exp_minus_1)

lemma and_ff_byte: "0 \<le> x AND (0xff::int)" "x AND (0xff::int) < 256"
  unfolding and_ff_take_bit using take_bit_int_less_exp[of 8 x] by simp_all

lemma le_bytes_Suc: "le_bytes (Suc n) v = (v AND 0xff) # le_bytes n (drop_bit 8 v)"
  by (simp add: le_bytes_def map_upt_Suc drop_bit_drop_bit algebra_simps del: upt_Suc)

lemma length_le_bytes [simp]: "length (le_bytes n v) = n"
  by (simp add: le_bytes_def)

lemma le_bytes_bytes: "list_all (\<lambda>b. 0 \<le> b \<and> b < 256) (le_bytes n v)"
  by (simp add: le_bytes_def list_all_iff and_ff_byte)

lemma byte_image_store:
  "byte_image lo hi db \<Longrightarrow> lo \<le> a \<Longrightarrow> a + int (length bs) \<le> hi \<Longrightarrow> list_all (\<lambda>b. 0 \<le> b \<and> b < 256) bs \<Longrightarrow>
   byte_image lo hi (store_bytes a bs db)"
  by (induction bs arbitrary: a db) (simp_all add: byte_image_update)

lemma byte_image_item:
  assumes "byte_image lo hi db" "data_in lo hi it \<or> text_in lo' hi' it"
  shows "byte_image lo hi (write_data_item it db)"
  using assms by (cases it) (auto simp: write_data_item_def le_bytes_bytes and_ff_byte intro!: byte_image_store byte_image_update)

lemma byte_image_fold:
  "byte_image lo hi db \<Longrightarrow> list_all (\<lambda>x. data_in lo hi x \<or> text_in lo' hi' x) its \<Longrightarrow>
   byte_image lo hi (fold write_data_item its db)"
proof (induction its arbitrary: db)
  case (Cons it its)
  have "byte_image lo hi (write_data_item it db)"
    using Cons.prems by (intro byte_image_item[where lo' = lo' and hi' = hi']) simp_all
  then show ?case using Cons.IH Cons.prems(2) by simp
qed simp

lemma assemble_Inr:
  assumes "assemble lines = Some (Inr (tb, db, st))"
  shows "\<exists>s. pass1 lines = Some (Inr s) \<and> encode_text (symtab s) (items s) [] = Inr tb \<and>
    db = write_data (items s) \<and> st = symtab s"
  using assms by (auto simp: assemble_def Let_def split: option.splits sum.splits)

lemma pass1_reach: "pass1 lines = Some (Inr s) \<Longrightarrow> p1_reach s"
  unfolding pass1_def by (rule pass1_from_reach[OF p1_start])

lemma pass1_byte_image:
  assumes "pass1 lines = Some (Inr s)"
  shows "byte_image DATA_BASE (data_addr s) (write_data (items s))"
proof -
  have "items_in s" using assms pass1_reach p1_reach_items_in by blast
  then have "byte_image DATA_BASE (data_addr s) (fold write_data_item (items s) [])"
    by (intro byte_image_fold) (simp_all add: byte_image_def items_in_def)
  then show ?thesis by (simp add: write_data_def)
qed

lemma le_bytes_value: "foldr (\<lambda>b acc. b + 256 * acc) (le_bytes n v) 0 = take_bit (8 * n) v"
proof (induction n arbitrary: v)
  case (Suc n)
  have "take_bit (8 * Suc n) v = take_bit 8 v + 2 ^ 8 * take_bit (8 * n) (drop_bit 8 v)"
    by (simp add: take_bit_eq_mod drop_bit_eq_div power_add zmod_zmult2_eq algebra_simps)
  then show ?case by (simp add: le_bytes_Suc Suc and_ff_take_bit)
qed (simp add: le_bytes_def)


lemma store_bytes_below: "k < a \<Longrightarrow> map_of (store_bytes a bs db) k = map_of db k"
  by (induction bs arbitrary: a db) (simp_all add: update_conv')

lemma store_bytes_at: "i < length bs \<Longrightarrow> map_of (store_bytes a bs db) (a + int i) = Some (bs ! i)"
proof (induction bs arbitrary: a db i)
  case (Cons b bs)
  show ?case
  proof (cases i)
    case 0
    then show ?thesis by (simp add: store_bytes_below update_conv')
  next
    case (Suc j)
    then have "a + int i = (a + 1) + int j" by simp
    then show ?thesis using Cons.IH[of j "a + 1"] Cons.prems Suc by (simp only:) simp
  qed
qed simp

lemma encode_la_Inl: "encode_la a args stab tb = Inl e \<Longrightarrow>
    (args = [] \<and> e = PyError IndexError) \<or> (\<exists>symb. stab symb = None \<and> e = SymbolNotFound symb a)"
  by (auto simp: encode_la_def py_index_def Let_def split: if_splits option.splits)

lemma encode_instr_Inl:
  assumes "encode_instr a m args raw stab tb = Inl e"
  shows "text_error stab m args raw a e"
proof (cases "py_lower m = ''la''")
  case True
  then show ?thesis using assms encode_la_Inl[of a args stab tb e] by (simp add: encode_instr_def text_error_def)
next
  case False
  then show ?thesis using assms
    by (auto simp: encode_instr_def text_error_def split: option.splits sum.splits)
qed

lemma text_keys_in_update:
  "text_keys_in hi tb \<Longrightarrow> TEXT_BASE \<le> a \<Longrightarrow> a mod 4 = 0 \<Longrightarrow> a \<le> hi \<Longrightarrow> text_keys_in hi (AList.update a w tb)"
  by (auto simp: text_keys_in_def list_all_iff dest!: in_set_update)

lemma encode_instr_keys:
  assumes "encode_instr a m args raw stab tb = Inr tb'" "text_keys_in hi tb"
    "TEXT_BASE \<le> a" "a mod 4 = 0" "a + 4 \<le> hi"
  shows "text_keys_in hi tb'"
proof (cases "py_lower m = ''la''")
  case True
  then have "encode_la a args stab tb = Inr tb'" using assms(1) by (simp add: encode_instr_def)
  then obtain t where "tb' = AList.update (a + 4) (formato_i (t - (a + ((t - a) AND NOT 0xfff))) (parse_reg (args ! 0)) 0 (parse_reg (args ! 0)) 0x13)
           (AList.update a (formato_u ((t - a) AND NOT 0xfff) (parse_reg (args ! 0)) 0x17) tb)"
    by (auto simp: encode_la_def py_index_def Let_def split: if_splits option.splits)
  then show ?thesis using assms(2-5) by (simp add: text_keys_in_update)
next
  case False
  then show ?thesis using assms
    by (auto simp: encode_instr_def text_keys_in_update split: option.splits sum.splits)
qed

lemma encode_text_keys:
  "encode_text stab its tb = Inr tb' \<Longrightarrow> text_keys_in hi tb \<Longrightarrow>
   list_all (\<lambda>x. data_in lo dhi x \<or> text_in TEXT_BASE hi x) its \<Longrightarrow> text_keys_in hi tb'"
proof (induction stab its tb rule: encode_text.induct)
  case (2 stab addr mnem args raw its tb)
  then obtain tb1 where e: "encode_instr addr mnem args raw stab tb = Inr tb1" "encode_text stab its tb1 = Inr tb'"
    by (auto split: sum.splits)
  have p: "TEXT_BASE \<le> addr" "addr mod 4 = 0" "addr + 4 \<le> hi"
    and r: "list_all (\<lambda>x. data_in lo dhi x \<or> text_in TEXT_BASE hi x) its" using "2.prems"(3) by simp_all
  have "text_keys_in hi tb1" using encode_instr_keys[OF e(1) "2.prems"(2) p] .
  then show ?case using "2.IH"[OF e(1) e(2) _ r] by blast
qed simp_all

lemma keys_update: "fst ` set (AList.update k v al) = insert k (fst ` set al)"
  by (induction al) auto

lemma encode_instr_slots:
  assumes "encode_instr a m args raw stab tb = Inr tb'"
  shows "fst ` set tb' = fst ` set tb \<union> item_slots (ItTextInstr a m args raw)"
proof (cases "py_lower m = ''la''")
  case True
  then have "encode_la a args stab tb = Inr tb'" using assms by (simp add: encode_instr_def)
  then obtain w1 w2 where "tb' = AList.update (a + 4) w2 (AList.update a w1 tb)"
    by (auto simp: encode_la_def py_index_def Let_def split: if_splits option.splits)
  then show ?thesis using True by (auto simp: keys_update)
next
  case False
  then obtain w where "tb' = AList.update a w tb" using assms
    by (auto simp: encode_instr_def split: option.splits sum.splits)
  then show ?thesis using False by (simp add: keys_update)
qed

lemma encode_text_slots:
  "encode_text stab its tb = Inr tb' \<Longrightarrow> fst ` set tb' = fst ` set tb \<union> (\<Union>x\<in>set its. item_slots x)"
proof (induction stab its tb rule: encode_text.induct)
  case (2 stab addr mnem args raw its tb)
  then obtain tb1 where e: "encode_instr addr mnem args raw stab tb = Inr tb1" "encode_text stab its tb1 = Inr tb'"
    by (auto split: sum.splits)
  show ?case using "2.IH"[OF e(1) e(2)] encode_instr_slots[OF e(1)] by auto
qed simp_all

subsection \<open>Properties of the second pass\<close>

text \<open>C2: la rd, sym writes auipc rd at addr and addi rd, rd at addr + 4; their immediates add up to the displacement sym - addr only when bit 11 of the displacement is clear, and to 4096 less otherwise: the high part is rounded down instead of to the nearest page.\<close>

theorem la_expansion:
  assumes "1 < length args" "stab (args ! 1) = Some t" "0 \<le> parse_reg (args ! 0)"
    "- (2 ^ 31) \<le> t - addr" "t - addr < 2 ^ 31"
  shows "\<exists>tb' w1 w2. encode_la addr args stab tb = Inr tb' \<and>
    map_of tb' addr = Some w1 \<and> map_of tb' (addr + 4) = Some w2 \<and>
    opcode_of w1 = 0x17 \<and> opcode_of w2 = 0x13 \<and> rd_of w1 = parse_reg (args ! 0) \<and>
    rd_of w2 = parse_reg (args ! 0) \<and> rs1_of w2 = parse_reg (args ! 0) \<and>
    imm_u w1 + imm_i w2 = (t - addr) - (if bit (t - addr) 11 then 4096 else 0)"
proof -
  define rd where "rd = parse_reg (args ! 0)"
  define hi where "hi = (t - addr) AND NOT 0xfff"
  have rd: "fits 5 rd" using assms(3) by (simp add: rd_def parse_reg_nonneg_fits)
  have lo: "t - (addr + hi) = (t - addr) - hi" by simp
  have s: "signed_take_bit 31 (hi AND NOT 0xfff) + signed_take_bit 11 ((t - addr) - hi) =
      (t - addr) - (if bit (t - addr) 11 then 4096 else 0)"
    using la_words_sum[OF assms(4,5)] unfolding hi_def .
  have u: "imm_u (formato_u hi rd 0x17) = signed_take_bit 31 (hi AND NOT 0xfff)"
    by (rule imm_u_formato_u[OF rd]) simp
  have i: "imm_i (formato_i ((t - addr) - hi) rd 0 rd 0x13) = signed_take_bit 11 ((t - addr) - hi)"
    by (rule imm_i_formato_i) (simp_all add: rd)
  have "imm_u (formato_u hi rd 0x17) + imm_i (formato_i (t - (addr + hi)) rd 0 rd 0x13) =
        (t - addr) - (if bit (t - addr) 11 then 4096 else 0)"
    unfolding lo u i s ..
  moreover have "opcode_of (formato_u hi rd 0x17) = 0x17 \<and> rd_of (formato_u hi rd 0x17) = rd"
    using fields_formato_u[OF rd, where op = "0x17" and imm = hi] by simp
  moreover have "opcode_of (formato_i (t - (addr + hi)) rd 0 rd 0x13) = 0x13 \<and>
      rd_of (formato_i (t - (addr + hi)) rd 0 rd 0x13) = rd \<and> rs1_of (formato_i (t - (addr + hi)) rd 0 rd 0x13) = rd"
    using fields_formato_i[of rd 0 rd "0x13" "t - (addr + hi)"] rd by simp
  ultimately show ?thesis
    using encode_la_Inr[where stab = stab and args = args and t = t and addr = addr and tb = tb, OF assms(1,2)] unfolding rd_def[symmetric] hi_def[symmetric]
    by (simp add: update_conv')
qed

lemma la_expansion_witness:
  "\<exists>tb' w1 w2. encode_la 0x400000 [''a0'', ''d''] [''d'' \<mapsto> 0x400800] [] = Inr tb' \<and>
    map_of tb' 0x400000 = Some w1 \<and> map_of tb' 0x400004 = Some w2 \<and>
    opcode_of w1 = 0x17 \<and> opcode_of w2 = 0x13 \<and> rd_of w1 = 10 \<and> rd_of w2 = 10 \<and> rs1_of w2 = 10 \<and>
    imm_u w1 + imm_i w2 = -2048"
proof -
  have r: "parse_reg ''a0'' = 10" by code_simp
  have b: "bit (0x800::int) 11" by simp
  show ?thesis
    using la_expansion[where args = "[''a0'', ''d'']" and stab = "[''d'' \<mapsto> 0x400800]" and t = "0x400800"
      and addr = "0x400000" and tb = "[]"] r b by simp
qed

text \<open>C23: the second word of la, written at addr + 4, is overwritten by the instruction that pass 1 placed at addr + 4, so a la followed by any instruction of the table leaves only the auipc word and that instruction.\<close>

theorem la_addi_overwritten:
  assumes "py_lower m1 = ''la''" "1 < length args" "stab (args ! 1) = Some t"
    "map_of INSTR_MAP (py_lower m2) = Some (typ, h)" "run_handler typ h args2 (a + 4) stab = Inr w"
  shows "\<exists>w1. encode_text stab [ItTextInstr a m1 args raw1, ItTextInstr (a + 4) m2 args2 raw2] [] =
    Inr [(a, w1), (a + 4, w)]"
proof -
  have "py_lower m2 \<noteq> ''la''" using assms(4) la_not_in_table by auto
  then show ?thesis using assms
    by (simp add: encode_instr_def encode_la_Inr[where stab = stab and args = args and t = t, OF assms(2,3)])
qed

lemma la_addi_overwritten_witness:
  "\<exists>w1. encode_text [''d'' \<mapsto> 0x10010000]
     [ItTextInstr 0x400000 ''la'' [''a0'', ''d''] ''la a0, d'', ItTextInstr 0x400004 ''addi'' [''a1'', ''x0'', ''1''] ''addi a1, x0, 1''] [] =
   Inr [(0x400000, w1), (0x400004, 0x00100593)]"
proof -
  have "py_lower ''la'' = ''la''" "py_lower ''addi'' = ''addi''" by code_simp+
  moreover have "map_of INSTR_MAP ''addi'' = Some (FmtI, Plain addi_enc)" by (simp add: INSTR_MAP_def)
  moreover have "run_handler FmtI (Plain addi_enc) [''a1'', ''x0'', ''1''] (0x400000 + 4) [''d'' \<mapsto> 0x10010000] = Inr 0x00100593"
    unfolding run_handler_def addi_enc_def by simp code_simp
  ultimately show ?thesis
    using la_addi_overwritten[of "''la''" "[''a0'', ''d'']" "[''d'' \<mapsto> 0x10010000]" "0x10010000" "''addi''" FmtI
      "Plain addi_enc" "[''a1'', ''x0'', ''1'']" "0x400000" "0x00100593" "''la a0, d''" "''addi a1, x0, 1''"]
    by simp
qed

text \<open>C1: the scenario of the specification: main: addi a0, x0, 5 followed by beq a0, x0, main assembles to two words at TEXT_BASE and TEXT_BASE + 4, addi a0, x0, 5 and a branch back by 4 bytes, an empty data image and main bound to TEXT_BASE.\<close>

theorem spec_scenario:
  "\<exists>tb st. assemble [''main: addi a0, x0, 5'', ''beq a0, x0, main''] = Some (Inr (tb, [], st)) \<and>
     st ''main'' = Some TEXT_BASE \<and> map fst tb = [TEXT_BASE, TEXT_BASE + 4] \<and>
     opcode_of (snd (tb ! 0)) = 0x13 \<and> rd_of (snd (tb ! 0)) = 10 \<and> rs1_of (snd (tb ! 0)) = 0 \<and>
     imm_i (snd (tb ! 0)) = 5 \<and>
     opcode_of (snd (tb ! 1)) = 0x63 \<and> rs1_of (snd (tb ! 1)) = 10 \<and> rs2_of (snd (tb ! 1)) = 0 \<and>
     imm_b (snd (tb ! 1)) = -4"
proof -
  have a: "map_option (map_sum id (\<lambda>(t, d, st). (t, d, st ''main'')))
      (assemble [''main: addi a0, x0, 5'', ''beq a0, x0, main'']) =
    Some (Inr ([(4194304, 5244179), (4194308, 4261744355)], [], Some 4194304))"
    by code_simp
  then obtain st where "assemble [''main: addi a0, x0, 5'', ''beq a0, x0, main''] =
      Some (Inr ([(4194304, 5244179), (4194308, 4261744355)], [], st))" "st ''main'' = Some 4194304"
    using map_result_Inr[OF a] by blast
  moreover have "opcode_of 5244179 = 0x13 \<and> rd_of 5244179 = 10 \<and> rs1_of 5244179 = 0 \<and> imm_i 5244179 = 5 \<and>
      opcode_of 4261744355 = 0x63 \<and> rs1_of 4261744355 = 10 \<and> rs2_of 4261744355 = 0 \<and> imm_b 4261744355 = -4"
    by code_simp
  ultimately show ?thesis by (simp add: TEXT_BASE_def)
qed

text \<open>C6: every data image the assembler returns holds bytes (0 to 255) at addresses between DATA_BASE and the final data cursor of pass 1.\<close>

theorem data_image_bytes:
  assumes "assemble lines = Some (Inr (tb, db, st))"
  shows "\<exists>s. pass1 lines = Some (Inr s) \<and> db = write_data (items s) \<and> byte_image DATA_BASE (data_addr s) db"
proof -
  from assemble_Inr[OF assms] obtain s where s: "pass1 lines = Some (Inr s)" "db = write_data (items s)" by blast
  then show ?thesis using pass1_byte_image by blast
qed

lemma data_image_bytes_witness:
  "\<exists>tb db st. assemble [''.data'', ''.byte 300''] = Some (Inr (tb, db, st)) \<and>
    (\<exists>s. pass1 [''.data'', ''.byte 300''] = Some (Inr s) \<and> db = write_data (items s) \<and>
      byte_image DATA_BASE (data_addr s) db)"
proof -
  have a: "map_option (map_sum id (\<lambda>(t, d, st). (t, d, st ''x''))) (assemble [''.data'', ''.byte 300'']) =
    Some (Inr ([], [(0x10010000, 44)], None))"
    by code_simp
  obtain st where "assemble [''.data'', ''.byte 300''] = Some (Inr ([], [(0x10010000, 44)], st))"
    using map_result_Inr[OF a] by blast
  then show ?thesis using data_image_bytes by blast
qed

text \<open>C7: .word and .half write their value as 4 and 2 little-endian bytes at consecutive addresses, .byte writes the value masked to 8 bits; read back little-endian the bytes give the value reduced to 32 and 16 bits.\<close>

theorem data_items_little_endian:
  "map (\<lambda>i. map_of (write_data_item (ItDataWord a v) db) (a + int i)) [0..<4] = map Some (le_bytes 4 v) \<and>
   map (\<lambda>i. map_of (write_data_item (ItDataHalf a v) db) (a + int i)) [0..<2] = map Some (le_bytes 2 v) \<and>
   map_of (write_data_item (ItDataByte a v) db) a = Some (take_bit 8 v) \<and>
   foldr (\<lambda>b acc. b + 256 * acc) (le_bytes 4 v) 0 = take_bit 32 v \<and>
   foldr (\<lambda>b acc. b + 256 * acc) (le_bytes 2 v) 0 = take_bit 16 v"
proof -
  have "map (\<lambda>i. map_of (store_bytes a (le_bytes n v) db) (a + int i)) [0..<n] = map Some (le_bytes n v)" for n
    by (rule nth_equalityI) (simp_all add: store_bytes_at)
  then show ?thesis
    using le_bytes_value[of 4 v] le_bytes_value[of 2 v]
    by (simp add: write_data_item_def update_conv' and_ff_take_bit del: upt_Suc)
qed

text \<open>C10: every error of the second pass is raised at a text item: la without operands or with an undefined symbol, a mnemonic not in INSTR_MAP, or the exception of the item's handler, re-raised with the source line and address.\<close>

theorem pass2_errors:
  assumes "encode_text stab its tb = Inl e"
  shows "\<exists>a m args raw. ItTextInstr a m args raw \<in> set its \<and> text_error stab m args raw a e"
  using assms
proof (induction stab its tb rule: encode_text.induct)
  case (2 stab addr mnem args raw its tb)
  show ?case
  proof (cases "encode_instr addr mnem args raw stab tb")
    case (Inl e')
    then have "text_error stab mnem args raw addr e" using 2(2) encode_instr_Inl by simp
    then show ?thesis by auto
  next
    case (Inr tb')
    then have "encode_text stab its tb' = Inl e" using 2(2) by simp
    then obtain a m as r where "ItTextInstr a m as r \<in> set its" "text_error stab m as r a e"
      using 2(1)[OF Inr] by blast
    then show ?thesis by (intro exI[of _ a] exI[of _ m] exI[of _ as] exI[of _ r]) simp
  qed
qed simp_all

lemma pass2_errors_witness:
  "\<exists>a m args raw. ItTextInstr a m args raw \<in> set [ItLabel 0x400000 ''f'', ItTextInstr 0x400000 ''foo'' [] ''foo''] \<and>
     text_error Map.empty m args raw a (UnknownMnemonic ''foo'' 0x400000)"
proof -
  have "py_lower ''foo'' = ''foo''" by code_simp
  moreover have "map_of INSTR_MAP ''foo'' = None" by (simp add: INSTR_MAP_def)
  ultimately have "encode_text Map.empty [ItLabel 0x400000 ''f'', ItTextInstr 0x400000 ''foo'' [] ''foo''] [] =
      Inl (UnknownMnemonic ''foo'' 0x400000)"
    by (simp add: encode_instr_def)
  then show ?thesis by (rule pass2_errors)
qed

text \<open>The assembler returns on every input: pass 1 ends and pass 2 is structural recursion over the items, so the result is the two images and the symbol table or an error, never an endless loop.\<close>

theorem assemble_returns: "\<exists>r. assemble lines = Some r"
proof -
  have "pass1 lines \<noteq> None" unfolding pass1_def by (rule pass1_from_total[OF p1_start])
  then show ?thesis by (auto simp: assemble_def Let_def split: option.splits sum.splits)
qed
lemma item_slots_top:
  assumes "x \<in> set its" "list_all (\<lambda>x. data_in lo dhi x \<or> text_in tlo hi x) its" "hi \<in> item_slots x"
  shows "\<exists>m args raw. ItTextInstr (hi - 4) m args raw \<in> set its \<and> py_lower m = ''la''"
proof (cases x)
  case (ItTextInstr a m args raw)
  then have "a + 4 \<le> hi" using assms(1,2) by (auto simp: list_all_iff)
  then have "py_lower m = ''la'' \<and> hi = a + 4" using assms(3) ItTextInstr by (auto split: if_splits)
  then show ?thesis using assms(1) ItTextInstr by auto
qed (use assms(3) in auto)

text \<open>C26: the keys of the text image the assembler returns are exactly the addresses of the text items of pass 1, and for each \<open>la\<close> also the word after it; all of them are word-aligned and lie between TEXT_BASE and the final text cursor, which only the second word of a \<open>la\<close> ending the text can reach.\<close>

theorem text_image_keys:
  assumes "assemble lines = Some (Inr (tb, db, st))"
  shows "\<exists>s. pass1 lines = Some (Inr s) \<and> fst ` set tb = (\<Union>x\<in>set (items s). item_slots x) \<and>
    text_keys_in (text_addr s) tb \<and>
    (text_addr s \<in> fst ` set tb \<longrightarrow>
       (\<exists>m args raw. ItTextInstr (text_addr s - 4) m args raw \<in> set (items s) \<and> py_lower m = ''la''))"
proof -
  from assemble_Inr[OF assms] obtain s where s: "pass1 lines = Some (Inr s)"
    "encode_text (symtab s) (items s) [] = Inr tb" by blast
  have ii: "items_in s" using s(1) pass1_reach p1_reach_items_in by blast
  then have "text_keys_in (text_addr s) tb"
    using encode_text_keys[OF s(2), of "text_addr s" DATA_BASE "data_addr s"]
    by (simp add: items_in_def text_keys_in_def)
  moreover have k: "fst ` set tb = (\<Union>x\<in>set (items s). item_slots x)" using encode_text_slots[OF s(2)] by simp
  moreover have "text_addr s \<in> fst ` set tb \<longrightarrow>
       (\<exists>m args raw. ItTextInstr (text_addr s - 4) m args raw \<in> set (items s) \<and> py_lower m = ''la'')"
    using k ii item_slots_top[of _ "items s" DATA_BASE "data_addr s" TEXT_BASE "text_addr s"]
    by (auto simp: items_in_def)
  ultimately show ?thesis using s(1) by blast
qed

lemma text_image_keys_witness:
  "\<exists>tb db st. assemble [''la a0, d'', ''.data'', ''d: .word 1''] = Some (Inr (tb, db, st)) \<and>
     map fst tb = [TEXT_BASE, TEXT_BASE + 4] \<and>
     (\<exists>s. pass1 [''la a0, d'', ''.data'', ''d: .word 1''] = Some (Inr s) \<and>
        (\<Union>x\<in>set (items s). item_slots x) = {TEXT_BASE, TEXT_BASE + 4} \<and> text_addr s = TEXT_BASE + 4)"
proof -
  have a: "map_option (map_sum id (\<lambda>(t, d, st). (t, d, st ''d''))) (assemble [''la a0, d'', ''.data'', ''d: .word 1'']) =
    Some (Inr ([(4194304, 264307991), (4194308, 328979)],
      [(268500992, 1), (268500993, 0), (268500994, 0), (268500995, 0)], Some 268500992))"
    by code_simp
  obtain st where st: "assemble [''la a0, d'', ''.data'', ''d: .word 1''] = Some (Inr ([(4194304, 264307991), (4194308, 328979)],
      [(268500992, 1), (268500993, 0), (268500994, 0), (268500995, 0)], st))"
    using map_result_Inr[OF a] by blast
  have p: "map_option (map_sum id text_addr) (pass1 [''la a0, d'', ''.data'', ''d: .word 1'']) = Some (Inr 4194308)"
    by code_simp
  obtain s where s: "pass1 [''la a0, d'', ''.data'', ''d: .word 1''] = Some (Inr s)"
    "fst ` set [(4194304::int, 264307991::int), (4194308, 328979)] = (\<Union>x\<in>set (items s). item_slots x)"
    using text_image_keys[OF st] by blast
  moreover have "text_addr s = 4194308" using p s(1) by simp
  ultimately show ?thesis using st by (auto simp: TEXT_BASE_def)
qed
end
