(* ===== verification/Serializer.thy ===== *)
theory Serializer
  imports Pass2
begin

text \<open>
  The output writer \<open>write_text_bin_file\<close> of \<open>aRVA.py\<close> (lines 562--588), with the
  files it writes as values: a list of (path, bytes written) in the order the files
  are opened, and the exception that stopped it, if any.  A file that an exception
  interrupts keeps the bytes written before it, as a file closed by \<open>with\<close> does.
  The listing (\<open>out_txt_path\<close>) has one line \<open>hex(addr): 32 binary digits\<close> per word
  of the text image in its order, then one line \<open>hex(addr): byte\<close> per data address in
  ascending order; the raw text stream packs each word with \<open>struct.pack('<I', w)\<close>;
  the raw data stream covers every address from the lowest to the highest key of
  the data image, with \<open>0\<close> where the image has no byte.
\<close>

unbundle bit_operations_syntax

subsection \<open>Python formatting\<close>

definition hex_char :: "nat \<Rightarrow> char" where
  "hex_char d = ''0123456789abcdef'' ! d"

fun hex_digits :: "nat \<Rightarrow> string" where
  "hex_digits n = (if n < 16 then [hex_char n] else hex_digits (n div 16) @ [hex_char (n mod 16)])"

declare hex_digits.simps [simp del]

text \<open>\<open>hex(n)\<close>.\<close>

definition py_hex :: "int \<Rightarrow> string" where
  "py_hex n = (if n < 0 then ''-0x'' @ hex_digits (nat (- n)) else ''0x'' @ hex_digits (nat n))"

text \<open>\<open>str(n)\<close> of an \<open>int\<close>, as an f-string prints it.\<close>

definition py_str_int :: "int \<Rightarrow> string" where
  "py_str_int n = (if n < 0 then ''-'' @ show_nat (nat (- n)) else show_nat (nat n))"

definition newline :: string where "newline = [CHR 0x0A]"

text \<open>\<open>struct.pack('<I', w)\<close>: four little-endian bytes of an unsigned 32-bit value.\<close>

definition pack_u32 :: "int \<Rightarrow> int list py" where
  "pack_u32 w = (if 0 \<le> w \<and> w < 2 ^ 32 then Inr (le_bytes 4 w) else Inl StructError)"

text \<open>\<open>bytes([b])\<close>.\<close>

definition py_byte :: "int \<Rightarrow> int list py" where
  "py_byte b = (if 0 \<le> b \<and> b < 256 then Inr [b] else Inl ValueError)"

subsection \<open>The three files (lines 562--588)\<close>

text \<open>The listing (lines 564--572).\<close>

definition text_listing :: "text_bin \<Rightarrow> data_bin \<Rightarrow> string" where
  "text_listing text_bin data_bin =
     ''# Text segment (addr: 32-bit binary)'' @ newline @
     concat (map (\<lambda>(addr, word). py_hex addr @ '': '' @ int_to_bin word 32 @ newline) text_bin) @
     newline @ ''# Data bytes (addr: byte)'' @ newline @
     concat (map (\<lambda>a. py_hex a @ '': '' @ py_str_int (the (map_of data_bin a)) @ newline)
       (sort (map fst data_bin)))"

text \<open>\<open>for addr, word in text_bin.items(): ft.write(struct.pack('<I', word))\<close>
  (lines 579--580): the bytes written, and the exception that stopped the loop.\<close>

fun raw_text :: "text_bin \<Rightarrow> int list \<times> py_exc option" where
  "raw_text [] = ([], None)"
| "raw_text ((addr, word) # ws) =
     (case pack_u32 word of
        Inl e \<Rightarrow> ([], Some e)
      | Inr bs \<Rightarrow> (let (rest, e) = raw_text ws in (bs @ rest, e)))"

text \<open>\<open>for a in range(min_a, max_a+1): fd.write(bytes([data_bin.get(a, 0)]))\<close>
  (lines 584--586).\<close>

fun raw_bytes :: "data_bin \<Rightarrow> int list \<Rightarrow> int list \<times> py_exc option" where
  "raw_bytes data_bin [] = ([], None)"
| "raw_bytes data_bin (a # as) =
     (case py_byte (case map_of data_bin a of None \<Rightarrow> 0 | Some b \<Rightarrow> b) of
        Inl e \<Rightarrow> ([], Some e)
      | Inr bs \<Rightarrow> (let (rest, e) = raw_bytes data_bin as in (bs @ rest, e)))"

text \<open>Lines 582--586: nothing for an empty image, else the range from the lowest to
  the highest key.\<close>

definition raw_data :: "data_bin \<Rightarrow> int list \<times> py_exc option" where
  "raw_data data_bin =
     (if data_bin = [] then ([], None)
      else (let ks = map fst data_bin; min_a = fold min ks (hd ks); max_a = fold max ks (hd ks)
            in raw_bytes data_bin [min_a..max_a]))"

definition write_text_bin_file ::
  "text_bin \<Rightarrow> data_bin \<Rightarrow> string \<Rightarrow> string option \<Rightarrow> (string \<times> int list) list \<times> py_exc option" where
  "write_text_bin_file text_bin data_bin out_txt_path raw_bin_path =
     (let listing = (out_txt_path, map of_char (text_listing text_bin data_bin)) in
      case raw_bin_path of
        None \<Rightarrow> ([listing], None)
      | Some p \<Rightarrow>
          (case raw_text text_bin of
             (tbytes, Some e) \<Rightarrow> ([listing, (p @ ''.text.raw'', tbytes)], Some e)
           | (tbytes, None) \<Rightarrow>
               (let (dbytes, e) = raw_data data_bin
                in ([listing, (p @ ''.text.raw'', tbytes), (p @ ''.data.raw'', dbytes)], e))))"

subsection \<open>Lemmas\<close>

lemma raw_bytes_ok:
  "(\<forall>a b. map_of db a = Some b \<longrightarrow> 0 \<le> b \<and> b < 256) \<Longrightarrow>
   raw_bytes db as = (map (\<lambda>a. case map_of db a of None \<Rightarrow> 0 | Some b \<Rightarrow> b) as, None)"
  by (induction as) (auto simp: py_byte_def split: option.splits)

lemma fold_min_hd: "ks \<noteq> [] \<Longrightarrow> fold min ks (hd ks) = Min (set ks)"
proof (cases ks)
  case (Cons x xs)
  then show ?thesis using Min.set_eq_fold[of x xs] by simp
qed simp

lemma fold_max_hd: "ks \<noteq> [] \<Longrightarrow> fold max ks (hd ks) = Max (set ks)"
proof (cases ks)
  case (Cons x xs)
  then show ?thesis using Max.set_eq_fold[of x xs] by simp
qed simp

lemma byte_image_map_of:
  "byte_image lo hi db \<Longrightarrow> map_of db a = Some b \<Longrightarrow> lo \<le> a \<and> 0 \<le> b \<and> b < 256"
  by (auto simp: byte_image_def list_all_iff dest!: map_of_SomeD)

lemma write_text_bin_file_raw_error:
  "snd (raw_text tb) = Some e \<Longrightarrow> snd (write_text_bin_file tb db out (Some p)) = Some e"
  by (cases "raw_text tb") (simp add: write_text_bin_file_def Let_def)

subsection \<open>Properties of the output writer\<close>

text \<open>C27: the raw data file of an assembled program never raises: it holds one byte for every address from the lowest to the highest address of the data image, the image's byte where there is one and 0 elsewhere, and it starts at or above DATA_BASE.\<close>

theorem raw_data_contiguous:
  assumes "assemble lines = Some (Inr (tb, db, st))" "db \<noteq> []"
  shows "raw_data db = (map (\<lambda>a. case map_of db a of None \<Rightarrow> 0 | Some b \<Rightarrow> b)
            [Min (fst ` set db)..Max (fst ` set db)], None) \<and> DATA_BASE \<le> Min (fst ` set db)"
proof -
  from assemble_Inr[OF assms(1)] obtain s where "pass1 lines = Some (Inr s)" "db = write_data (items s)" by blast
  then have img: "byte_image DATA_BASE (data_addr s) db" using pass1_byte_image by blast
  have "raw_data db = (map (\<lambda>a. case map_of db a of None \<Rightarrow> 0 | Some b \<Rightarrow> b)
            [Min (fst ` set db)..Max (fst ` set db)], None)"
    using assms(2) byte_image_map_of[OF img]
    by (simp add: raw_data_def Let_def fold_min_hd fold_max_hd raw_bytes_ok)
  moreover have "DATA_BASE \<le> Min (fst ` set db)"
  proof -
    have "finite (fst ` set db)" "fst ` set db \<noteq> {}" using assms(2) by simp_all
    moreover have "\<forall>a\<in>fst ` set db. DATA_BASE \<le> a"
      using img by (auto simp: byte_image_def list_all_iff)
    ultimately show ?thesis by simp
  qed
  ultimately show ?thesis by blast
qed

lemma raw_data_contiguous_witness:
  "\<exists>tb db st. assemble [''.data'', ''.byte 1'', ''.half 0x203'', ''x: .byte 9''] = Some (Inr (tb, db, st)) \<and> db \<noteq> [] \<and>
     raw_data db = (map (\<lambda>a. case map_of db a of None \<Rightarrow> 0 | Some b \<Rightarrow> b)
       [Min (fst ` set db)..Max (fst ` set db)], None) \<and> DATA_BASE \<le> Min (fst ` set db)"
proof -
  have a: "map_option (map_sum id (\<lambda>(t, d, st). (t, d, st ''x'')))
      (assemble [''.data'', ''.byte 1'', ''.half 0x203'', ''x: .byte 9'']) =
    Some (Inr ([], [(268500992, 1), (268500993, 3), (268500994, 2), (268500995, 9)], Some 268500995))"
    by code_simp
  obtain st where "assemble [''.data'', ''.byte 1'', ''.half 0x203'', ''x: .byte 9''] =
      Some (Inr ([], [(268500992, 1), (268500993, 3), (268500994, 2), (268500995, 9)], st))"
    using map_result_Inr[OF a] by blast
  then show ?thesis using raw_data_contiguous by blast
qed

text \<open>The raw text file holds the four little-endian bytes of each word of the text image in the image's order; the first word outside [0, 2^32) stops it with struct.error, after the bytes of the words before it.\<close>

theorem raw_text_pack:
  "raw_text tb = (concat (map (\<lambda>(a, w). le_bytes 4 w) (takeWhile (\<lambda>(a, w). 0 \<le> w \<and> w < 2 ^ 32) tb)),
     if list_all (\<lambda>(a, w). 0 \<le> w \<and> w < 2 ^ 32) tb then None else Some StructError)"
  by (induction tb rule: raw_text.induct) (auto simp: pack_u32_def split: prod.splits)

text \<open>C28: a register name parse_reg does not know is not reported by the assembler: add a0, a1, foo assembles to the negative word built from the sentinel -1, and the output writer then fails with struct.error when it packs that word into the raw text file.\<close>

theorem bad_register_struct_error:
  "\<exists>tb db st. assemble [''add a0, a1, foo''] = Some (Inr (tb, db, st)) \<and> tb = [(TEXT_BASE, -686797)] \<and>
     snd (write_text_bin_file tb db ''out.txt'' (Some ''out'')) = Some StructError"
proof -
  have a: "map_option (map_sum id (\<lambda>(t, d, st). (t, d, st ''x''))) (assemble [''add a0, a1, foo'']) =
    Some (Inr ([(4194304, -686797)], [], None))"
    by code_simp
  obtain st where "assemble [''add a0, a1, foo''] = Some (Inr ([(4194304, -686797)], [], st))"
    using map_result_Inr[OF a] by blast
  moreover have "snd (raw_text [(4194304, -686797)]) = Some StructError" by (simp add: pack_u32_def)
  ultimately show ?thesis using write_text_bin_file_raw_error by (auto simp: TEXT_BASE_def)
qed
end
