(* ===== verification/AlgebraQ1.thy ===== *)
theory AlgebraQ1
  imports Complex_Main
begin

text \<open>
  \<open>base_W(a, b, c)\<close> of \<open>src/AL-att/algebra_q1.py\<close> (lines 1--23): a basis and the
  dimension of the plane \<open>W = {(x, y, z) | a x + b y + c z = 0}\<close> of \<open>\<real>\<^sup>3\<close>.
  Python floats are modelled by \<open>real\<close>: the arithmetic is exact, rounding is not
  modelled.  A vector is a triple, as the tuples of the source.
\<close>

type_synonym vec3 = "real \<times> real \<times> real"

definition base_W :: "real \<Rightarrow> real \<Rightarrow> real \<Rightarrow> vec3 list \<times> nat" where
  "base_W a b c =
     (if a = 0 \<and> b = 0 \<and> c = 0 then ([(1, 0, 0), (0, 1, 0), (0, 0, 1)], 3)
      else (let v1 = (if a \<noteq> 0 \<or> b \<noteq> 0 then (- b, a, 0) else (1, 0, 0));
                (v1x, v1y, v1z) = v1;
                vx = b * v1z - c * v1y;
                vy = c * v1x - a * v1z;
                vz = a * v1y - b * v1x
            in ([v1, (vx, vy, vz)], 2)))"

subsection \<open>The subspace and linear combinations\<close>

definition in_W :: "real \<Rightarrow> real \<Rightarrow> real \<Rightarrow> vec3 \<Rightarrow> bool" where
  "in_W a b c v \<longleftrightarrow> (case v of (x, y, z) \<Rightarrow> a * x + b * y + c * z = 0)"

definition scale3 :: "real \<Rightarrow> vec3 \<Rightarrow> vec3" where
  "scale3 r v = (case v of (x, y, z) \<Rightarrow> (r * x, r * y, r * z))"

definition add3 :: "vec3 \<Rightarrow> vec3 \<Rightarrow> vec3" where
  "add3 u v = (case (u, v) of ((x, y, z), (x', y', z')) \<Rightarrow> (x + x', y + y', z + z'))"

fun lin_comb :: "real list \<Rightarrow> vec3 list \<Rightarrow> vec3" where
  "lin_comb (c # cs) (v # vs) = add3 (scale3 c v) (lin_comb cs vs)"
| "lin_comb _ _ = (0, 0, 0)"

definition lin_indep :: "vec3 list \<Rightarrow> bool" where
  "lin_indep vs \<longleftrightarrow>
     (\<forall>cs. length cs = length vs \<longrightarrow> lin_comb cs vs = (0, 0, 0) \<longrightarrow> list_all (\<lambda>c. c = 0) cs)"

definition spans_W :: "real \<Rightarrow> real \<Rightarrow> real \<Rightarrow> vec3 list \<Rightarrow> bool" where
  "spans_W a b c vs \<longleftrightarrow> (\<forall>w. in_W a b c w \<longrightarrow> (\<exists>cs. length cs = length vs \<and> lin_comb cs vs = w))"

subsection \<open>Lemmas\<close>

lemma base_W_cases:
  "a = 0 \<and> b = 0 \<and> c = 0 \<Longrightarrow> base_W a b c = ([(1, 0, 0), (0, 1, 0), (0, 0, 1)], 3)"
  "a \<noteq> 0 \<or> b \<noteq> 0 \<Longrightarrow> base_W a b c = ([(- b, a, 0), (- (c * a), - (c * b), a * a + b * b)], 2)"
  "a = 0 \<Longrightarrow> b = 0 \<Longrightarrow> c \<noteq> 0 \<Longrightarrow> base_W a b c = ([(1, 0, 0), (0, c, 0)], 2)"
  by (auto simp: base_W_def Let_def)

lemma length_2_cases: "length cs = 2 \<Longrightarrow> \<exists>x y. cs = [x, y]"
  by (cases cs; cases "tl cs") auto

lemma length_3_cases: "length cs = 3 \<Longrightarrow> \<exists>x y z. cs = [x, y, z]"
  by (cases cs; cases "tl cs"; cases "tl (tl cs)") auto

lemma lin_comb_2: "lin_comb [x, y] [u, v] = add3 (scale3 x u) (scale3 y v)"
  by (simp add: add3_def scale3_def split: prod.splits)

lemma sum_sq_pos: "a \<noteq> 0 \<or> b \<noteq> 0 \<Longrightarrow> 0 < a * a + b * (b::real)"
  by (simp add: sum_squares_gt_zero_iff)

lemma lin_indep_ab:
  assumes "a \<noteq> 0 \<or> b \<noteq> 0"
  shows "lin_indep [(- b, a, 0), (- (c * a), - (c * b), a * a + b * b)]"
  unfolding lin_indep_def
proof (intro allI impI)
  fix cs :: "real list"
  assume l: "length cs = length [(- b, a, 0), (- (c * a), - (c * b), a * a + b * b)]"
    and z: "lin_comb cs [(- b, a, 0), (- (c * a), - (c * b), a * a + b * b)] = (0, 0, 0)"
  from l have "length cs = 2" by simp
  then obtain x y where cs: "cs = [x, y]" using length_2_cases by blast
  from z have e: "x * - b + y * - (c * a) = 0" "x * a + y * - (c * b) = 0" "y * (a * a + b * b) = 0"
    by (simp_all add: cs lin_comb_2 add3_def scale3_def)
  moreover have "a * a + b * b \<noteq> 0" using sum_sq_pos[OF assms] by linarith
  ultimately have "y = 0" by (metis mult_eq_0_iff)
  then have "x = 0" using e assms by auto
  with \<open>y = 0\<close> show "list_all (\<lambda>c. c = 0) cs" by (simp add: cs)
qed

lemma spans_ab:
  assumes "a \<noteq> 0 \<or> b \<noteq> 0"
  shows "spans_W a b c [(- b, a, 0), (- (c * a), - (c * b), a * a + b * b)]"
  unfolding spans_W_def
proof (intro allI impI)
  fix w assume "in_W a b c w"
  then obtain x y z where w: "w = (x, y, z)" and e: "a * x + b * y + c * z = 0"
    by (cases w) (auto simp: in_W_def)
  define n where "n = a * a + b * b"
  have n: "n \<noteq> 0" using sum_sq_pos[OF assms] unfolding n_def by linarith
  have "(a * y - b * x) * - b + z * - (c * a) = x * n"
    using e unfolding n_def by algebra
  then have "(a * y - b * x) / n * - b + z / n * - (c * a) = x"
    using n by (simp add: field_simps)
  moreover have "(a * y - b * x) * a + z * - (c * b) = y * n"
    using e unfolding n_def by algebra
  then have "(a * y - b * x) / n * a + z / n * - (c * b) = y"
    using n by (simp add: field_simps)
  moreover have "z / n * (a * a + b * b) = z" using n by (simp add: n_def)
  ultimately have "lin_comb [(a * y - b * x) / n, z / n] [(- b, a, 0), (- (c * a), - (c * b), a * a + b * b)] = w"
    by (simp add: w lin_comb_2 add3_def scale3_def)
  then show "\<exists>cs. length cs = length [(- b, a, 0), (- (c * a), - (c * b), a * a + b * b)] \<and>
      lin_comb cs [(- b, a, 0), (- (c * a), - (c * b), a * a + b * b)] = w"
    by (intro exI[of _ "[(a * y - b * x) / n, z / n]"]) simp
qed

lemma lin_comb_3: "lin_comb [x, y, z] [u, v, w] = add3 (scale3 x u) (add3 (scale3 y v) (scale3 z w))"
  by (simp add: add3_def scale3_def split: prod.splits)

lemma lin_indep_c:
  assumes "c \<noteq> 0"
  shows "lin_indep [(1, 0, 0), (0, c, 0)]"
  unfolding lin_indep_def
proof (intro allI impI)
  fix cs :: "real list"
  assume "length cs = length [(1::real, 0::real, 0::real), (0, c, 0)]"
    and z: "lin_comb cs [(1, 0, 0), (0, c, 0)] = (0, 0, 0)"
  then have "length cs = 2" by simp
  then obtain x y where cs: "cs = [x, y]" using length_2_cases by blast
  from z have "x = 0" "y * c = 0" by (simp_all add: cs lin_comb_2 add3_def scale3_def)
  then show "list_all (\<lambda>c. c = 0) cs" using assms by (simp add: cs)
qed

lemma spans_c:
  assumes "c \<noteq> 0"
  shows "spans_W 0 0 c [(1, 0, 0), (0, c, 0)]"
  unfolding spans_W_def
proof (intro allI impI)
  fix w assume "in_W 0 0 c w"
  then obtain x y where w: "w = (x, y, 0)" using assms by (cases w) (auto simp: in_W_def)
  have "lin_comb [x, y / c] [(1, 0, 0), (0, c, 0)] = w"
    using assms by (simp add: w lin_comb_2 add3_def scale3_def)
  then show "\<exists>cs. length cs = length [(1::real, 0::real, 0::real), (0, c, 0)] \<and> lin_comb cs [(1, 0, 0), (0, c, 0)] = w"
    by (intro exI[of _ "[x, y / c]"]) simp
qed

lemma lin_indep_std: "lin_indep [(1, 0, 0), (0, 1, 0), (0, 0, 1)]"
  unfolding lin_indep_def
proof (intro allI impI)
  fix cs :: "real list"
  assume "length cs = length [(1::real, 0::real, 0::real), (0, 1, 0), (0, 0, 1)]"
    and z: "lin_comb cs [(1, 0, 0), (0, 1, 0), (0, 0, 1)] = (0, 0, 0)"
  then have "length cs = 3" by simp
  then obtain x y t where cs: "cs = [x, y, t]" using length_3_cases by blast
  from z show "list_all (\<lambda>c. c = 0) cs" by (simp add: cs lin_comb_3 add3_def scale3_def)
qed

lemma spans_std: "spans_W a b c [(1, 0, 0), (0, 1, 0), (0, 0, 1)]"
  unfolding spans_W_def
proof (intro allI impI)
  fix w :: vec3
  obtain x y z where w: "w = (x, y, z)" by (cases w) auto
  have "lin_comb [x, y, z] [(1, 0, 0), (0, 1, 0), (0, 0, 1)] = w" by (simp add: w lin_comb_3 add3_def scale3_def)
  then show "\<exists>cs. length cs = length [(1::real, 0::real, 0::real), (0, 1, 0), (0, 0, 1)] \<and>
      lin_comb cs [(1, 0, 0), (0, 1, 0), (0, 0, 1)] = w"
    by (intro exI[of _ "[x, y, z]"]) simp
qed

subsection \<open>Properties\<close>

text \<open>In exact arithmetic base_W returns a basis of the plane a x + b y + c z = 0 and its dimension: the standard basis and 3 when a = b = c = 0, otherwise two vectors of the plane, linearly independent and spanning it, and 2.\<close>

lemma base_W_basis:
  assumes "base_W a b c = (vs, d)"
  shows "d = (if a = 0 \<and> b = 0 \<and> c = 0 then 3 else 2) \<and> length vs = d \<and> list_all (in_W a b c) vs \<and>
    lin_indep vs \<and> spans_W a b c vs"
proof (cases "a \<noteq> 0 \<or> b \<noteq> 0")
  case True
  have vs: "vs = [(- b, a, 0), (- (c * a), - (c * b), a * a + b * b)]" "d = 2"
    using assms base_W_cases(2)[OF True] by simp_all
  have "list_all (in_W a b c) vs" unfolding vs by (simp add: in_W_def algebra_simps)
  moreover have "\<not> (a = 0 \<and> b = 0 \<and> c = 0)" using True by blast
  ultimately show ?thesis using vs lin_indep_ab[OF True] spans_ab[OF True] by simp
next
  case False
  show ?thesis
  proof (cases "c = 0")
    case True
    then show ?thesis using False assms base_W_cases(1) lin_indep_std spans_std by (auto simp: in_W_def)
  next
    case c: False
    then show ?thesis using False assms base_W_cases(3)[of a b c] lin_indep_c[OF c] spans_c[OF c]
      by (auto simp: in_W_def)
  qed
qed

lemma base_W_basis_witness:
  "base_W 1 2 3 = ([(-2, 1, 0), (-3, -6, 5)], 2) \<and> list_all (in_W 1 2 3) [(-2, 1, 0), (-3, -6, 5)] \<and>
   lin_indep [(-2, 1, 0), (-3, -6, 5)] \<and> spans_W 1 2 3 [(-2, 1, 0), (-3, -6, 5)]"
proof -
  have b: "base_W 1 2 3 = ([(-2, 1, 0), (-3, -6, 5)], 2)" by (simp add: base_W_def)
  show ?thesis using base_W_basis[OF b] b by simp
qed

text \<open>C34: \<open>base_W\<close> reports dimension 3 and the standard basis exactly when
  \<open>a = b = c = 0\<close>, and dimension 2 with two vectors otherwise; the first vector is a
  non-zero vector of the plane, and when \<open>a = b = 0\<close> both vectors form a basis of it.
  These vectors are built from the inputs by negation and by products with 0 and 1
  only, which floating-point arithmetic computes exactly, so this holds for the
  floating-point program as it does here (the second vector of the general case is a
  rounded cross product and is not claimed to lie in the plane).\<close>

theorem base_W_plane:
  assumes "base_W a b c = (vs, d)"
  shows "d = (if a = 0 \<and> b = 0 \<and> c = 0 then 3 else 2) \<and> length vs = d \<and>
    hd vs \<noteq> (0, 0, 0) \<and> in_W a b c (hd vs) \<and>
    (a = 0 \<and> b = 0 \<longrightarrow> list_all (in_W a b c) vs \<and> lin_indep vs \<and> spans_W a b c vs)"
proof (cases "a \<noteq> 0 \<or> b \<noteq> 0")
  case True
  have vs: "vs = [(- b, a, 0), (- (c * a), - (c * b), a * a + b * b)]" "d = 2"
    using assms base_W_cases(2)[OF True] by simp_all
  have "in_W a b c (- b, a, 0)" by (simp add: in_W_def algebra_simps)
  moreover have "(- b, a, 0) \<noteq> (0, 0, (0::real))" using True by auto
  ultimately show ?thesis using vs True by auto
next
  case False
  show ?thesis
  proof (cases "c = 0")
    case True
    then show ?thesis using False assms base_W_cases(1) lin_indep_std spans_std by (auto simp: in_W_def)
  next
    case c: False
    then show ?thesis using False assms base_W_cases(3)[of a b c] lin_indep_c[OF c] spans_c[OF c]
      by (auto simp: in_W_def)
  qed
qed

lemma base_W_plane_witness:
  "base_W 0 0 2 = ([(1, 0, 0), (0, 2, 0)], 2) \<and> lin_indep [(1, 0, 0), (0, 2, 0)] \<and>
   spans_W 0 0 2 [(1, 0, 0), (0, 2, 0)] \<and> in_W 1 2 3 (-2, 1, 0)"
proof -
  have b: "base_W 0 0 2 = ([(1, 0, 0), (0, 2, 0)], 2)" by (simp add: base_W_def)
  have b2: "base_W 1 2 3 = ([(-2, 1, 0), (-3, -6, 5)], 2)" by (simp add: base_W_def)
  show ?thesis using base_W_plane[OF b] base_W_plane[OF b2] b by simp
qed

end
