(* ===== verification/AlgebraQ4.thy ===== *)
theory AlgebraQ4
  imports Prelude Complex_Main
begin

text \<open>
  The closed-form parts of \<open>src/AL-att/algebra_q4.py\<close>: the determinants
  (lines 13--20), \<open>subtrair_lambdaI\<close> (lines 23--28), the characteristic polynomial
  of a 2\<times>2 or 3\<times>3 matrix (lines 95--127) and the roots of a quadratic (lines
  129--139).  Matrices are lists of rows; Python floats are \<open>real\<close> (exact
  arithmetic, no rounding), so the lemmas on the values computed here describe the
  algorithm in exact arithmetic, not the rounded results of the program.  Reading outside a row raises \<open>IndexError\<close> and a
  division by zero raises \<open>ZeroDivisionError\<close>: both are \<open>Inl\<close> values.
\<close>

type_synonym matrix = "real list list"

definition square :: "nat \<Rightarrow> matrix \<Rightarrow> bool" where
  "square n M \<longleftrightarrow> length M = n \<and> list_all (\<lambda>row. length row = n) M"

text \<open>Every entry \<open>M[i][j]\<close> with \<open>i, j < n\<close> exists: what an expression that reads all
  of them needs not to raise \<open>IndexError\<close>.\<close>

definition entries :: "nat \<Rightarrow> matrix \<Rightarrow> bool" where
  "entries n M \<longleftrightarrow> n \<le> length M \<and> list_all (\<lambda>i. n \<le> length (M ! i)) [0..<n]"

definition py_div :: "real \<Rightarrow> real \<Rightarrow> real py" where
  "py_div x y = (if y = 0 then Inl ZeroDivisionError else Inr (x / y))"

subsection \<open>The functions (lines 13--139)\<close>

definition determinante_2x2 :: "matrix \<Rightarrow> real py" where
  "determinante_2x2 M =
     (if entries 2 M then Inr (M!0!0 * M!1!1 - M!0!1 * M!1!0) else Inl IndexError)"

definition determinante_3x3 :: "matrix \<Rightarrow> real py" where
  "determinante_3x3 M =
     (if entries 3 M then
        Inr (M!0!0 * (M!1!1 * M!2!2 - M!1!2 * M!2!1)
           - M!0!1 * (M!1!0 * M!2!2 - M!1!2 * M!2!0)
           + M!0!2 * (M!1!0 * M!2!1 - M!1!1 * M!2!0))
      else Inl IndexError)"

definition subtrair_lambdaI :: "matrix \<Rightarrow> real \<Rightarrow> matrix py" where
  "subtrair_lambdaI M lamb =
     (let n = length M in
      if entries n M
      then Inr (map (\<lambda>i. map (\<lambda>j. M!i!j - (if i = j then lamb else 0)) [0..<n]) [0..<n])
      else Inl IndexError)"

text \<open>The coefficients, highest degree first; \<open>None\<close> for a size other than 2 and 3
  (the source prints a message and returns \<open>None\<close>).\<close>

definition polinomio_caracteristico :: "matrix \<Rightarrow> real list option py" where
  "polinomio_caracteristico M =
     (let n = length M in
      if n = 2 then
        (if entries 2 M then
           (let a = M!0!0; b = M!0!1; c = M!1!0; d = M!1!1
            in Inr (Some [1, - (a + d), a * d - b * c]))
         else Inl IndexError)
      else if n = 3 then
        (if entries 3 M then
           py_bind (determinante_3x3 M) (\<lambda>detA.
             let tr = M!0!0 + M!1!1 + M!2!2;
                 m1 = M!1!1 * M!2!2 - M!1!2 * M!2!1;
                 m2 = M!0!0 * M!2!2 - M!0!2 * M!2!0;
                 m3 = M!0!0 * M!1!1 - M!0!1 * M!1!0
             in Inr (Some [1, - tr, m1 + m2 + m3, - detA]))
         else Inl IndexError)
      else Inr None)"

definition resolver_quadratica :: "real \<Rightarrow> real \<Rightarrow> real \<Rightarrow> real list py" where
  "resolver_quadratica a b c =
     (let delta = b * b - 4 * a * c in
      if delta < 0 then Inr []
      else if \<bar>delta\<bar> < 1 / 10 ^ 10 then py_bind (py_div (- b) (2 * a)) (\<lambda>r. Inr [r])
      else (let d = sqrt delta in
            py_bind (py_div (- b + d) (2 * a)) (\<lambda>r1.
            py_bind (py_div (- b - d) (2 * a)) (\<lambda>r2. Inr [r1, r2]))))"

text \<open>The value of a polynomial given by its coefficients, highest degree first.\<close>

definition horner :: "real list \<Rightarrow> real \<Rightarrow> real" where
  "horner cs x = foldl (\<lambda>acc c. acc * x + c) 0 cs"

subsection \<open>Lemmas\<close>

lemma entries_square: "square n M \<Longrightarrow> entries n M"
  by (auto simp: square_def entries_def list_all_iff)

lemma entries_table: "entries n (map (\<lambda>i. map (f i) [0..<n]) [0..<n])"
  by (simp add: entries_def list_all_iff)

lemma upt_2: "[0..<2] = [0, 1]" and upt_3: "[0..<3] = [0, 1, 2]"
  by (simp_all add: upt_rec)

lemma subtrair_2:
  "length M = 2 \<Longrightarrow> entries 2 M \<Longrightarrow>
   subtrair_lambdaI M l = Inr [[M!0!0 - l, M!0!1], [M!1!0, M!1!1 - l]]"
  by (simp add: subtrair_lambdaI_def upt_2)

lemma char_poly_2x2:
  assumes "square 2 M"
  shows "\<exists>cs R d. polinomio_caracteristico M = Inr (Some cs) \<and> subtrair_lambdaI M l = Inr R \<and>
    determinante_2x2 R = Inr d \<and> horner cs l = d"
proof -
  have n: "length M = 2" using assms by (simp add: square_def)
  have e: "entries 2 M" using assms by (rule entries_square)
  have "entries 2 [[M!0!0 - l, M!0!1], [M!1!0, M!1!1 - l]]" by (simp add: entries_def upt_2)
  then have "determinante_2x2 [[M!0!0 - l, M!0!1], [M!1!0, M!1!1 - l]] =
      Inr ((M!0!0 - l) * (M!1!1 - l) - M!0!1 * M!1!0)"
    by (simp add: determinante_2x2_def)
  moreover have "polinomio_caracteristico M = Inr (Some [1, - (M!0!0 + M!1!1), M!0!0 * M!1!1 - M!0!1 * M!1!0])"
    using n e by (simp add: polinomio_caracteristico_def Let_def)
  moreover have "horner [1, - (M!0!0 + M!1!1), M!0!0 * M!1!1 - M!0!1 * M!1!0] l =
      (M!0!0 - l) * (M!1!1 - l) - M!0!1 * M!1!0"
    by (simp add: horner_def algebra_simps)
  ultimately show ?thesis using subtrair_2[OF n e] by blast
qed

lemma subtrair_3:
  "length M = 3 \<Longrightarrow> entries 3 M \<Longrightarrow>
   subtrair_lambdaI M l = Inr [[M!0!0 - l, M!0!1, M!0!2], [M!1!0, M!1!1 - l, M!1!2], [M!2!0, M!2!1, M!2!2 - l]]"
  by (simp add: subtrair_lambdaI_def upt_3)

lemma det3_poly:
  "- ((a - l) * ((e - l) * (i - l) - f * h) - b * (d * (i - l) - f * g) + c * (d * h - (e - l) * g)) =
   horner [1, - (a + e + i), (e * i - f * h) + (a * i - c * g) + (a * e - b * d),
     - (a * (e * i - f * h) - b * (d * i - f * g) + c * (d * h - e * g))] (l::real)"
  unfolding horner_def by simp algebra

lemma char_poly_3x3:
  assumes "square 3 M"
  shows "\<exists>cs R d. polinomio_caracteristico M = Inr (Some cs) \<and> subtrair_lambdaI M l = Inr R \<and>
    determinante_3x3 R = Inr d \<and> horner cs l = - d"
proof -
  have n: "length M = 3" using assms by (simp add: square_def)
  have e: "entries 3 M" using assms by (rule entries_square)
  have "entries 3 [[M!0!0 - l, M!0!1, M!0!2], [M!1!0, M!1!1 - l, M!1!2], [M!2!0, M!2!1, M!2!2 - l]]"
    by (simp add: entries_def upt_3)
  then have "determinante_3x3 [[M!0!0 - l, M!0!1, M!0!2], [M!1!0, M!1!1 - l, M!1!2], [M!2!0, M!2!1, M!2!2 - l]] =
      Inr ((M!0!0 - l) * ((M!1!1 - l) * (M!2!2 - l) - M!1!2 * M!2!1)
         - M!0!1 * (M!1!0 * (M!2!2 - l) - M!1!2 * M!2!0)
         + M!0!2 * (M!1!0 * M!2!1 - (M!1!1 - l) * M!2!0))"
    by (simp add: determinante_3x3_def)
  moreover have "polinomio_caracteristico M = Inr (Some [1, - (M!0!0 + M!1!1 + M!2!2),
      (M!1!1 * M!2!2 - M!1!2 * M!2!1) + (M!0!0 * M!2!2 - M!0!2 * M!2!0) + (M!0!0 * M!1!1 - M!0!1 * M!1!0),
      - (M!0!0 * (M!1!1 * M!2!2 - M!1!2 * M!2!1) - M!0!1 * (M!1!0 * M!2!2 - M!1!2 * M!2!0)
         + M!0!2 * (M!1!0 * M!2!1 - M!1!1 * M!2!0))])"
    using n e by (simp add: polinomio_caracteristico_def determinante_3x3_def Let_def)
  ultimately show ?thesis using subtrair_3[OF n e] det3_poly by (metis minus_minus)
qed
lemma quad_identity: "4 * a * (a * x\<^sup>2 + b * x + c) = (2 * a * x + b)\<^sup>2 - (b * b - 4 * a * c :: real)"
  by (simp add: power2_eq_square algebra_simps)

lemma resolver_quadratica_a0: "resolver_quadratica 0 b c = Inl ZeroDivisionError"
  by (simp add: resolver_quadratica_def py_div_def Let_def)

lemma quad_root_iff:
  assumes "a \<noteq> 0"
  shows "a * x\<^sup>2 + b * x + c = 0 \<longleftrightarrow> (2 * a * x + b)\<^sup>2 = b * b - 4 * a * (c :: real)"
  using quad_identity[of a x b c] assms by auto

lemma resolver_neg:
  assumes "a \<noteq> 0" "b * b - 4 * a * c < 0"
  shows "resolver_quadratica a b c = Inr [] \<and> {x. a * x\<^sup>2 + b * x + c = 0} = {}"
proof -
  have "(2 * a * x + b)\<^sup>2 \<noteq> b * b - 4 * a * c" for x
    using assms(2) by (metis not_less zero_le_power2)
  then show ?thesis using assms by (simp add: resolver_quadratica_def quad_root_iff)
qed

lemma resolver_zero:
  assumes "a \<noteq> 0" "b * b - 4 * a * c = 0"
  shows "resolver_quadratica a b c = Inr [- b / (2 * a)] \<and> {x. a * x\<^sup>2 + b * x + c = 0} = {- b / (2 * a)}"
proof -
  have "a * x\<^sup>2 + b * x + c = 0 \<longleftrightarrow> x = - b / (2 * a)" for x
    using assms quad_root_iff[OF assms(1), of x b c] by (auto simp: field_simps)
  then show ?thesis using assms by (auto simp: resolver_quadratica_def py_div_def)
qed

lemma resolver_pos:
  assumes "a \<noteq> 0" "1 / 10 ^ 10 \<le> b * b - 4 * a * c"
  shows "resolver_quadratica a b c =
      Inr [(- b + sqrt (b * b - 4 * a * c)) / (2 * a), (- b - sqrt (b * b - 4 * a * c)) / (2 * a)] \<and>
    {x. a * x\<^sup>2 + b * x + c = 0} =
      {(- b + sqrt (b * b - 4 * a * c)) / (2 * a), (- b - sqrt (b * b - 4 * a * c)) / (2 * a)} \<and>
    (- b + sqrt (b * b - 4 * a * c)) / (2 * a) \<noteq> (- b - sqrt (b * b - 4 * a * c)) / (2 * a)"
proof -
  define D where "D = b * b - 4 * a * c"
  have "(0::real) < 1 / 10 ^ 10" by simp
  then have D: "0 < D" using assms(2) unfolding D_def by linarith
  have s: "(sqrt D)\<^sup>2 = D" "0 < sqrt D" using D by simp_all
  have "a * x\<^sup>2 + b * x + c = 0 \<longleftrightarrow> x = (- b + sqrt D) / (2 * a) \<or> x = (- b - sqrt D) / (2 * a)" for x
  proof -
    have "a * x\<^sup>2 + b * x + c = 0 \<longleftrightarrow> (2 * a * x + b)\<^sup>2 = (sqrt D)\<^sup>2"
      using quad_root_iff[OF assms(1)] s(1) unfolding D_def by simp
    also have "\<dots> \<longleftrightarrow> 2 * a * x + b = sqrt D \<or> 2 * a * x + b = - sqrt D"
      by (simp add: power2_eq_iff)
    also have "\<dots> \<longleftrightarrow> x = (- b + sqrt D) / (2 * a) \<or> x = (- b - sqrt D) / (2 * a)"
      using assms(1) by (auto simp: field_simps)
    finally show ?thesis .
  qed
  moreover have "\<not> \<bar>D\<bar> < 1 / 10 ^ 10" "\<not> D < 0" using assms(2) D unfolding D_def by auto
  moreover have "(- b + sqrt D) / (2 * a) \<noteq> (- b - sqrt D) / (2 * a)" using s(2) assms(1) by (auto simp: field_simps)
  ultimately show ?thesis using assms(1) unfolding D_def[symmetric]
    by (auto simp: resolver_quadratica_def py_div_def Let_def D_def[symmetric])
qed

lemma resolver_tolerance:
  assumes "a \<noteq> 0" "0 < b * b - 4 * a * c" "b * b - 4 * a * c < 1 / 10 ^ 10"
  shows "resolver_quadratica a b c = Inr [- b / (2 * a)] \<and> a * (- b / (2 * a))\<^sup>2 + b * (- b / (2 * a)) + c \<noteq> 0"
proof -
  have "(2 * a * (- b / (2 * a)) + b)\<^sup>2 = 0" using assms(1) by simp
  then have "(2 * a * (- b / (2 * a)) + b)\<^sup>2 \<noteq> b * b - 4 * a * c" using assms(2) by simp
  then have "a * (- b / (2 * a))\<^sup>2 + b * (- b / (2 * a)) + c \<noteq> 0"
    using quad_root_iff[OF assms(1), of "- b / (2 * a)" b c] by blast
  moreover have "resolver_quadratica a b c = Inr [- b / (2 * a)]"
    using assms by (simp add: resolver_quadratica_def py_div_def Let_def)
  ultimately show ?thesis by blast
qed

subsection \<open>Properties\<close>

text \<open>In exact arithmetic, for a 2x2 matrix the coefficients polinomio_caracteristico returns evaluate at every l to det(M - l I), and for a 3x3 matrix to -det(M - l I): they are the characteristic polynomial det(l I - M), computed with the determinant functions of the script.\<close>

lemma char_poly_det:
  "(square 2 M \<longrightarrow> (\<exists>cs R d. polinomio_caracteristico M = Inr (Some cs) \<and> subtrair_lambdaI M l = Inr R \<and>
      determinante_2x2 R = Inr d \<and> horner cs l = d)) \<and>
   (square 3 N \<longrightarrow> (\<exists>cs R d. polinomio_caracteristico N = Inr (Some cs) \<and> subtrair_lambdaI N l = Inr R \<and>
      determinante_3x3 R = Inr d \<and> horner cs l = - d))"
  using char_poly_2x2 char_poly_3x3 by blast

lemma char_poly_det_witness:
  "\<exists>cs R d. polinomio_caracteristico [[2, 1], [1, 2]] = Inr (Some cs) \<and> subtrair_lambdaI [[2, 1], [1, 2]] 3 = Inr R \<and>
     determinante_2x2 R = Inr d \<and> horner cs 3 = d"
proof -
  have "square 2 [[2, 1], [1, (2::real)]]" by (simp add: square_def)
  then show ?thesis using char_poly_det[where M = "[[2, 1], [1, 2]]" and l = 3] by blast
qed

text \<open>\<open>resolver_quadratica\<close> raises ZeroDivisionError when a = 0; in exact arithmetic, for a /= 0 it returns exactly the real roots of a x^2 + b x + c, without repetition, unless the discriminant lies in (0, 1e-10), where it returns the single value -b/(2a), which is then not a root.\<close>

lemma resolver_quadratica_roots:
  "resolver_quadratica 0 b c = Inl ZeroDivisionError \<and>
   (a \<noteq> 0 \<longrightarrow> (b * b - 4 * a * c < 0 \<or> b * b - 4 * a * c = 0 \<or> 1 / 10 ^ 10 \<le> b * b - 4 * a * c) \<longrightarrow>
      (\<exists>rs. resolver_quadratica a b c = Inr rs \<and> set rs = {x. a * x\<^sup>2 + b * x + c = 0} \<and> distinct rs)) \<and>
   (a \<noteq> 0 \<longrightarrow> 0 < b * b - 4 * a * c \<longrightarrow> b * b - 4 * a * c < 1 / 10 ^ 10 \<longrightarrow>
      resolver_quadratica a b c = Inr [- b / (2 * a)] \<and> a * (- b / (2 * a))\<^sup>2 + b * (- b / (2 * a)) + c \<noteq> 0)"
proof (intro conjI impI)
  show "resolver_quadratica 0 b c = Inl ZeroDivisionError" by (rule resolver_quadratica_a0)
next
  assume a: "a \<noteq> 0" and d: "b * b - 4 * a * c < 0 \<or> b * b - 4 * a * c = 0 \<or> 1 / 10 ^ 10 \<le> b * b - 4 * a * c"
  then show "\<exists>rs. resolver_quadratica a b c = Inr rs \<and> set rs = {x. a * x\<^sup>2 + b * x + c = 0} \<and> distinct rs"
    using resolver_neg[OF a] resolver_zero[OF a] resolver_pos[OF a] by auto
qed (use resolver_tolerance in auto)

lemma resolver_quadratica_roots_witness:
  "\<exists>rs. resolver_quadratica 1 (-3) 2 = Inr rs \<and> set rs = {x. 1 * x\<^sup>2 + -3 * x + 2 = 0} \<and> distinct rs"
proof -
  show ?thesis using resolver_quadratica_roots[where a = 1 and b = "-3" and c = 2] by simp
qed
end
