(* ===== verification/Escalonar.thy ===== *)
theory Escalonar
  imports AlgebraQ4
begin

text \<open>
  \<open>escalonar(M)\<close>, Gaussian elimination with partial pivoting, as written in
  \<open>src/AL-att/algebra_q2.py\<close> (lines 10--38); \<open>algebra_q3.py\<close> (lines 18--43) and
  \<open>algebra_q4.py\<close> (lines 31--56) hold the same text.  The state of the loop over
  the columns is the matrix and \<open>pivo_linha\<close>; \<open>break\<close> leaves the loop when
  \<open>pivo_linha\<close> reaches the number of rows, which is the same as doing nothing in
  the remaining iterations.  Every failing index access of the function raises
  \<open>IndexError\<close> and the loop has no other effect before it, so each access is
  modelled by a guard that the entries it reads exist.  Floats are \<open>real\<close>: the
  tolerance \<open>1e-10\<close> is kept, rounding is not modelled.

  The lemmas show that on a rectangular matrix the function raises nothing and keeps
  the shape, which holds for floating-point entries too, and that in exact
  arithmetic it keeps the solutions of \<open>M x = 0\<close> (its kernel): a row swap, the
  scaling of the pivot row by a non-zero pivot and the subtraction of a multiple of
  the pivot row from a row below are each kernel-preserving.
\<close>

subsection \<open>The function (lines 10--38)\<close>

text \<open>\<open>max(range(lo, hi), key=lambda i: abs(M[i][j]))\<close>: Python's \<open>max\<close> walks the
  items and replaces its current best only by a strictly larger key, so it returns
  the first index with the largest key; on an empty range it raises \<open>ValueError\<close>
  (the \<open>break\<close> of line 17 keeps the range non-empty).\<close>

definition max_step :: "nat \<times> real \<Rightarrow> nat \<times> real \<Rightarrow> nat \<times> real" where
  "max_step y b = (if snd b < snd y then y else b)"

definition first_max :: "(nat \<times> real) list \<Rightarrow> nat" where
  "first_max ks = fst (fold max_step (tl ks) (hd ks))"

definition max_abs_row :: "matrix \<Rightarrow> nat \<Rightarrow> nat \<Rightarrow> nat \<Rightarrow> nat py" where
  "max_abs_row M j lo hi =
     (if hi \<le> lo then Inl ValueError
      else if list_all (\<lambda>i. j < length (M ! i)) [lo..<hi]
      then Inr (first_max (map (\<lambda>i. (i, \<bar>M ! i ! j\<bar>)) [lo..<hi])) else Inl IndexError)"

text \<open>\<open>fator = M[i][j]; for k in range(colunas): M[i][k] -= fator * M[pivo_linha][k]\<close>
  (lines 32--34): \<open>fator\<close> is read before the row changes.\<close>

definition eliminate_row :: "real list \<Rightarrow> nat \<Rightarrow> nat \<Rightarrow> real list \<Rightarrow> real list" where
  "eliminate_row pr j colunas r =
     (let fator = r ! j in map (\<lambda>k. r ! k - fator * pr ! k) [0..<colunas] @ drop colunas r)"

text \<open>One iteration of \<open>for j in range(colunas)\<close> (lines 15--36): the test of
  \<open>break\<close>, the choice of the pivot row, the swap (both sides of line 21 are read
  before either is assigned), \<open>continue\<close> on a pivot below the tolerance, the
  normalisation of the pivot row and the elimination below it.\<close>

definition escalonar_step :: "nat \<Rightarrow> nat \<Rightarrow> nat \<Rightarrow> matrix \<times> nat \<Rightarrow> (matrix \<times> nat) py" where
  "escalonar_step linhas colunas j st =
     (case st of (M, pivo_linha) \<Rightarrow>
       if linhas \<le> pivo_linha then Inr (M, pivo_linha)
       else py_bind (max_abs_row M j pivo_linha linhas) (\<lambda>i_max.
         let M1 = M[pivo_linha := M ! i_max, i_max := M ! pivo_linha];
             pivo = M1 ! pivo_linha ! j
         in if \<bar>pivo\<bar> < 1 / 10 ^ 10 then Inr (M1, pivo_linha)
            else
              (let M2 = M1[pivo_linha := map (\<lambda>x. x / pivo) (M1 ! pivo_linha)]
               in if list_all (\<lambda>i. colunas \<le> length (M2 ! i)) [Suc pivo_linha..<linhas] \<and>
                     (Suc pivo_linha < linhas \<longrightarrow> colunas \<le> length (M2 ! pivo_linha))
                  then Inr (map (\<lambda>i. if pivo_linha < i then eliminate_row (M2 ! pivo_linha) j colunas (M2 ! i)
                                     else M2 ! i) [0..<linhas], Suc pivo_linha)
                  else Inl IndexError)))"

text \<open>A \<open>for\<close> loop whose body may raise: the first exception ends it.\<close>

fun py_fold :: "('a \<Rightarrow> 's \<Rightarrow> 's py) \<Rightarrow> 'a list \<Rightarrow> 's \<Rightarrow> 's py" where
  "py_fold f [] s = Inr s"
| "py_fold f (x # xs) s = py_bind (f x s) (py_fold f xs)"

text \<open>\<open>len(M[0])\<close> raises \<open>IndexError\<close> on the empty matrix.\<close>

definition escalonar :: "matrix \<Rightarrow> matrix py" where
  "escalonar M =
     (if M = [] then Inl IndexError
      else (let linhas = length M; colunas = length (M ! 0)
            in py_bind (py_fold (escalonar_step linhas colunas) [0..<colunas] (M, 0)) (\<lambda>(M', p). Inr M')))"

text \<open>The copies in \<open>algebra_q3.py\<close> (lines 18--43) and \<open>algebra_q4.py\<close> (lines
  31--56), character for character the same function.\<close>

definition escalonar_q3 :: "matrix \<Rightarrow> matrix py" where
  "escalonar_q3 M = escalonar M"

definition escalonar_q4 :: "matrix \<Rightarrow> matrix py" where
  "escalonar_q4 M = escalonar M"

subsection \<open>Kernels\<close>

definition dot :: "real list \<Rightarrow> real list \<Rightarrow> real" where
  "dot r x = sum_list (map2 (*) r x)"

definition kernel :: "matrix \<Rightarrow> real list \<Rightarrow> bool" where
  "kernel M x \<longleftrightarrow> list_all (\<lambda>r. dot r x = 0) M"

definition rect :: "nat \<Rightarrow> matrix \<Rightarrow> bool" where
  "rect c M \<longleftrightarrow> list_all (\<lambda>r. length r = c) M"

subsection \<open>Rows, dot products and the three row operations\<close>

lemma dot_nth: "length r = length x \<Longrightarrow> dot r x = (\<Sum>k<length r. r ! k * x ! k)"
  by (simp add: dot_def sum_list_sum_nth lessThan_atLeast0)

lemma kernel_nth: "kernel M x \<longleftrightarrow> (\<forall>i<length M. dot (M ! i) x = 0)"
  by (simp add: kernel_def list_all_length)

lemma rect_nth: "rect c M \<longleftrightarrow> (\<forall>i<length M. length (M ! i) = c)"
  by (simp add: rect_def list_all_length)

lemma dot_simps [simp]: "dot [] x = 0" "dot r [] = 0" "dot (a # r) (b # x) = a * b + dot r x"
  by (simp_all add: dot_def)

lemma dot_scale: "dot (map (\<lambda>x. x / p) r) x = dot r x / p"
proof (induction r arbitrary: x)
  case (Cons a r)
  then show ?case by (cases x) (simp_all add: add_divide_distrib)
qed simp

lemma dot_elim:
  assumes "length r = c" "length pr = c" "length x = c"
  shows "dot (eliminate_row pr j c r) x = dot r x - r ! j * dot pr x"
proof -
  have "dot (eliminate_row pr j c r) x = (\<Sum>k<c. (r ! k - r ! j * pr ! k) * x ! k)"
    using assms by (simp add: eliminate_row_def dot_nth)
  also have "\<dots> = (\<Sum>k<c. r ! k * x ! k) - r ! j * (\<Sum>k<c. pr ! k * x ! k)"
    by (simp add: algebra_simps sum_subtractf sum_distrib_left)
  finally show ?thesis using assms by (simp add: dot_nth)
qed

lemma fold_max_step_in: "fold max_step xs b \<in> insert b (set xs)"
  by (induction xs arbitrary: b) (auto simp: max_step_def)

lemma first_max_in: "ks \<noteq> [] \<Longrightarrow> first_max ks \<in> fst ` set ks"
  using fold_max_step_in[of "tl ks" "hd ks"] by (cases ks) (auto simp: first_max_def)

lemma max_abs_row_Inr:
  assumes "max_abs_row M j lo hi = Inr i" "lo < hi"
  shows "lo \<le> i \<and> i < hi"
proof -
  have "i = first_max (map (\<lambda>i. (i, \<bar>M ! i ! j\<bar>)) [lo..<hi])" using assms(1)
    by (simp add: max_abs_row_def split: if_splits)
  then show ?thesis using first_max_in[of "map (\<lambda>i. (i, \<bar>M ! i ! j\<bar>)) [lo..<hi]"] assms(2) by auto
qed

lemma max_abs_row_ok:
  "rect c M \<Longrightarrow> j < c \<Longrightarrow> lo < hi \<Longrightarrow> hi \<le> length M \<Longrightarrow> \<exists>i. max_abs_row M j lo hi = Inr i"
  by (auto simp: max_abs_row_def rect_nth list_all_iff)

lemma kernel_swap: "a < length M \<Longrightarrow> b < length M \<Longrightarrow> kernel (M[a := M ! b, b := M ! a]) x \<longleftrightarrow> kernel M x"
  by (simp add: kernel_def list_all_iff set_swap)

lemma rect_swap: "a < length M \<Longrightarrow> b < length M \<Longrightarrow> rect c (M[a := M ! b, b := M ! a]) \<longleftrightarrow> rect c M"
  by (simp add: rect_def list_all_iff set_swap)

lemma kernel_scale_row:
  assumes "p < length M" "q \<noteq> 0"
  shows "kernel (M[p := map (\<lambda>x. x / q) (M ! p)]) x \<longleftrightarrow> kernel M x"
  using assms by (auto simp: kernel_nth nth_list_update dot_scale)

lemma rect_scale_row: "p < length M \<Longrightarrow> rect c M \<Longrightarrow> rect c (M[p := map (\<lambda>x. x / q) (M ! p)])"
  by (auto simp: rect_nth nth_list_update)

lemma rect_elim:
  "rect c M \<Longrightarrow> rect c (map (\<lambda>i. if p < i then eliminate_row (M ! p) j c (M ! i) else M ! i) [0..<length M])"
  by (auto simp: rect_nth eliminate_row_def)

lemma kernel_elim:
  assumes "rect c M" "length x = c" "p < length M"
  shows "kernel (map (\<lambda>i. if p < i then eliminate_row (M ! p) j c (M ! i) else M ! i) [0..<length M]) x \<longleftrightarrow>
    kernel M x"
proof -
  have len: "\<And>i. i < length M \<Longrightarrow> length (M ! i) = c" using assms(1) by (simp add: rect_nth)
  have d: "dot (eliminate_row (M ! p) j c (M ! i)) x = dot (M ! i) x - M ! i ! j * dot (M ! p) x"
    if "i < length M" for i
    using dot_elim[OF len[OF that] len[OF assms(3)] assms(2)] .
  show ?thesis
  proof
    assume k: "kernel (map (\<lambda>i. if p < i then eliminate_row (M ! p) j c (M ! i) else M ! i) [0..<length M]) x"
    then have p0: "dot (M ! p) x = 0" using assms(3) by (auto simp: kernel_nth)
    show "kernel M x" unfolding kernel_nth
    proof (intro allI impI)
      fix i assume i: "i < length M"
      show "dot (M ! i) x = 0"
      proof (cases "p < i")
        case True
        then show ?thesis using k i d[OF i] p0 by (auto simp: kernel_nth)
      next
        case False
        then show ?thesis using k i by (auto simp: kernel_nth)
      qed
    qed
  next
    assume "kernel M x"
    then show "kernel (map (\<lambda>i. if p < i then eliminate_row (M ! p) j c (M ! i) else M ! i) [0..<length M]) x"
      using d assms(3) by (auto simp: kernel_nth)
  qed
qed

subsection \<open>One column, and the loop\<close>

lemma escalonar_step_kernel:
  assumes "rect c M" "length M = n" "escalonar_step n c j (M, p) = Inr (M', p')"
  shows "rect c M' \<and> length M' = n \<and> (\<forall>x. length x = c \<longrightarrow> (kernel M' x \<longleftrightarrow> kernel M x))"
proof (cases "n \<le> p")
  case True
  then show ?thesis using assms by (simp add: escalonar_step_def)
next
  case False
  then have pn: "p < n" by simp
  with assms(3) obtain i where i: "max_abs_row M j p n = Inr i"
    by (cases "max_abs_row M j p n") (auto simp: escalonar_step_def)
  with pn have ib: "p \<le> i" "i < n" using max_abs_row_Inr by blast+
  define M1 where "M1 = M[p := M ! i, i := M ! p]"
  define pivo where "pivo = M1 ! p ! j"
  have m1: "rect c M1" "length M1 = n" "\<And>x. kernel M1 x \<longleftrightarrow> kernel M x"
    using assms(1,2) pn ib unfolding M1_def by (simp_all add: rect_swap kernel_swap)
  show ?thesis
  proof (cases "\<bar>pivo\<bar> < 1 / 10 ^ 10")
    case True
    then have "M' = M1" using assms(3) False i by (auto simp: escalonar_step_def M1_def pivo_def Let_def)
    then show ?thesis using m1 by simp
  next
    case small: False
    then have pz: "pivo \<noteq> 0" by auto
    define M2 where "M2 = M1[p := map (\<lambda>x. x / pivo) (M1 ! p)]"
    have m2: "rect c M2" "length M2 = n" "\<And>x. kernel M2 x \<longleftrightarrow> kernel M1 x"
      using m1 pn pz unfolding M2_def by (simp_all add: rect_scale_row kernel_scale_row)
    have "M' = map (\<lambda>k. if p < k then eliminate_row (M2 ! p) j c (M2 ! k) else M2 ! k) [0..<n]"
      using assms(3) False i small unfolding M2_def M1_def pivo_def
      by (auto simp: escalonar_step_def Let_def split: if_splits)
    moreover have "kernel M' x \<longleftrightarrow> kernel M x" if "length x = c" for x
      using kernel_elim[OF m2(1) that, of p j] m2(2,3) m1(3) pn calculation by simp
    ultimately show ?thesis using rect_elim[OF m2(1), of p j] m2(2) by auto
  qed
qed

lemma py_fold_escalonar_kernel:
  "rect c M \<Longrightarrow> length M = n \<Longrightarrow> py_fold (escalonar_step n c) js (M, p) = Inr (M', p') \<Longrightarrow>
   rect c M' \<and> length M' = n \<and> (\<forall>x. length x = c \<longrightarrow> (kernel M' x \<longleftrightarrow> kernel M x))"
proof (induction js arbitrary: M p)
  case (Cons j js)
  then obtain M1 p1 where s: "escalonar_step n c j (M, p) = Inr (M1, p1)"
    "py_fold (escalonar_step n c) js (M1, p1) = Inr (M', p')"
    by (cases "escalonar_step n c j (M, p)") auto
  from escalonar_step_kernel[OF Cons.prems(1,2) s(1)] have "rect c M1" "length M1 = n"
    "\<forall>x. length x = c \<longrightarrow> (kernel M1 x \<longleftrightarrow> kernel M x)" by simp_all
  then show ?case using Cons.IH[OF _ _ s(2)] by simp
qed simp

lemma escalonar_step_ok:
  assumes "rect c M" "length M = n" "j < c"
  shows "\<exists>st. escalonar_step n c j (M, p) = Inr st"
proof (cases "n \<le> p")
  case True
  then show ?thesis by (simp add: escalonar_step_def)
next
  case False
  obtain i where i: "max_abs_row M j p n = Inr i"
    using max_abs_row_ok[OF assms(1,3), of p n] assms(2) False by auto
  with False have ib: "p \<le> i" "i < n" using max_abs_row_Inr by auto
  define M1 where "M1 = M[p := M ! i, i := M ! p]"
  have "rect c M1" "length M1 = n" using assms(1,2) False ib unfolding M1_def by (simp_all add: rect_swap)
  then have l: "\<And>k. k < n \<Longrightarrow> length (M1 ! k) = c" by (simp add: rect_nth)
  have "list_all (\<lambda>k. c \<le> length (M1[p := map (\<lambda>x. x / q) (M1 ! p)] ! k)) [Suc p..<n] \<and>
      (Suc p < n \<longrightarrow> c \<le> length (M1[p := map (\<lambda>x. x / q) (M1 ! p)] ! p))" for q
    using l False \<open>length M1 = n\<close> by (auto simp: list_all_iff nth_list_update)
  then show ?thesis using False i by (simp add: escalonar_step_def Let_def M1_def)
qed

lemma py_fold_escalonar_ok:
  "rect c M \<Longrightarrow> length M = n \<Longrightarrow> \<forall>j\<in>set js. j < c \<Longrightarrow> \<exists>st. py_fold (escalonar_step n c) js (M, p) = Inr st"
proof (induction js arbitrary: M p)
  case (Cons j js)
  obtain M1 p1 where s: "escalonar_step n c j (M, p) = Inr (M1, p1)"
    using escalonar_step_ok[OF Cons.prems(1,2), of j p] Cons.prems(3) by auto
  from escalonar_step_kernel[OF Cons.prems(1,2) s] have "rect c M1" "length M1 = n" by simp_all
  then show ?case using Cons.IH[of M1 p1] Cons.prems(3) s by simp
qed simp

lemma escalonar_Inr:
  assumes "rect (length (M ! 0)) M" "escalonar M = Inr E"
  shows "length E = length M \<and> rect (length (M ! 0)) E \<and>
    (\<forall>x. length x = length (M ! 0) \<longrightarrow> (kernel E x \<longleftrightarrow> kernel M x))"
proof -
  obtain p where "py_fold (escalonar_step (length M) (length (M ! 0))) [0..<length (M ! 0)] (M, 0) = Inr (E, p)"
    using assms(2) by (cases "py_fold (escalonar_step (length M) (length (M ! 0))) [0..<length (M ! 0)] (M, 0)")
      (auto simp: escalonar_def split: if_splits)
  then show ?thesis using py_fold_escalonar_kernel[OF assms(1) refl] by blast
qed

subsection \<open>The function returns and keeps the shape\<close>

lemma escalonar_Nil: "escalonar [] = Inl IndexError"
  by (simp add: escalonar_def)

text \<open>In exact arithmetic the function also keeps the kernel; with floating-point
  entries the elimination rounds, and the kernel is kept only approximately.\<close>

lemma escalonar_kernel:
  assumes "M \<noteq> []" "rect (length (M ! 0)) M"
  shows "\<exists>E. escalonar M = Inr E \<and> length E = length M \<and> rect (length (M ! 0)) E \<and>
    (\<forall>x. length x = length (M ! 0) \<longrightarrow> (kernel E x \<longleftrightarrow> kernel M x))"
proof -
  let ?c = "length (M ! 0)"
  obtain E p where f: "py_fold (escalonar_step (length M) ?c) [0..<?c] (M, 0) = Inr (E, p)"
    using py_fold_escalonar_ok[OF assms(2), of "length M" "[0..<?c]" 0] by auto
  then show ?thesis using py_fold_escalonar_kernel[OF assms(2) refl f] assms(1)
    by (simp add: escalonar_def)
qed

text \<open>C29: on a non-empty rectangular matrix \<open>escalonar\<close> raises nothing and returns a
  matrix with the same number of rows, each as long as the first row of the input.
  No value computed decides the shape or an exception: every entry read exists, the
  pivot range is never empty because of the \<open>break\<close>, and the division by the pivot
  happens only for a pivot of absolute value at least \<open>1e-10\<close>, so this holds for the
  floating-point program as it does here.\<close>

theorem escalonar_shape:
  assumes "M \<noteq> []" "rect (length (M ! 0)) M"
  shows "\<exists>E. escalonar M = Inr E \<and> length E = length M \<and> rect (length (M ! 0)) E"
proof -
  let ?c = "length (M ! 0)"
  obtain E p where f: "py_fold (escalonar_step (length M) ?c) [0..<?c] (M, 0) = Inr (E, p)"
    using py_fold_escalonar_ok[OF assms(2), of "length M" "[0..<?c]" 0] by auto
  then show ?thesis using py_fold_escalonar_kernel[OF assms(2) refl f] assms(1)
    by (simp add: escalonar_def)
qed

lemma escalonar_shape_witness:
  "escalonar [[0, 0, 0], [1, 2, 3]] = Inr [[1, 2, 3], [0, 0, 0]] \<and> length [[1, 2, 3], [0, 0, 0::real]] = 2"
proof -
  have "[[0, 0, 0], [1, 2, 3::real]] \<noteq> []" "rect (length ([[0, 0, 0], [1, 2, 3::real]] ! 0)) [[0, 0, 0], [1, 2, 3]]"
    by (simp_all add: rect_def)
  then obtain E where "escalonar [[0, 0, 0], [1, 2, 3]] = Inr E" "length E = 2"
    using escalonar_shape[of "[[0, 0, 0], [1, 2, 3]]"] by auto
  moreover have "escalonar [[0, 0, 0], [1, 2, 3]] = Inr [[1, 2, 3], [0, 0, 0]]" by code_simp
  ultimately show ?thesis by simp
qed

end
