(* ===== verification/KernelBasis.thy ===== *)
theory KernelBasis
  imports Escalonar
begin

text \<open>
  Pivots and a basis of the kernel from an echelon matrix: \<open>achar_pivos\<close> and
  \<open>calcular_base_nucleo\<close> of \<open>src/AL-att/algebra_q2.py\<close> (lines 41--72), and
  \<open>achar_pivos\<close> and \<open>base_nucleo\<close> of \<open>src/AL-att/algebra_q4.py\<close> (lines 59--89),
  which differ from the former in two tolerances.  The set difference
  \<open>set(range(colunas)) - set(pivos)\<close> is turned into a list by \<open>list(...)\<close>, whose
  order is CPython's hash-table order (\<open>list(set(range(9)) - set(range(7)))\<close> is
  \<open>[8, 7]\<close>); the model takes that order as a parameter \<open>list_of\<close> and the lemmas hold
  for every order that lists the set.  The back substitution writes only pivot
  columns, which holds whatever the rounding; that its vectors lie in the kernel is
  proved in exact arithmetic only.
\<close>

subsection \<open>\<open>achar_pivos\<close>\<close>

text \<open>The index of the first entry of a row that passes the test, counting from
  \<open>j\<close> (\<open>for j, val in enumerate(linha)\<close> with \<open>break\<close>).\<close>

fun first_idx :: "(real \<Rightarrow> bool) \<Rightarrow> nat \<Rightarrow> real list \<Rightarrow> nat option" where
  "first_idx P j [] = None"
| "first_idx P j (v # vs) = (if P v then Some j else first_idx P (Suc j) vs)"

text \<open>\<open>algebra_q2.py\<close>, lines 41--48: a pivot is an entry \<open>!= 0\<close>; a row without one
  adds nothing to the list.\<close>

definition achar_pivos :: "matrix \<Rightarrow> nat list" where
  "achar_pivos M = List.map_filter (first_idx (\<lambda>v. v \<noteq> 0) 0) M"

text \<open>\<open>algebra_q4.py\<close>, lines 59--66: a pivot is an entry with \<open>abs(val) > 1e-10\<close>.\<close>

definition achar_pivos_q4 :: "matrix \<Rightarrow> nat list" where
  "achar_pivos_q4 M = List.map_filter (first_idx (\<lambda>v. 1 / 10 ^ 10 < \<bar>v\<bar>) 0) M"

subsection \<open>Back substitution\<close>

text \<open>One iteration of \<open>for i in range(len(pivos) - 1, -1, -1)\<close> (q2 lines 63--68,
  q4 lines 83--85): \<open>soma\<close> reads \<open>esc[i][k]\<close> for \<open>k\<close> from \<open>j + 1\<close> to \<open>colunas - 1\<close>,
  then \<open>esc[i][j]\<close>, then \<open>vetor[j]\<close> is assigned.  The division \<open>dv\<close> is the one
  point where the two files differ.\<close>

definition back_step ::
  "(real \<Rightarrow> real \<Rightarrow> real py) \<Rightarrow> matrix \<Rightarrow> nat list \<Rightarrow> nat \<Rightarrow> nat \<Rightarrow> real list \<Rightarrow> real list py" where
  "back_step dv esc pivos colunas i v =
     (let j = pivos ! i in
      if i < length esc \<and> (Suc j < colunas \<longrightarrow> colunas \<le> length (esc ! i)) \<and> j < length (esc ! i)
      then py_bind (dv (- sum_list (map (\<lambda>k. esc ! i ! k * v ! k) [Suc j..<colunas])) (esc ! i ! j))
             (\<lambda>x. if j < colunas then Inr (v[j := x]) else Inl IndexError)
      else Inl IndexError)"

text \<open>q4 line 85: \<open>-soma / esc[i][j] if abs(esc[i][j]) > 1e-10 else 0\<close>.\<close>

definition dv_q4 :: "real \<Rightarrow> real \<Rightarrow> real py" where
  "dv_q4 a b = Inr (if 1 / 10 ^ 10 < \<bar>b\<bar> then a / b else 0)"

text \<open>The vector of one free variable (q2 lines 59--70, q4 lines 79--85):
  \<open>[0] * colunas\<close> with a 1 at the free position, then the back substitution.\<close>

definition nucleo_vetor ::
  "(real \<Rightarrow> real \<Rightarrow> real py) \<Rightarrow> matrix \<Rightarrow> nat list \<Rightarrow> nat \<Rightarrow> nat \<Rightarrow> real list py" where
  "nucleo_vetor dv esc pivos colunas livre =
     py_fold (back_step dv esc pivos colunas) (rev [0..<length pivos]) ((replicate colunas 0)[livre := 1])"

fun py_map :: "('a \<Rightarrow> 'b py) \<Rightarrow> 'a list \<Rightarrow> 'b list py" where
  "py_map f [] = Inr []"
| "py_map f (x # xs) = py_bind (f x) (\<lambda>y. py_bind (py_map f xs) (\<lambda>ys. Inr (y # ys)))"

text \<open>\<open>calcular_base_nucleo(esc, pivos)\<close>, q2 lines 51--72.\<close>

definition calcular_base_nucleo ::
  "(nat set \<Rightarrow> nat list) \<Rightarrow> matrix \<Rightarrow> nat list \<Rightarrow> (matrix \<times> nat list) py" where
  "calcular_base_nucleo list_of esc pivos =
     (if esc = [] then Inl IndexError
      else (let colunas = length (esc ! 0);
                livres = list_of ({0..<colunas} - set pivos)
            in py_bind (py_map (nucleo_vetor py_div esc pivos colunas) livres) (\<lambda>base. Inr (base, livres))))"

text \<open>The computation of \<open>main()\<close> in \<open>algebra_q2.py\<close> (lines 83--93): elimination,
  pivots, basis of the kernel.\<close>

definition nucleo_q2 :: "(nat set \<Rightarrow> nat list) \<Rightarrow> matrix \<Rightarrow> (matrix \<times> nat list) py" where
  "nucleo_q2 list_of M = py_bind (escalonar M) (\<lambda>esc. calcular_base_nucleo list_of esc (achar_pivos esc))"

text \<open>\<open>base_nucleo(M)\<close>, q4 lines 69--89: elimination, pivots and back substitution.\<close>

definition base_nucleo :: "(nat set \<Rightarrow> nat list) \<Rightarrow> matrix \<Rightarrow> matrix py" where
  "base_nucleo list_of M =
     py_bind (escalonar_q4 M) (\<lambda>esc.
       let pivos = achar_pivos_q4 esc
       in if esc = [] then Inl IndexError
          else (let colunas = length (esc ! 0);
                    livres = list_of ({0..<colunas} - set pivos)
                in py_map (nucleo_vetor dv_q4 esc pivos colunas) livres))"

subsection \<open>Echelon form\<close>

text \<open>What the back substitution needs of its input, for a pivot test \<open>P\<close>: the
  rows are rectangular, the pivots strictly increase, the entries left of a pivot
  are zero, and the rows without a pivot are zero and come last.\<close>

definition echelon :: "(real \<Rightarrow> bool) \<Rightarrow> nat \<Rightarrow> matrix \<Rightarrow> bool" where
  "echelon P c esc \<longleftrightarrow> rect c esc \<and> sorted_wrt (<) (List.map_filter (first_idx P 0) esc) \<and>
     list_all (\<lambda>row. case first_idx P 0 row of
                     None \<Rightarrow> list_all (\<lambda>v. v = 0) row
                   | Some p \<Rightarrow> list_all (\<lambda>v. v = 0) (take p row)) esc \<and>
     list_all (\<lambda>row. first_idx P 0 row = None) (dropWhile (\<lambda>row. first_idx P 0 row \<noteq> None) esc)"

subsection \<open>Dot products under the updates of the back substitution\<close>

lemma dot_upt: "length r = length v \<Longrightarrow> dot r v = sum_list (map (\<lambda>k. r ! k * v ! k) [0..<length r])"
  by (simp add: dot_def sum_list_sum_nth atLeast0LessThan sum_set_upt_conv_sum_list_nat)

lemma dot_update:
  "length r = length v \<Longrightarrow> j < length v \<Longrightarrow> dot r (v[j := x]) = dot r v + r ! j * (x - v ! j)"
proof (induction r arbitrary: v j)
  case (Cons a r)
  then obtain b w where v: "v = b # w" by (cases v) auto
  show ?case
  proof (cases j)
    case (Suc i)
    then show ?thesis using Cons.prems Cons.IH[of w i] v by (simp add: algebra_simps)
  qed (use Cons.prems v in \<open>simp add: algebra_simps\<close>)
qed simp

lemma dot_pivot:
  assumes "length r = c" "length v = c" "j < c" "\<forall>k<j. r ! k = 0"
  shows "dot r v = r ! j * v ! j + sum_list (map (\<lambda>k. r ! k * v ! k) [Suc j..<c])"
proof -
  have "[0..<c] = [0..<j] @ j # [Suc j..<c]" using assms(3)
    by (metis le_add1 less_imp_add_positive upt_add_eq_append upt_conv_Cons zero_le)
  moreover have "(\<Sum>k\<leftarrow>[0..<j]. r ! k * v ! k) = (\<Sum>k\<leftarrow>[0..<j]. 0)"
    by (rule arg_cong[where f = sum_list], rule map_cong) (simp_all add: assms(4))
  ultimately show ?thesis using assms(1,2) by (simp add: dot_upt)
qed

lemma dot_back_step:
  assumes "length r = c" "length v = c" "j < c" "\<forall>k<j. r ! k = 0" "r ! j \<noteq> 0"
  shows "dot r (v[j := - sum_list (map (\<lambda>k. r ! k * v ! k) [Suc j..<c]) / r ! j]) = 0"
  using assms by (simp add: dot_update dot_pivot[OF assms(1-4)] algebra_simps)

lemma dot_zero_row: "list_all (\<lambda>v. v = 0) r \<Longrightarrow> dot r x = 0"
proof (induction r arbitrary: x)
  case (Cons a r)
  then show ?case by (cases x) simp_all
qed simp

subsection \<open>Pivots of an echelon matrix\<close>

lemma first_idx_Some: "first_idx P j row = Some p \<Longrightarrow> j \<le> p \<and> p < j + length row \<and> P (row ! (p - j))"
proof (induction row arbitrary: j)
  case (Cons v vs)
  then show ?case by (auto split: if_splits dest!: Cons.IH simp: nth_Cons')
qed simp

lemma map_filter_prefix:
  "list_all (\<lambda>x. f x = None) (dropWhile (\<lambda>x. f x \<noteq> None) xs) \<Longrightarrow>
   List.map_filter f xs = map (\<lambda>x. the (f x)) (takeWhile (\<lambda>x. f x \<noteq> None) xs)"
proof (induction xs)
  case (Cons x xs)
  show ?case
  proof (cases "f x")
    case None
    then have "\<forall>y\<in>set xs. f y = None" using Cons.prems by (simp add: list_all_iff)
    then show ?thesis using None by (simp add: map_filter_def)
  next
    case (Some y)
    then show ?thesis using Cons by (simp add: map_filter_simps)
  qed
qed (simp add: map_filter_simps)

lemma takeWhile_nth_P: "i < length (takeWhile Q xs) \<Longrightarrow> Q (xs ! i)"
  using nth_mem[of i "takeWhile Q xs"] set_takeWhileD[of "xs ! i" Q xs] takeWhile_nth[of i Q xs] by simp

lemma dropWhile_nth_in:
  assumes "length (takeWhile Q xs) \<le> i" "i < length xs"
  shows "xs ! i \<in> set (dropWhile Q xs)"
proof -
  let ?l = "length (takeWhile Q xs)"
  have l: "?l + length (dropWhile Q xs) = length xs"
    by (metis length_append takeWhile_dropWhile_id)
  have "(takeWhile Q xs @ dropWhile Q xs) ! i = dropWhile Q xs ! (i - ?l)"
    using assms(1) by (simp only: nth_append) simp
  then have "xs ! i = dropWhile Q xs ! (i - ?l)" by simp
  moreover have "i - ?l < length (dropWhile Q xs)" using assms l by linarith
  ultimately show ?thesis by simp
qed
lemma echelon_facts:
  assumes "echelon P c esc"
  defines "pivos \<equiv> List.map_filter (first_idx P 0) esc"
  shows "length pivos \<le> length esc"
    and "\<And>i. i < length pivos \<Longrightarrow> pivos ! i < c \<and> P (esc ! i ! (pivos ! i)) \<and> (\<forall>k < pivos ! i. esc ! i ! k = 0)"
    and "sorted_wrt (<) pivos"
    and "\<And>i. length pivos \<le> i \<Longrightarrow> i < length esc \<Longrightarrow> list_all (\<lambda>v. v = 0) (esc ! i)"
proof -
  let ?Q = "\<lambda>row. first_idx P 0 row \<noteq> None"
  have r: "rect c esc" and s: "sorted_wrt (<) pivos"
    and z: "list_all (\<lambda>row. case first_idx P 0 row of None \<Rightarrow> list_all (\<lambda>v. v = 0) row
                   | Some p \<Rightarrow> list_all (\<lambda>v. v = 0) (take p row)) esc"
    and d: "list_all (\<lambda>row. first_idx P 0 row = None) (dropWhile ?Q esc)"
    using assms(1) unfolding echelon_def pivos_def by simp_all
  have pv: "pivos = map (\<lambda>x. the (first_idx P 0 x)) (takeWhile ?Q esc)"
    unfolding pivos_def using map_filter_prefix[OF d] .
  then have l: "length pivos = length (takeWhile ?Q esc)" by simp
  show "length pivos \<le> length esc" unfolding l by (rule length_takeWhile_le)
  show "sorted_wrt (<) pivos" using s .
  show "pivos ! i < c \<and> P (esc ! i ! (pivos ! i)) \<and> (\<forall>k < pivos ! i. esc ! i ! k = 0)"
    if i: "i < length pivos" for i
  proof -
    have il: "i < length esc" using i length_takeWhile_le[of ?Q esc] unfolding l by linarith
    obtain p where p: "first_idx P 0 (esc ! i) = Some p" using takeWhile_nth_P[of i ?Q esc] i l by auto
    have pi: "pivos ! i = p" using pv i l p by (simp add: takeWhile_nth)
    have "length (esc ! i) = c" using r il by (simp add: rect_nth)
    moreover have "p < length (esc ! i) \<and> P (esc ! i ! p)" using first_idx_Some[OF p] by simp
    moreover have "case first_idx P 0 (esc ! i) of None \<Rightarrow> list_all (\<lambda>v. v = 0) (esc ! i)
                   | Some p \<Rightarrow> list_all (\<lambda>v. v = 0) (take p (esc ! i))"
      using z il by (simp add: list_all_length)
    then have "list_all (\<lambda>v. v = 0) (take p (esc ! i))" using p by simp
    then have "\<forall>k<p. esc ! i ! k = 0" using first_idx_Some[OF p] by (auto simp: list_all_length)
    ultimately show ?thesis using pi by simp
  qed
  show "list_all (\<lambda>v. v = 0) (esc ! i)" if "length pivos \<le> i" "i < length esc" for i
  proof -
    have "length (takeWhile ?Q esc) \<le> i" using that(1) unfolding l .
    then have "esc ! i \<in> set (dropWhile ?Q esc)" by (rule dropWhile_nth_in[OF _ that(2)])
    then have "first_idx P 0 (esc ! i) = None" using d unfolding list_all_iff by blast
    moreover have "case first_idx P 0 (esc ! i) of None \<Rightarrow> list_all (\<lambda>v. v = 0) (esc ! i)
                   | Some p \<Rightarrow> list_all (\<lambda>v. v = 0) (take p (esc ! i))"
      using z that(2) by (simp add: list_all_length)
    ultimately show ?thesis by simp
  qed
qed

subsection \<open>The back substitution solves each row\<close>

lemma back_subst:
  assumes rows: "length pivos \<le> length esc" "rect c esc"
    and piv: "\<And>i. i < length pivos \<Longrightarrow>
      pivos ! i < c \<and> P (esc ! i ! (pivos ! i)) \<and> (\<forall>k < pivos ! i. esc ! i ! k = 0)"
    and srt: "sorted_wrt (<) pivos"
    and dv: "\<And>a b. P b \<Longrightarrow> dv a b = Inr (a / b)" and nz: "\<And>b. P b \<Longrightarrow> b \<noteq> 0"
  shows "m \<le> length pivos \<Longrightarrow> length v = c \<Longrightarrow>
    \<forall>i. m \<le> i \<and> i < length pivos \<longrightarrow> dot (esc ! i) v = 0 \<Longrightarrow>
    \<exists>v'. py_fold (back_step dv esc pivos c) (rev [0..<m]) v = Inr v' \<and> length v' = c \<and>
      (\<forall>i<length pivos. dot (esc ! i) v' = 0) \<and> (\<forall>k. k \<notin> set (take m pivos) \<longrightarrow> v' ! k = v ! k)"
proof (induction m arbitrary: v)
  case 0
  then show ?case by auto
next
  case (Suc m)
  define j where "j = pivos ! m"
  define r where "r = esc ! m"
  define x where "x = - sum_list (map (\<lambda>k. r ! k * v ! k) [Suc j..<c]) / r ! j"
  have m: "m < length pivos" using Suc.prems(1) by simp
  have lr: "length r = c" using rows m unfolding r_def by (simp add: rect_nth)
  have pj: "j < c" "P (r ! j)" "\<forall>k<j. r ! k = 0" using piv[OF m] unfolding j_def r_def by auto
  have bs: "back_step dv esc pivos c m v = Inr (v[j := x])"
    using m rows(1) lr pj dv[OF pj(2)] unfolding back_step_def j_def r_def x_def by (simp add: Let_def)
  have inv: "\<forall>i. m \<le> i \<and> i < length pivos \<longrightarrow> dot (esc ! i) (v[j := x]) = 0"
  proof (intro allI impI)
    fix i assume i: "m \<le> i \<and> i < length pivos"
    show "dot (esc ! i) (v[j := x]) = 0"
    proof (cases "i = m")
      case True
      then show ?thesis using dot_back_step[OF lr Suc.prems(2) pj(1,3) nz[OF pj(2)]]
        unfolding x_def r_def by simp
    next
      case False
      then have "j < pivos ! i" using i srt unfolding j_def by (simp add: sorted_wrt_iff_nth_less)
      then have "esc ! i ! j = 0" using piv[of i] i by simp
      moreover have "length (esc ! i) = c" using rows i by (simp add: rect_nth)
      ultimately show ?thesis using Suc.prems i pj(1) False by (simp add: dot_update)
    qed
  qed
  obtain v' where v': "py_fold (back_step dv esc pivos c) (rev [0..<m]) (v[j := x]) = Inr v'"
    "length v' = c" "\<forall>i<length pivos. dot (esc ! i) v' = 0"
    "\<forall>k. k \<notin> set (take m pivos) \<longrightarrow> v' ! k = v[j := x] ! k"
    using Suc.IH[of "v[j := x]"] Suc.prems inv by auto
  have "take (Suc m) pivos = take m pivos @ [j]" using m unfolding j_def by (simp add: take_Suc_conv_app_nth)
  then show ?case using v' bs by auto
qed

lemma nucleo_vetor_kernel:
  assumes e: "echelon P c esc" and dv: "\<And>a b. P b \<Longrightarrow> dv a b = Inr (a / b)"
    and nz: "\<And>b. P b \<Longrightarrow> b \<noteq> 0" and l: "l < c"
  defines "pivos \<equiv> List.map_filter (first_idx P 0) esc"
  shows "\<exists>v. nucleo_vetor dv esc pivos c l = Inr v \<and> length v = c \<and> kernel esc v \<and>
    (\<forall>k<c. k \<notin> set pivos \<longrightarrow> v ! k = (if k = l then 1 else 0))"
proof -
  note f = echelon_facts[OF e, folded pivos_def]
  have r: "rect c esc" using e by (simp add: echelon_def)
  obtain v where v: "py_fold (back_step dv esc pivos c) (rev [0..<length pivos]) ((replicate c 0)[l := 1]) = Inr v"
    "length v = c" "\<forall>i<length pivos. dot (esc ! i) v = 0"
    "\<forall>k. k \<notin> set (take (length pivos) pivos) \<longrightarrow> v ! k = (replicate c 0)[l := 1] ! k"
    using back_subst[OF f(1) r f(2) f(3) dv nz, of "length pivos" "(replicate c 0)[l := 1]"] by auto
  have "kernel esc v" unfolding kernel_nth
  proof (intro allI impI)
    fix i assume "i < length esc"
    then show "dot (esc ! i) v = 0" using v(3) f(4)[of i] dot_zero_row by (cases "i < length pivos") auto
  qed
  moreover have "v ! k = (if k = l then 1 else 0)" if "k < c" "k \<notin> set pivos" for k
  proof -
    have "v ! k = (replicate c 0)[l := 1] ! k" using v(4) that(2) by simp
    also have "\<dots> = (if k = l then 1 else 0)" using l that(1) by (simp add: nth_list_update)
    finally show ?thesis .
  qed
  ultimately show ?thesis using v(1,2) unfolding nucleo_vetor_def by blast
qed

lemma py_map_Inr:
  "\<forall>x\<in>set xs. \<exists>y. f x = Inr y \<and> Q x y \<Longrightarrow> \<exists>ys. py_map f xs = Inr ys \<and> list_all2 (\<lambda>y x. Q x y) ys xs"
  by (induction xs) auto

lemma livres_length:
  assumes "set (list_of ({0..<c} - set ps)) = {0..<c} - set ps" "distinct (list_of ({0..<c} - set ps))"
    "sorted_wrt (<) ps" "\<forall>p\<in>set ps. p < c"
  shows "length (list_of ({0..<c} - set ps)) + length ps = c"
proof -
  have "length (list_of ({0..<c} - set ps)) = card ({0..<c} - set ps)"
    using assms(1,2) distinct_card by fastforce
  moreover have "card (set ps) = length ps" using assms(3) by (simp add: strict_sorted_iff distinct_card)
  moreover have "set ps \<subseteq> {0..<c}" using assms(4) by auto
  moreover have "card (set ps) \<le> c" using card_mono[OF _ calculation(3)] by simp
  ultimately show ?thesis by (simp add: card_Diff_subset)
qed

subsection \<open>The back substitution writes only pivot columns\<close>

lemma back_step_frame:
  assumes "i < length esc" "length (esc ! i) = c" "pivos ! i < c" "esc ! i ! (pivos ! i) \<noteq> 0" "length v = c"
  shows "\<exists>v'. back_step py_div esc pivos c i v = Inr v' \<and> length v' = c \<and> (\<forall>k. k \<noteq> pivos ! i \<longrightarrow> v' ! k = v ! k)"
  using assms by (auto simp: back_step_def Let_def py_div_def)

lemma back_fold_frame:
  assumes "rect c esc" "\<forall>i\<in>set js. i < length esc \<and> pivos ! i < c \<and> esc ! i ! (pivos ! i) \<noteq> 0"
  shows "length v = c \<Longrightarrow> \<exists>v'. py_fold (back_step py_div esc pivos c) js v = Inr v' \<and> length v' = c \<and>
    (\<forall>k. k \<notin> (\<lambda>i. pivos ! i) ` set js \<longrightarrow> v' ! k = v ! k)"
  using assms(2)
proof (induction js arbitrary: v)
  case (Cons i js)
  then have i: "i < length esc" "pivos ! i < c" "esc ! i ! (pivos ! i) \<noteq> 0" by auto
  have "length (esc ! i) = c" using assms(1) i(1) by (simp add: rect_nth)
  then obtain v1 where v1: "back_step py_div esc pivos c i v = Inr v1" "length v1 = c"
    "\<forall>k. k \<noteq> pivos ! i \<longrightarrow> v1 ! k = v ! k"
    using back_step_frame[OF i(1) _ i(2,3) Cons.prems(1)] by blast
  obtain v' where "py_fold (back_step py_div esc pivos c) js v1 = Inr v'" "length v' = c"
    "\<forall>k. k \<notin> (\<lambda>i. pivos ! i) ` set js \<longrightarrow> v' ! k = v1 ! k"
    using Cons.IH[OF v1(2)] Cons.prems(2) by auto
  then show ?case using v1 by auto
qed simp

lemma set_map_filter_first_idx:
  assumes "p \<in> set (List.map_filter (first_idx P 0) M)"
  shows "\<exists>row\<in>set M. p < length row"
proof -
  obtain row where "row \<in> set M" "first_idx P 0 row = Some p"
    using assms by (auto simp: map_filter_def)
  then show ?thesis using first_idx_Some[of P 0 row p] by auto
qed

lemma length_map_filter_le: "length (List.map_filter f xs) \<le> length xs"
  by (induction xs) (auto split: option.splits)

subsection \<open>The basis of the kernel\<close>

text \<open>C30: on a rectangular matrix whose \<open>i\<close>-th pivot lies in row \<open>i\<close> (no zero row
  above a row with a pivot), \<open>calcular_base_nucleo\<close> raises nothing and returns, for
  each free column \<open>l\<close> in whatever order \<open>list(set)\<close> yields, a vector of the length
  of the rows that is 1 at \<open>l\<close> and 0 at every other free column; so the vectors are
  linearly independent and there are as many as the columns minus the distinct
  pivots, the dimension \<open>main\<close> prints.  The back substitution assigns only pivot
  columns and divides only by the non-zero pivot entries, so no computed value
  matters: this holds for the floating-point program as it does here.\<close>

theorem calcular_base_nucleo_frame:
  assumes r: "rect c esc" and ne: "esc \<noteq> []"
    and p: "\<forall>i<length (achar_pivos esc). esc ! i ! (achar_pivos esc ! i) \<noteq> 0"
    and lo: "set (list_of ({0..<c} - set (achar_pivos esc))) = {0..<c} - set (achar_pivos esc)"
      "distinct (list_of ({0..<c} - set (achar_pivos esc)))"
  shows "\<exists>base. calcular_base_nucleo list_of esc (achar_pivos esc) =
      Inr (base, list_of ({0..<c} - set (achar_pivos esc))) \<and>
    list_all2 (\<lambda>v l. length v = c \<and> (\<forall>k<c. k \<notin> set (achar_pivos esc) \<longrightarrow> v ! k = (if k = l then 1 else 0)))
      base (list_of ({0..<c} - set (achar_pivos esc))) \<and>
    length base = c - card (set (achar_pivos esc))"
proof -
  let ?ps = "achar_pivos esc" and ?ls = "list_of ({0..<c} - set (achar_pivos esc))"
  have c: "length (esc ! 0) = c" using r ne by (simp add: rect_nth)
  have pc: "\<forall>q\<in>set ?ps. q < c"
    using r by (auto simp: achar_pivos_def rect_def list_all_iff dest!: set_map_filter_first_idx)
  have pl: "length ?ps \<le> length esc" unfolding achar_pivos_def by (rule length_map_filter_le)
  have js: "\<forall>i\<in>set (rev [0..<length ?ps]). i < length esc \<and> ?ps ! i < c \<and> esc ! i ! (?ps ! i) \<noteq> 0"
    using pc pl p by auto
  have "\<forall>l\<in>set ?ls. \<exists>v. nucleo_vetor py_div esc ?ps c l = Inr v \<and>
      (length v = c \<and> (\<forall>k<c. k \<notin> set ?ps \<longrightarrow> v ! k = (if k = l then 1 else 0)))"
  proof
    fix l assume "l \<in> set ?ls"
    then have l: "l < c" using lo(1) by auto
    obtain v where v: "py_fold (back_step py_div esc ?ps c) (rev [0..<length ?ps]) ((replicate c 0)[l := 1]) = Inr v"
      "length v = c" "\<forall>k. k \<notin> (\<lambda>i. ?ps ! i) ` set (rev [0..<length ?ps]) \<longrightarrow> v ! k = (replicate c 0)[l := 1] ! k"
      using back_fold_frame[OF r js, of "(replicate c 0)[l := 1]"] by auto
    have "v ! k = (if k = l then 1 else 0)" if "k < c" "k \<notin> set ?ps" for k
    proof -
      have "k \<notin> (\<lambda>i. ?ps ! i) ` set (rev [0..<length ?ps])" using that(2) by (auto simp: in_set_conv_nth)
      then show ?thesis using v(3) that(1) l by (simp add: nth_list_update)
    qed
    then show "\<exists>v. nucleo_vetor py_div esc ?ps c l = Inr v \<and>
      (length v = c \<and> (\<forall>k<c. k \<notin> set ?ps \<longrightarrow> v ! k = (if k = l then 1 else 0)))"
      using v(1,2) unfolding nucleo_vetor_def by blast
  qed
  then obtain base where b: "py_map (nucleo_vetor py_div esc ?ps c) ?ls = Inr base"
    "list_all2 (\<lambda>v l. length v = c \<and> (\<forall>k<c. k \<notin> set ?ps \<longrightarrow> v ! k = (if k = l then 1 else 0))) base ?ls"
    using py_map_Inr[where xs = ?ls and f = "nucleo_vetor py_div esc ?ps c" and
      Q = "\<lambda>l v. length v = c \<and> (\<forall>k<c. k \<notin> set ?ps \<longrightarrow> v ! k = (if k = l then 1 else 0))"] by blast
  have "length ?ls = card ({0..<c} - set ?ps)" using lo distinct_card by fastforce
  moreover have "set ?ps \<subseteq> {0..<c}" using pc by auto
  ultimately have "length base = c - card (set ?ps)"
    using list_all2_lengthD[OF b(2)] by (simp add: card_Diff_subset)
  moreover have "calcular_base_nucleo list_of esc ?ps = Inr (base, ?ls)"
    using b(1) ne c by (simp add: calcular_base_nucleo_def Let_def)
  ultimately show ?thesis using b(2) by blast
qed


lemma calcular_base_nucleo_frame_witness:
  "calcular_base_nucleo (\<lambda>S. filter (\<lambda>k. k \<in> S) [0..<3]) [[2, 4, 6], [0, 0, 3]] (achar_pivos [[2, 4, 6], [0, 0, 3]])
     = Inr ([[-2, 1, 0]], [1]) \<and> length [[-2, 1, 0::real]] = 3 - card (set [0, 2::nat])"
proof -
  let ?L = "\<lambda>S. filter (\<lambda>k. k \<in> S) [0..<3::nat]" and ?E = "[[2, 4, 6], [0, 0, 3::real]]"
  have r: "rect 3 ?E" by (simp add: rect_def)
  have ne: "?E \<noteq> []" by simp
  have a: "achar_pivos ?E = [0, 2]" by code_simp
  have p: "\<forall>i<length (achar_pivos ?E). ?E ! i ! (achar_pivos ?E ! i) \<noteq> 0"
    unfolding a by (simp add: less_Suc_eq numeral_2_eq_2)
  have s: "set (?L ({0..<3} - set (achar_pivos ?E))) = {0..<3} - set (achar_pivos ?E)" by code_simp
  have d: "distinct (?L ({0..<3} - set (achar_pivos ?E)))" by simp
  obtain base where b: "calcular_base_nucleo ?L ?E (achar_pivos ?E) = Inr (base, ?L ({0..<3} - set (achar_pivos ?E)))"
    "length base = 3 - card (set (achar_pivos ?E))"
    using calcular_base_nucleo_frame[where list_of = ?L, OF r ne p s d] by blast
  have c: "calcular_base_nucleo ?L ?E (achar_pivos ?E) = Inr ([[-2, 1, 0]], [1])" by code_simp
  then have "base = [[-2, 1, 0]]" using b(1) by simp
  then show ?thesis using b(2) c unfolding a by simp
qed

text \<open>In exact arithmetic, on an echelon matrix the vectors also lie in the kernel.\<close>

lemma calcular_base_nucleo_kernel:
  assumes e: "echelon (\<lambda>v. v \<noteq> 0) c esc" and ne: "esc \<noteq> []"
    and lo: "set (list_of ({0..<c} - set (achar_pivos esc))) = {0..<c} - set (achar_pivos esc)"
      "distinct (list_of ({0..<c} - set (achar_pivos esc)))"
  shows "\<exists>base. calcular_base_nucleo list_of esc (achar_pivos esc) =
      Inr (base, list_of ({0..<c} - set (achar_pivos esc))) \<and>
    list_all2 (\<lambda>v l. length v = c \<and> kernel esc v \<and>
      (\<forall>k<c. k \<notin> set (achar_pivos esc) \<longrightarrow> v ! k = (if k = l then 1 else 0)))
      base (list_of ({0..<c} - set (achar_pivos esc))) \<and>
    length base + length (achar_pivos esc) = c"
proof -
  let ?ls = "list_of ({0..<c} - set (achar_pivos esc))"
  have "rect c esc" using e unfolding echelon_def by blast
  then have c: "length (esc ! 0) = c" using ne by (simp add: rect_nth)
  note f = echelon_facts[OF e, folded achar_pivos_def]
  have dv: "\<And>a b. b \<noteq> 0 \<Longrightarrow> py_div a b = Inr (a / b)" by (simp add: py_div_def)
  have nz: "\<And>b::real. b \<noteq> 0 \<Longrightarrow> b \<noteq> 0" .
  have "\<forall>l\<in>set ?ls. \<exists>v. nucleo_vetor py_div esc (achar_pivos esc) c l = Inr v \<and> length v = c \<and> kernel esc v \<and>
      (\<forall>k<c. k \<notin> set (achar_pivos esc) \<longrightarrow> v ! k = (if k = l then 1 else 0))"
  proof
    fix l assume "l \<in> set ?ls"
    then have "l < c" using lo(1) by auto
    from nucleo_vetor_kernel[OF e dv nz this, folded achar_pivos_def]
    show "\<exists>v. nucleo_vetor py_div esc (achar_pivos esc) c l = Inr v \<and> length v = c \<and> kernel esc v \<and>
      (\<forall>k<c. k \<notin> set (achar_pivos esc) \<longrightarrow> v ! k = (if k = l then 1 else 0))" .
  qed
  then obtain base where b: "py_map (nucleo_vetor py_div esc (achar_pivos esc) c) ?ls = Inr base"
    "list_all2 (\<lambda>v l. length v = c \<and> kernel esc v \<and>
      (\<forall>k<c. k \<notin> set (achar_pivos esc) \<longrightarrow> v ! k = (if k = l then 1 else 0))) base ?ls"
    using py_map_Inr[where xs = ?ls and f = "nucleo_vetor py_div esc (achar_pivos esc) c" and
      Q = "\<lambda>l v. length v = c \<and> kernel esc v \<and>
        (\<forall>k<c. k \<notin> set (achar_pivos esc) \<longrightarrow> v ! k = (if k = l then 1 else 0))"] by blast
  have "\<forall>p\<in>set (achar_pivos esc). p < c" using f(2) by (auto simp: in_set_conv_nth)
  then have "length ?ls + length (achar_pivos esc) = c" using livres_length[where list_of = list_of and ps = "achar_pivos esc" and c = c, OF lo f(3)] by blast
  then have "length base + length (achar_pivos esc) = c" using list_all2_lengthD[OF b(2)] by simp
  moreover have "calcular_base_nucleo list_of esc (achar_pivos esc) = Inr (base, ?ls)"
    using b(1) ne c by (simp add: calcular_base_nucleo_def Let_def)
  ultimately show ?thesis using b(2) by blast
qed

lemma calcular_base_nucleo_kernel_witness:
  "calcular_base_nucleo (\<lambda>S. filter (\<lambda>k. k \<in> S) [0..<3]) [[1, 2, 3], [0, 0, 1]] (achar_pivos [[1, 2, 3], [0, 0, 1]])
     = Inr ([[-2, 1, 0]], [1]) \<and> kernel [[1, 2, 3], [0, 0, 1]] [-2, 1, 0]"
proof -
  have h: "echelon (\<lambda>v. v \<noteq> 0) 3 [[1, 2, 3], [0, 0, 1]]" by code_simp
  have ne: "[[1, 2, 3], [0, 0, 1::real]] \<noteq> []" by simp
  have s: "set (filter (\<lambda>k. k \<in> {0..<3} - set (achar_pivos [[1, 2, 3], [0, 0, 1]])) [0..<3]) =
      {0..<3} - set (achar_pivos [[1, 2, 3], [0, 0, 1]])"
    by code_simp
  have d: "distinct (filter (\<lambda>k. k \<in> {0..<3} - set (achar_pivos [[1, 2, 3], [0, 0, 1]])) [0..<3])"
    by simp
  obtain base where b:
    "calcular_base_nucleo (\<lambda>S. filter (\<lambda>k. k \<in> S) [0..<3]) [[1, 2, 3], [0, 0, 1]] (achar_pivos [[1, 2, 3], [0, 0, 1]]) =
       Inr (base, filter (\<lambda>k. k \<in> {0..<3} - set (achar_pivos [[1, 2, 3], [0, 0, 1]])) [0..<3])"
    "list_all2 (\<lambda>v l. length v = 3 \<and> kernel [[1, 2, 3], [0, 0, 1]] v \<and>
      (\<forall>k<3. k \<notin> set (achar_pivos [[1, 2, 3], [0, 0, 1]]) \<longrightarrow> v ! k = (if k = l then 1 else 0)))
      base (filter (\<lambda>k. k \<in> {0..<3} - set (achar_pivos [[1, 2, 3], [0, 0, 1]])) [0..<3])"
    using calcular_base_nucleo_kernel[where list_of = "\<lambda>S. filter (\<lambda>k. k \<in> S) [0..<3]", OF h ne s d] by blast
  have c: "calcular_base_nucleo (\<lambda>S. filter (\<lambda>k. k \<in> S) [0..<3]) [[1, 2, 3], [0, 0, 1]] (achar_pivos [[1, 2, 3], [0, 0, 1]])
     = Inr ([[-2, 1, 0]], [1])" by code_simp
  have "base = [[-2, 1, 0]]" "filter (\<lambda>k. k \<in> {0..<3} - set (achar_pivos [[1, 2, 3], [0, 0, 1]])) [0..<3] = [1]"
    using b(1) unfolding c by simp_all
  then have "kernel [[1, 2, 3], [0, 0, 1]] [-2, 1, 0]" using b(2) by simp
  then show ?thesis using c by simp
qed

text \<open>In exact arithmetic, the pipeline of \<open>algebra_q4.py\<close>: when the elimination of a rectangular
  matrix ends in echelon form (pivot test \<open>abs > 1e-10\<close>), \<open>base_nucleo\<close> returns
  vectors in the kernel of the original matrix, one per free column.\<close>

theorem base_nucleo_kernel:
  assumes ne: "M \<noteq> []" and r: "rect (length (M ! 0)) M" and E: "escalonar_q4 M = Inr E"
    and e: "echelon (\<lambda>v. 1 / 10 ^ 10 < \<bar>v\<bar>) (length (M ! 0)) E"
    and lo: "set (list_of ({0..<length (M ! 0)} - set (achar_pivos_q4 E))) =
      {0..<length (M ! 0)} - set (achar_pivos_q4 E)"
  shows "\<exists>base. base_nucleo list_of M = Inr base \<and>
    list_all2 (\<lambda>v l. length v = length (M ! 0) \<and> kernel M v \<and>
      (\<forall>k<length (M ! 0). k \<notin> set (achar_pivos_q4 E) \<longrightarrow> v ! k = (if k = l then 1 else 0)))
      base (list_of ({0..<length (M ! 0)} - set (achar_pivos_q4 E)))"
proof -
  let ?c = "length (M ! 0)" and ?ls = "list_of ({0..<length (M ! 0)} - set (achar_pivos_q4 E))"
  have E': "escalonar M = Inr E" using E by (simp add: escalonar_q4_def)
  note k = escalonar_Inr[OF r E']
  have ne': "E \<noteq> []" using k ne by auto
  have "0 < length E" using ne' by simp
  then have c: "length (E ! 0) = ?c" using k by (simp add: rect_nth)
  have dv: "\<And>a b. 1 / 10 ^ 10 < \<bar>b\<bar> \<Longrightarrow> dv_q4 a b = Inr (a / b)" by (simp add: dv_q4_def)
  have nz: "\<And>b::real. 1 / 10 ^ 10 < \<bar>b\<bar> \<Longrightarrow> b \<noteq> 0" by auto
  have "\<forall>l\<in>set ?ls. \<exists>v. nucleo_vetor dv_q4 E (achar_pivos_q4 E) ?c l = Inr v \<and> length v = ?c \<and> kernel M v \<and>
      (\<forall>k<?c. k \<notin> set (achar_pivos_q4 E) \<longrightarrow> v ! k = (if k = l then 1 else 0))"
  proof
    fix l assume "l \<in> set ?ls"
    then have "l < ?c" using lo by auto
    from nucleo_vetor_kernel[OF e dv nz this, folded achar_pivos_q4_def]
    show "\<exists>v. nucleo_vetor dv_q4 E (achar_pivos_q4 E) ?c l = Inr v \<and> length v = ?c \<and> kernel M v \<and>
      (\<forall>k<?c. k \<notin> set (achar_pivos_q4 E) \<longrightarrow> v ! k = (if k = l then 1 else 0))"
      using k by blast
  qed
  then obtain base where b: "py_map (nucleo_vetor dv_q4 E (achar_pivos_q4 E) ?c) ?ls = Inr base"
    "list_all2 (\<lambda>v l. length v = ?c \<and> kernel M v \<and>
      (\<forall>k<?c. k \<notin> set (achar_pivos_q4 E) \<longrightarrow> v ! k = (if k = l then 1 else 0))) base ?ls"
    using py_map_Inr[where xs = ?ls and f = "nucleo_vetor dv_q4 E (achar_pivos_q4 E) ?c" and
      Q = "\<lambda>l v. length v = ?c \<and> kernel M v \<and>
        (\<forall>k<?c. k \<notin> set (achar_pivos_q4 E) \<longrightarrow> v ! k = (if k = l then 1 else 0))"] by blast
  have "base_nucleo list_of M = Inr base"
    using b(1) E ne' c by (simp add: base_nucleo_def Let_def)
  then show ?thesis using b(2) by blast
qed


lemma base_nucleo_kernel_witness:
  "base_nucleo (\<lambda>S. filter (\<lambda>k. k \<in> S) [0..<2]) [[-1, 1], [1, -1]] = Inr [[1, 1]] \<and>
   kernel [[-1, 1], [1, -1]] [1, 1]"
proof -
  have ne: "[[-1, 1], [1, -1::real]] \<noteq> []" by simp
  have r: "rect (length ([[-1, 1], [1, -1::real]] ! 0)) [[-1, 1], [1, -1]]" by (simp add: rect_def)
  have E: "escalonar_q4 [[-1, 1], [1, -1]] = Inr [[1, -1], [0, 0]]" by code_simp
  have e: "echelon (\<lambda>v. 1 / 10 ^ 10 < \<bar>v\<bar>) (length ([[-1, 1], [1, -1::real]] ! 0)) [[1, -1], [0, 0]]"
    by code_simp
  have lo: "set (filter (\<lambda>k. k \<in> {0..<length ([[-1, 1], [1, -1::real]] ! 0)} - set (achar_pivos_q4 [[1, -1], [0, 0]])) [0..<2]) =
      {0..<length ([[-1, 1], [1, -1::real]] ! 0)} - set (achar_pivos_q4 [[1, -1], [0, 0]])"
    by code_simp
  obtain base where b: "base_nucleo (\<lambda>S. filter (\<lambda>k. k \<in> S) [0..<2]) [[-1, 1], [1, -1]] = Inr base"
    "list_all2 (\<lambda>v l. length v = length ([[-1, 1], [1, -1::real]] ! 0) \<and> kernel [[-1, 1], [1, -1]] v \<and>
      (\<forall>k<length ([[-1, 1], [1, -1::real]] ! 0). k \<notin> set (achar_pivos_q4 [[1, -1], [0, 0]]) \<longrightarrow>
        v ! k = (if k = l then 1 else 0)))
      base (filter (\<lambda>k. k \<in> {0..<length ([[-1, 1], [1, -1::real]] ! 0)} - set (achar_pivos_q4 [[1, -1], [0, 0]])) [0..<2])"
    using base_nucleo_kernel[where list_of = "\<lambda>S. filter (\<lambda>k. k \<in> S) [0..<2]", OF ne r E e lo] by blast
  have c: "base_nucleo (\<lambda>S. filter (\<lambda>k. k \<in> S) [0..<2]) [[-1, 1], [1, -1]] = Inr [[1, 1]]" by code_simp
  have l: "filter (\<lambda>k. k \<in> {0..<length ([[-1, 1], [1, -1::real]] ! 0)} - set (achar_pivos_q4 [[1, -1], [0, 0]])) [0..<2] = [1]"
    by code_simp
  have "base = [[1, 1]]" using b(1) c by simp
  then have "kernel [[-1, 1], [1, -1]] [1, 1]" using b(2) l by simp
  then show ?thesis using c by simp
qed

text \<open>C32: the tolerances of \<open>algebra_q2.py\<close> disagree: \<open>escalonar\<close> skips a pivot below
  \<open>1e-10\<close> but \<open>achar_pivos\<close> takes every non-zero entry as a pivot.  On the invertible
  matrix \<open>[[1e-11, 1], [0, 1]]\<close> the pivot list is \<open>[0, 0]\<close> and the program returns the
  "kernel vector" \<open>[-1e11, 1]\<close>, which \<open>M\<close> maps to \<open>[0, 1]\<close>.\<close>

theorem nucleo_q2_tolerance_mismatch:
  "escalonar [[1 / 10 ^ 11, 1], [0, 1]] = Inr [[1 / 10 ^ 11, 1], [- 1 / 10 ^ 11, 0]] \<and>
   achar_pivos [[1 / 10 ^ 11, 1], [- 1 / 10 ^ 11, 0]] = [0, 0] \<and>
   nucleo_q2 (\<lambda>S. filter (\<lambda>k. k \<in> S) [0..<2]) [[1 / 10 ^ 11, 1], [0, 1]] = Inr ([[- (10 ^ 11), 1]], [1]) \<and>
   \<not> kernel [[1 / 10 ^ 11, 1], [0, 1]] [- (10 ^ 11), 1]"
proof (intro conjI)
  show "escalonar [[1 / 10 ^ 11, 1], [0, 1]] = Inr [[1 / 10 ^ 11, 1], [- 1 / 10 ^ 11, 0]]" by code_simp
  show "achar_pivos [[1 / 10 ^ 11, 1], [- 1 / 10 ^ 11, 0]] = [0, 0]" by code_simp
  show "nucleo_q2 (\<lambda>S. filter (\<lambda>k. k \<in> S) [0..<2]) [[1 / 10 ^ 11, 1], [0, 1]] = Inr ([[- (10 ^ 11), 1]], [1])"
    by code_simp
  show "\<not> kernel [[1 / 10 ^ 11, 1], [0, 1]] [- (10 ^ 11), 1]" by (simp add: kernel_def dot_def)
qed

end
