(* ===== verification/LinearSystem.thy ===== *)
theory LinearSystem
  imports KernelBasis
begin

text \<open>
  \<open>resolver_sistema(A, b)\<close> of \<open>src/AL-att/algebra_q3.py\<close> (lines 47--62): the augmented
  matrix \<open>[A | b]\<close> is brought to echelon form by \<open>escalonar\<close>, then solved from the last
  row up, taking the pivot of row \<open>i\<close> on the diagonal and skipping a row whose
  diagonal entry is below \<open>1e-10\<close>.  \<open>main\<close> (lines 86--94) writes the matrix of a
  linear map in the bases \<open>\<beta>\<close>, \<open>\<gamma>\<close> by solving one such system per image
  \<open>T(b_i)\<close>, with the vectors of \<open>\<gamma>\<close> as the columns of \<open>A\<close>.  That the computation
  never raises holds whatever the rounding; that it solves the systems is proved in
  exact arithmetic only.
\<close>

text \<open>\<open>M = [A[i] + [b[i]] for i in range(len(A))]\<close> (line 48).\<close>

definition augment :: "matrix \<Rightarrow> real list \<Rightarrow> matrix py" where
  "augment A b =
     (if length A \<le> length b then Inr (map (\<lambda>i. A ! i @ [b ! i]) [0..<length A]) else Inl IndexError)"

text \<open>One iteration of \<open>for i in reversed(range(linhas))\<close> (lines 55--60) on the row
  \<open>linha = M[i]\<close>: \<open>linha[i]\<close>, the reads \<open>linha[j]\<close> for \<open>j\<close> from \<open>i + 1\<close> to
  \<open>colunas - 1\<close>, then \<open>linha[-1]\<close> and the assignment \<open>x[i] = ...\<close>.\<close>

definition resolve_step :: "real list \<Rightarrow> nat \<Rightarrow> nat \<Rightarrow> real list \<Rightarrow> real list py" where
  "resolve_step linha colunas i x =
     (if i < length linha then
        (if \<bar>linha ! i\<bar> < 1 / 10 ^ 10 then Inr x
         else if Suc i < colunas \<longrightarrow> colunas \<le> length linha then
           (let soma = sum_list (map (\<lambda>j. linha ! j * x ! j) [Suc i..<colunas])
            in py_bind (py_div (last linha - soma) (linha ! i)) (\<lambda>xi.
                 if i < colunas then Inr (x[i := xi]) else Inl IndexError))
         else Inl IndexError)
      else Inl IndexError)"

definition resolver_sistema :: "matrix \<Rightarrow> real list \<Rightarrow> real list py" where
  "resolver_sistema A b =
     py_bind (augment A b) (\<lambda>M0. py_bind (escalonar_q3 M0) (\<lambda>M.
       if A = [] then Inl IndexError
       else (let linhas = length A; colunas = length (A ! 0)
             in py_fold (\<lambda>i x. if i < length M then resolve_step (M ! i) colunas i x else Inl IndexError)
                  (rev [0..<linhas]) (replicate colunas 0))))"

text \<open>Lines 86--94 of \<open>main\<close>: \<open>A[linha][col] = gama[col][linha]\<close> and one system per
  image \<open>Tb[i]\<close>; the coefficients of \<open>T(b_i)\<close> are the \<open>i\<close>-th entry of \<open>matriz_T\<close>.\<close>

definition matriz_gama :: "nat \<Rightarrow> matrix \<Rightarrow> matrix py" where
  "matriz_gama m gama =
     (if m \<le> length gama \<and> list_all (\<lambda>col. m \<le> length (gama ! col)) [0..<m]
      then Inr (map (\<lambda>linha. map (\<lambda>col. gama ! col ! linha) [0..<m]) [0..<m]) else Inl IndexError)"

definition matriz_T :: "nat \<Rightarrow> nat \<Rightarrow> matrix \<Rightarrow> matrix \<Rightarrow> matrix py" where
  "matriz_T n m gama Tb =
     py_bind (matriz_gama m gama) (\<lambda>A.
       if n \<le> length Tb then py_map (\<lambda>i. resolver_sistema A (Tb ! i)) [0..<n] else Inl IndexError)"

text \<open>Upper triangular with every diagonal entry at or above the tolerance: what the
  back substitution of \<open>resolver_sistema\<close> needs of the eliminated system.\<close>

definition upper_tri :: "nat \<Rightarrow> matrix \<Rightarrow> bool" where
  "upper_tri n E \<longleftrightarrow> n \<le> length E \<and>
     list_all (\<lambda>i. 1 / 10 ^ 10 \<le> \<bar>E ! i ! i\<bar> \<and> list_all (\<lambda>k. E ! i ! k = 0) [0..<i]) [0..<n]"

subsection \<open>The back substitution is the one of the kernel basis\<close>

text \<open>Solving row \<open>i\<close> for \<open>x[i]\<close> is the step of \<open>back_step\<close> on the augmented
  vector \<open>x @ [-1]\<close> with the pivots on the diagonal, so the lemma \<open>back_subst\<close>
  proved for the kernel basis applies.\<close>

lemma dot_append: "length r = length x \<Longrightarrow> dot (r @ [a]) (x @ [c]) = dot r x + a * c"
  by (simp add: dot_def)

lemma resolve_step_back_step:
  assumes r: "rect (Suc n) E" "n \<le> length E" and i: "i < n" and t: "1 / 10 ^ 10 \<le> \<bar>E ! i ! i\<bar>"
    and x: "length x = n"
  shows "\<exists>y. resolve_step (E ! i) n i x = Inr y \<and>
    back_step py_div E [0..<n] (Suc n) i (x @ [-1]) = Inr (y @ [-1])"
proof -
  let ?soma = "sum_list (map (\<lambda>j. E ! i ! j * x ! j) [Suc i..<n])"
  let ?y = "x[i := (last (E ! i) - ?soma) / E ! i ! i]"
  have l: "length (E ! i) = Suc n" using r i by (simp add: rect_nth)
  have nz: "E ! i ! i \<noteq> 0" using t by auto
  have "resolve_step (E ! i) n i x = Inr ?y" using l i t nz by (simp add: resolve_step_def Let_def py_div_def)
  moreover have "[Suc i..<Suc n] = [Suc i..<n] @ [n]" using i by simp
  moreover have "(\<Sum>k\<leftarrow>[Suc i..<n]. E ! i ! k * (x @ [-1]) ! k) = (\<Sum>j\<leftarrow>[Suc i..<n]. E ! i ! j * x ! j)"
    by (rule arg_cong[where f = sum_list], rule map_cong) (simp_all add: nth_append x)
  moreover have "(x @ [-1]) ! n = -1" using x by (simp add: nth_append)
  moreover have "last (E ! i) = E ! i ! n" using l last_conv_nth[of "E ! i"] by force
  moreover have "(x @ [-1])[i := v] = x[i := v] @ [-1]" for v using x i by (simp add: list_update_append1)
  ultimately have "back_step py_div E [0..<n] (Suc n) i (x @ [-1]) = Inr (?y @ [-1])"
    using l i r(2) x nz by (simp add: back_step_def Let_def py_div_def)
  then show ?thesis using \<open>resolve_step (E ! i) n i x = Inr ?y\<close> by blast
qed


lemma resolve_fold:
  assumes r: "rect (Suc n) E" "n \<le> length E" and js: "\<forall>i\<in>set js. i < n \<and> 1 / 10 ^ 10 \<le> \<bar>E ! i ! i\<bar>"
  shows "length x = n \<Longrightarrow> py_fold (back_step py_div E [0..<n] (Suc n)) js (x @ [-1]) = Inr v \<Longrightarrow>
    \<exists>y. py_fold (\<lambda>i x. if i < length E then resolve_step (E ! i) n i x else Inl IndexError) js x = Inr y \<and>
      v = y @ [-1]"
  using js
proof (induction js arbitrary: x)
  case (Cons i js)
  then have i: "i < n" "1 / 10 ^ 10 \<le> \<bar>E ! i ! i\<bar>" by auto
  obtain y where y: "resolve_step (E ! i) n i x = Inr y" "back_step py_div E [0..<n] (Suc n) i (x @ [-1]) = Inr (y @ [-1])"
    using resolve_step_back_step[OF r i(1) i(2) Cons.prems(1)] by blast
  have "length y = n" using y(1) Cons.prems(1) i r
    by (auto simp: resolve_step_def Let_def rect_nth py_div_def split: if_splits)
  then show ?case using Cons.IH[of y] Cons.prems y i r(2) by simp
qed simp

lemma upper_tri_nth:
  "upper_tri n E \<longleftrightarrow> n \<le> length E \<and> (\<forall>i<n. 1 / 10 ^ 10 \<le> \<bar>E ! i ! i\<bar> \<and> (\<forall>k<i. E ! i ! k = 0))"
  by (simp add: upper_tri_def list_all_iff atLeast0LessThan lessThan_def)

subsection \<open>Solutions\<close>

text \<open>A square system whose elimination ends upper triangular, with each diagonal
  entry at or above the tolerance, is solved: \<open>A x = b\<close>.  The proof composes the
  kernel preservation of \<open>escalonar\<close> (on the vector \<open>x @ [-1]\<close>) with the back
  substitution.\<close>

lemma resolver_sistema_solves:
  assumes sq: "square n A" and n: "0 < n" and b: "length b = n"
    and E: "escalonar_q3 (map (\<lambda>i. A ! i @ [b ! i]) [0..<n]) = Inr E" and u: "upper_tri n E"
  shows "\<exists>x. resolver_sistema A b = Inr x \<and> length x = n \<and> (\<forall>i<n. dot (A ! i) x = b ! i)"
proof -
  define M0 where "M0 = map (\<lambda>i. A ! i @ [b ! i]) [0..<n]"
  have lA: "length A = n" "\<And>i. i < n \<Longrightarrow> length (A ! i) = n" using sq by (auto simp: square_def list_all_length)
  have aug: "augment A b = Inr M0" using lA b unfolding M0_def augment_def by simp
  have c0: "length (M0 ! 0) = Suc n" using lA n unfolding M0_def by simp
  have rM: "rect (length (M0 ! 0)) M0" using lA unfolding c0 unfolding M0_def by (simp add: rect_nth)
  have E': "escalonar M0 = Inr E" using E unfolding M0_def escalonar_q3_def .
  note k = escalonar_Inr[OF rM E']
  have lE: "length E = n" and rE: "rect (Suc n) E" using k c0 unfolding M0_def by simp_all
  note ut = u[unfolded upper_tri_nth]
  have dv: "\<And>a b. 1 / 10 ^ 10 \<le> \<bar>b\<bar> \<Longrightarrow> py_div a b = Inr (a / b)" by (auto simp: py_div_def)
  have nz: "\<And>b::real. 1 / 10 ^ 10 \<le> \<bar>b\<bar> \<Longrightarrow> b \<noteq> 0" by auto
  have piv: "\<And>i. i < length [0..<n] \<Longrightarrow> [0..<n] ! i < Suc n \<and> 1 / 10 ^ 10 \<le> \<bar>E ! i ! ([0..<n] ! i)\<bar> \<and>
      (\<forall>k < [0..<n] ! i. E ! i ! k = 0)" using ut by simp
  obtain v where v: "py_fold (back_step py_div E [0..<n] (Suc n)) (rev [0..<n]) (replicate n 0 @ [-1]) = Inr v"
    "length v = Suc n" "\<forall>i<n. dot (E ! i) v = 0"
    using back_subst[where pivos = "[0..<n]" and esc = E and c = "Suc n" and dv = py_div and m = n and
      v = "replicate n 0 @ [-1]", OF _ rE piv _ dv nz] lE by auto
  obtain y where y: "py_fold (\<lambda>i x. if i < length E then resolve_step (E ! i) n i x else Inl IndexError)
      (rev [0..<n]) (replicate n 0) = Inr y" "v = y @ [-1]"
    using resolve_fold[OF rE, of "rev [0..<n]" "replicate n 0" v] lE ut v(1) by auto
  have ly: "length y = n" using y(2) v(2) by simp
  have "kernel E v" using v(3) lE by (simp add: kernel_nth)
  then have "kernel M0 v" using k v(2) c0 by simp
  then have "dot (A ! i) y = b ! i" if "i < n" for i
    using that lA ly dot_append[of "A ! i" y "b ! i" "-1"] y(2) unfolding M0_def by (simp add: kernel_nth)
  moreover have "A \<noteq> []" using lA(1) n by auto
  then have "resolver_sistema A b = Inr y"
    using aug E y(1) lA n unfolding M0_def[symmetric] by (simp add: resolver_sistema_def Let_def)
  ultimately show ?thesis using ly by blast
qed


lemma matriz_gama_Inr:
  assumes "square m gama" "matriz_gama m gama = Inr A"
  shows "square m A \<and> (\<forall>r<m. \<forall>col<m. A ! r ! col = gama ! col ! r)"
  using assms by (auto simp: matriz_gama_def square_def list_all_length split: if_splits)

lemma dot_sum: "length r = m \<Longrightarrow> length x = m \<Longrightarrow> dot r x = (\<Sum>k<m. r ! k * x ! k)"
  by (simp add: dot_nth)

text \<open>In exact arithmetic the matrix \<open>main\<close> prints holds coordinates: when every system
  is solved as above, the \<open>i\<close>-th list of \<open>matriz_T\<close> combines the vectors of \<open>\<gamma>\<close> into
  \<open>T(b_i)\<close>.\<close>

lemma matriz_T_coordinates:
  assumes g: "square m gama" and m: "0 < m" and A: "matriz_gama m gama = Inr A"
    and T: "n \<le> length Tb" "\<forall>i<n. length (Tb ! i) = m"
    and E: "\<forall>i<n. \<exists>E. escalonar_q3 (map (\<lambda>r. A ! r @ [Tb ! i ! r]) [0..<m]) = Inr E \<and> upper_tri m E"
  shows "\<exists>C. matriz_T n m gama Tb = Inr C \<and> length C = n \<and>
    (\<forall>i<n. length (C ! i) = m \<and> (\<forall>r<m. (\<Sum>col<m. C ! i ! col * gama ! col ! r) = Tb ! i ! r))"
proof -
  note a = matriz_gama_Inr[OF g A]
  have "\<forall>i\<in>set [0..<n]. \<exists>x. resolver_sistema A (Tb ! i) = Inr x \<and>
      (length x = m \<and> (\<forall>r<m. (\<Sum>col<m. x ! col * gama ! col ! r) = Tb ! i ! r))"
  proof
    fix i assume "i \<in> set [0..<n]"
    then have i: "i < n" by simp
    obtain E where "escalonar_q3 (map (\<lambda>r. A ! r @ [Tb ! i ! r]) [0..<m]) = Inr E" "upper_tri m E"
      using E i by blast
    then obtain x where x: "resolver_sistema A (Tb ! i) = Inr x" "length x = m" "\<forall>r<m. dot (A ! r) x = Tb ! i ! r"
      using resolver_sistema_solves[OF conjunct1[OF a] m, of "Tb ! i" E] T(2) i by auto
    have "(\<Sum>col<m. x ! col * gama ! col ! r) = Tb ! i ! r" if r: "r < m" for r
    proof -
      have "length (A ! r) = m" using a r by (simp add: square_def list_all_length)
      then have "dot (A ! r) x = (\<Sum>col<m. x ! col * gama ! col ! r)"
        using x(2) a r by (simp add: dot_sum mult.commute)
      then show ?thesis using x(3) r by simp
    qed
    then show "\<exists>x. resolver_sistema A (Tb ! i) = Inr x \<and>
      (length x = m \<and> (\<forall>r<m. (\<Sum>col<m. x ! col * gama ! col ! r) = Tb ! i ! r))" using x by blast
  qed
  then obtain C where C: "py_map (\<lambda>i. resolver_sistema A (Tb ! i)) [0..<n] = Inr C"
    "list_all2 (\<lambda>x i. length x = m \<and> (\<forall>r<m. (\<Sum>col<m. x ! col * gama ! col ! r) = Tb ! i ! r)) C [0..<n]"
    using py_map_Inr[where xs = "[0..<n]" and f = "\<lambda>i. resolver_sistema A (Tb ! i)" and
      Q = "\<lambda>i x. length x = m \<and> (\<forall>r<m. (\<Sum>col<m. x ! col * gama ! col ! r) = Tb ! i ! r)"] by blast
  have "matriz_T n m gama Tb = Inr C" using A T(1) C(1) by (simp add: matriz_T_def)
  moreover have "length C = n" using list_all2_lengthD[OF C(2)] by simp
  moreover have "\<forall>i<n. length (C ! i) = m \<and> (\<forall>r<m. (\<Sum>col<m. C ! i ! col * gama ! col ! r) = Tb ! i ! r)"
    using C(2) by (simp add: list_all2_conv_all_nth)
  ultimately show ?thesis by blast
qed


lemma matriz_T_coordinates_witness:
  "matriz_T 2 2 [[1, 0], [1, 1]] [[2, 1], [0, 3]] = Inr [[1, 1], [-3, 3]] \<and>
   (\<Sum>col<2. [[1, 1], [-3, 3::real]] ! 1 ! col * [[1, 0], [1, 1::real]] ! col ! 1) = 3"
proof -
  have g: "square 2 [[1, 0], [1, 1::real]]" by (simp add: square_def)
  have A: "matriz_gama 2 [[1, 0], [1, 1]] = Inr [[1, 1], [0, 1]]" by code_simp
  have T: "2 \<le> length [[2, 1], [0, 3::real]]" "\<forall>i<2. length ([[2, 1], [0, 3::real]] ! i) = 2"
    by (simp_all add: numeral_2_eq_2 less_Suc_eq)
  have e0: "escalonar_q3 (map (\<lambda>r. [[1, 1], [0, 1]] ! r @ [[[2, 1], [0, 3]] ! 0 ! r]) [0..<2]) = Inr [[1, 1, 2], [0, 1, 1]]"
    by code_simp
  have e1: "escalonar_q3 (map (\<lambda>r. [[1, 1], [0, 1]] ! r @ [[[2, 1], [0, 3]] ! 1 ! r]) [0..<2]) = Inr [[1, 1, 0], [0, 1, 3]]"
    by code_simp
  have u: "upper_tri 2 [[1, 1, 2], [0, 1, 1]]" "upper_tri 2 [[1, 1, 0], [0, 1, 3]]" by code_simp+
  have E: "\<forall>i<2. \<exists>E. escalonar_q3 (map (\<lambda>r. [[1, 1], [0, 1]] ! r @ [[[2, 1], [0, 3]] ! i ! r]) [0..<2]) = Inr E \<and>
      upper_tri 2 E"
  proof (intro allI impI)
    fix i :: nat assume "i < 2"
    then consider "i = 0" | "i = 1" by linarith
    then show "\<exists>E. escalonar_q3 (map (\<lambda>r. [[1, 1], [0, 1]] ! r @ [[[2, 1], [0, 3]] ! i ! r]) [0..<2]) = Inr E \<and>
      upper_tri 2 E" using e0 e1 u by cases blast+
  qed
  obtain C where C: "matriz_T 2 2 [[1, 0], [1, 1]] [[2, 1], [0, 3]] = Inr C"
    "\<forall>i<2. length (C ! i) = 2 \<and> (\<forall>r<2. (\<Sum>col<2. C ! i ! col * [[1, 0], [1, 1::real]] ! col ! r) = [[2, 1], [0, 3::real]] ! i ! r)"
    using matriz_T_coordinates[OF g _ A T E] by auto
  have c: "matriz_T 2 2 [[1, 0], [1, 1]] [[2, 1], [0, 3]] = Inr [[1, 1], [-3, 3]]" by code_simp
  then have "C = [[1, 1], [-3, 3]]" using C(1) by simp
  moreover have "(\<Sum>col<2. C ! 1 ! col * [[1, 0], [1, 1::real]] ! col ! 1) = [[2, 1], [0, 3::real]] ! 1 ! 1"
    using C(2)[rule_format, of 1] by simp
  ultimately have "(\<Sum>col<2. [[1, 1], [-3, 3::real]] ! 1 ! col * [[1, 0], [1, 1::real]] ! col ! 1) = 3"
    by simp
  then show ?thesis using c by simp
qed

subsection \<open>The computation of \<open>main\<close> never raises\<close>

lemma escalonar_q3_shape:
  assumes "M \<noteq> []" "rect (length (M ! 0)) M"
  shows "\<exists>E. escalonar_q3 M = Inr E \<and> length E = length M \<and> rect (length (M ! 0)) E"
proof -
  obtain E p where f: "py_fold (escalonar_step (length M) (length (M ! 0))) [0..<length (M ! 0)] (M, 0) = Inr (E, p)"
    using py_fold_escalonar_ok[OF assms(2), of "length M" "[0..<length (M ! 0)]" 0] by auto
  then show ?thesis using py_fold_escalonar_kernel[OF assms(2) refl f] assms(1)
    by (simp add: escalonar_q3_def escalonar_def)
qed

lemma resolve_loop_total:
  assumes r: "rect (Suc n) E" "n \<le> length E"
  shows "length x = n \<Longrightarrow> \<forall>i\<in>set js. i < n \<Longrightarrow>
    \<exists>y. py_fold (\<lambda>i x. if i < length E then resolve_step (E ! i) n i x else Inl IndexError) js x = Inr y \<and>
      length y = n"
proof (induction js arbitrary: x)
  case (Cons i js)
  then have i: "i < n" by simp
  have l: "length (E ! i) = Suc n" using r i by (simp add: rect_nth)
  have "\<exists>x1. resolve_step (E ! i) n i x = Inr x1 \<and> length x1 = n"
    using l i Cons.prems(1) by (auto simp: resolve_step_def Let_def py_div_def)
  then obtain x1 where "resolve_step (E ! i) n i x = Inr x1" "length x1 = n" by blast
  then show ?case using Cons.IH[of x1] Cons.prems(2) i r(2) by simp
qed simp

lemma resolver_sistema_total:
  assumes sq: "square n A" and n: "0 < n" and b: "n \<le> length b"
  shows "\<exists>x. resolver_sistema A b = Inr x \<and> length x = n"
proof -
  define M0 where "M0 = map (\<lambda>i. A ! i @ [b ! i]) [0..<n]"
  have lA: "length A = n" "\<And>i. i < n \<Longrightarrow> length (A ! i) = n" using sq by (auto simp: square_def list_all_length)
  have aug: "augment A b = Inr M0" using lA b unfolding M0_def augment_def by simp
  have c0: "length (M0 ! 0) = Suc n" using lA n unfolding M0_def by simp
  have rM: "rect (length (M0 ! 0)) M0" using lA unfolding c0 unfolding M0_def by (simp add: rect_nth)
  have ne: "M0 \<noteq> []" using n unfolding M0_def by simp
  obtain E where E: "escalonar_q3 M0 = Inr E" "length E = n" "rect (Suc n) E"
    using escalonar_q3_shape[OF ne rM] c0 unfolding M0_def by auto
  obtain y where y: "py_fold (\<lambda>i x. if i < length E then resolve_step (E ! i) n i x else Inl IndexError)
      (rev [0..<n]) (replicate n 0) = Inr y" "length y = n"
    using resolve_loop_total[OF E(3), of "replicate n 0" "rev [0..<n]"] E(2) by auto
  have "A \<noteq> []" using lA(1) n by auto
  then have "resolver_sistema A b = Inr y"
    using aug E(1) y(1) lA n by (simp add: resolver_sistema_def Let_def)
  then show ?thesis using y(2) by blast
qed

text \<open>C31: for every square matrix \<open>\<gamma>\<close> of size at least 1 and images of the right
  length, the computation of \<open>main\<close> raises nothing and returns one list of \<open>m\<close>
  coefficients per image: every index read exists, and the only division is by a
  diagonal entry of absolute value at least \<open>1e-10\<close>.  This holds for the
  floating-point program as it does here, also when \<open>\<gamma>\<close> is not a basis: the zero
  matrix gives the coefficients 0 without an error.\<close>

theorem matriz_T_total:
  assumes g: "square m gama" and m: "0 < m" and T: "n \<le> length Tb" "\<forall>i<n. m \<le> length (Tb ! i)"
  shows "\<exists>C. matriz_T n m gama Tb = Inr C \<and> length C = n \<and> (\<forall>i<n. length (C ! i) = m)"
proof -
  obtain A where A: "matriz_gama m gama = Inr A"
    using g by (auto simp: matriz_gama_def square_def list_all_length)
  have sA: "square m A" using matriz_gama_Inr[OF g A] by blast
  have "\<forall>i\<in>set [0..<n]. \<exists>x. resolver_sistema A (Tb ! i) = Inr x \<and> length x = m"
    using resolver_sistema_total[OF sA m] T(2) by auto
  then obtain C where C: "py_map (\<lambda>i. resolver_sistema A (Tb ! i)) [0..<n] = Inr C"
    "list_all2 (\<lambda>x i. length x = m) C [0..<n]"
    using py_map_Inr[where xs = "[0..<n]" and f = "\<lambda>i. resolver_sistema A (Tb ! i)" and
      Q = "\<lambda>i x. length x = m"] by blast
  have "matriz_T n m gama Tb = Inr C" using A T(1) C(1) by (simp add: matriz_T_def)
  then show ?thesis using C(2) by (auto simp: list_all2_conv_all_nth)
qed

lemma matriz_T_total_witness:
  "matriz_T 1 2 [[0, 0], [0, 0]] [[1, 1]] = Inr [[0, 0]] \<and> length [[0, 0::real]] = 1"
proof -
  have g: "square 2 [[0, 0], [0, 0::real]]" by (simp add: square_def)
  have T: "1 \<le> length [[1, 1::real]]" "\<forall>i<1. 2 \<le> length ([[1, 1::real]] ! i)" by simp_all
  obtain C where "matriz_T 1 2 [[0, 0], [0, 0]] [[1, 1]] = Inr C" "length C = 1"
    using matriz_T_total[OF g _ T] by auto
  moreover have "matriz_T 1 2 [[0, 0], [0, 0]] [[1, 1]] = Inr [[0, 0]]" by code_simp
  ultimately show ?thesis by simp
qed

subsection \<open>The tolerance\<close>

text \<open>C33: the tolerance of \<open>resolver_sistema\<close> drops an equation: the system
  \<open>1e-11 x = 1\<close> has the solution \<open>1e11\<close>, but the function returns \<open>[0]\<close> without an
  error, and \<open>0\<close> does not solve it.\<close>

theorem resolver_sistema_tolerance:
  "dot [1 / 10 ^ 11] [10 ^ 11] = 1 \<and> resolver_sistema [[1 / 10 ^ 11]] [1] = Inr [0] \<and>
   dot [1 / 10 ^ 11] [0] \<noteq> 1"
proof (intro conjI)
  show "resolver_sistema [[1 / 10 ^ 11]] [1] = Inr [0]" by code_simp
qed simp_all

text \<open>The pivot of row \<open>i\<close> is read at column \<open>i\<close>: when elimination puts it elsewhere
  the system is not solved either.  \<open>x_2 = 1\<close> twice has the solution \<open>[0, 1]\<close>, but the
  first column is zero, both diagonal entries are 0 and the function returns \<open>[0, 0]\<close>.\<close>

lemma resolver_sistema_offdiagonal:
  "dot [0, 1] [0, 1] = 1 \<and> resolver_sistema [[0, 1], [0, 1]] [1, 1] = Inr [0, 0] \<and> dot [0, 1] [0, 0] \<noteq> 1"
proof (intro conjI)
  show "resolver_sistema [[0, 1], [0, 1]] [1, 1] = Inr [0, 0]" by code_simp
qed simp_all

end
