(* ===== verification/Eigen.thy ===== *)
theory Eigen
  imports KernelBasis
begin

text \<open>
  The eigenvalue loop of \<open>main\<close> in \<open>src/AL-att/algebra_q4.py\<close> (lines 155--189):
  the characteristic polynomial, its roots for a 2\<times>2 matrix (for a 3\<times>3 matrix the
  candidate eigenvalues \<open>teste\<close> are read from the user), and for each candidate
  \<open>\<lambda>\<close> the basis of the kernel of \<open>A - \<lambda>I\<close>.  The prints are left out; the result is
  the list of pairs \<open>(\<lambda>, base)\<close> the loop prints, or \<open>None\<close> when \<open>main\<close> returns early
  on a size other than 2 and 3.
\<close>

definition autoespacos :: "(nat set \<Rightarrow> nat list) \<Rightarrow> matrix \<Rightarrow> real list \<Rightarrow> (real \<times> matrix) list option py" where
  "autoespacos list_of A teste =
     py_bind (polinomio_caracteristico A) (\<lambda>coef.
       case coef of
         None \<Rightarrow> Inr None
       | Some cs \<Rightarrow>
           py_bind (if length A = 2 then resolver_quadratica (cs ! 0) (cs ! 1) (cs ! 2) else Inr teste) (\<lambda>lambdas.
             py_bind (py_map (\<lambda>lamb. py_bind (subtrair_lambdaI A lamb) (\<lambda>M.
                                py_bind (base_nucleo list_of M) (\<lambda>base. Inr (lamb, base)))) lambdas)
               (\<lambda>r. Inr (Some r))))"

subsection \<open>Eigenvectors\<close>

lemma py_map_Inr_elem: "py_map f xs = Inr ys \<Longrightarrow> y \<in> set ys \<Longrightarrow> \<exists>x\<in>set xs. f x = Inr y"
proof (induction xs arbitrary: ys)
  case (Cons x xs)
  then show ?case by (auto split: sum.splits simp: py_bind_def)
qed simp

lemma subtrair_lambdaI_square:
  "square n A \<Longrightarrow> subtrair_lambdaI A lamb =
     Inr (map (\<lambda>i. map (\<lambda>j. A ! i ! j - (if i = j then lamb else 0)) [0..<n]) [0..<n])"
  by (simp add: subtrair_lambdaI_def entries_square square_def)

lemma dot_sub_diag:
  assumes "length r = n" "length v = n" "i < n"
  shows "dot (map (\<lambda>j. r ! j - (if i = j then lamb else 0)) [0..<n]) v = dot r v - lamb * v ! i"
proof -
  have "dot (map (\<lambda>j. r ! j - (if i = j then lamb else 0)) [0..<n]) v =
      (\<Sum>j<n. r ! j * v ! j) - (\<Sum>j<n. (if i = j then lamb else 0) * v ! j)"
    using assms by (simp add: dot_nth algebra_simps sum_subtractf)
  also have "(\<Sum>j<n. (if i = j then lamb else 0) * v ! j) = (\<Sum>j<n. if j = i then lamb * v ! i else 0)"
    by (rule sum.cong) auto
  also have "\<dots> = lamb * v ! i" using assms(3) by simp
  finally show ?thesis using assms by (simp add: dot_nth)
qed

text \<open>In exact arithmetic, every vector the eigenvalue loop prints for a candidate \<open>\<lambda>\<close> is an
  eigenvector: \<open>A v = \<lambda> v\<close>, when the elimination of \<open>A - \<lambda>I\<close> ends in echelon form.
  The proof composes \<open>subtrair_lambdaI\<close>, the kernel preservation of \<open>escalonar\<close> and
  the back substitution of \<open>base_nucleo\<close>; it holds for the roots \<open>resolver_quadratica\<close>
  returns and for the values the user types for a 3\<times>3 matrix alike.\<close>

lemma autoespacos_eigenvectors:
  assumes sq: "square n A" and n: "0 < n"
    and lo: "\<forall>S \<subseteq> {0..<n}. set (list_of S) = S"
    and r: "autoespacos list_of A teste = Inr (Some r)"
    and e: "\<forall>(lamb, base) \<in> set r. \<forall>E.
      escalonar_q4 (map (\<lambda>i. map (\<lambda>j. A ! i ! j - (if i = j then lamb else 0)) [0..<n]) [0..<n]) = Inr E \<longrightarrow>
      echelon (\<lambda>v. 1 / 10 ^ 10 < \<bar>v\<bar>) n E"
  shows "\<forall>(lamb, base) \<in> set r. \<forall>v \<in> set base. length v = n \<and> (\<forall>i<n. dot (A ! i) v = lamb * v ! i)"
proof (intro ballI, clarify)
  fix lamb base v assume lb: "(lamb, base) \<in> set r" and v: "v \<in> set base"
  define M where "M = map (\<lambda>i. map (\<lambda>j. A ! i ! j - (if i = j then lamb else 0)) [0..<n]) [0..<n]"
  obtain lambdas where
    "py_map (\<lambda>lamb. py_bind (subtrair_lambdaI A lamb) (\<lambda>M.
        py_bind (base_nucleo list_of M) (\<lambda>base. Inr (lamb, base)))) lambdas = Inr r"
    using r by (auto simp: autoespacos_def py_bind_def split: sum.splits option.splits)
  from py_map_Inr_elem[OF this lb] obtain l where
    "py_bind (subtrair_lambdaI A l) (\<lambda>M. py_bind (base_nucleo list_of M) (\<lambda>base. Inr (l, base))) = Inr (lamb, base)"
    by blast
  then have bn: "base_nucleo list_of M = Inr base"
    unfolding subtrair_lambdaI_square[OF sq] M_def by (auto simp: py_bind_def split: sum.splits)
  then obtain E where E: "escalonar_q4 M = Inr E"
    by (cases "escalonar_q4 M") (auto simp: base_nucleo_def)
  have lM: "length M = n" "\<And>i. i < n \<Longrightarrow> length (M ! i) = n" unfolding M_def by simp_all
  have ne: "M \<noteq> []" using lM n by auto
  have c: "length (M ! 0) = n" using lM n by simp
  have rM: "rect (length (M ! 0)) M" using lM c by (simp add: rect_nth)
  have ech: "echelon (\<lambda>v. 1 / 10 ^ 10 < \<bar>v\<bar>) (length (M ! 0)) E" using e lb E c unfolding M_def by auto
  have los: "set (list_of ({0..<length (M ! 0)} - set (achar_pivos_q4 E))) =
      {0..<length (M ! 0)} - set (achar_pivos_q4 E)" using lo c by auto
  obtain base' where b': "base_nucleo list_of M = Inr base'"
    "list_all2 (\<lambda>v l. length v = length (M ! 0) \<and> kernel M v \<and>
      (\<forall>k<length (M ! 0). k \<notin> set (achar_pivos_q4 E) \<longrightarrow> v ! k = (if k = l then 1 else 0)))
      base' (list_of ({0..<length (M ! 0)} - set (achar_pivos_q4 E)))"
    using base_nucleo_kernel[where list_of = list_of, OF ne rM E ech los] by blast
  have "base' = base" using b'(1) bn by simp
  then have lv: "length v = n" and kv: "kernel M v" using b'(2) v c by (auto simp: list_all2_conv_all_nth in_set_conv_nth)
  have "dot (A ! i) v = lamb * v ! i" if i: "i < n" for i
  proof -
    have "dot (M ! i) v = 0" using kv i lM by (simp add: kernel_nth)
    moreover have "length (A ! i) = n" using sq i by (simp add: square_def list_all_length)
    ultimately show ?thesis using dot_sub_diag[of "A ! i" n v i lamb] lv i unfolding M_def by simp
  qed
  then show "length v = n \<and> (\<forall>i<n. dot (A ! i) v = lamb * v ! i)" using lv by blast
qed


lemma autoespacos_eigenvectors_witness:
  "autoespacos (\<lambda>S. filter (\<lambda>k. k \<in> S) [0..<3]) [[2, 0, 0], [0, 3, 0], [0, 0, 3]] [3]
     = Inr (Some [(3, [[0, 1, 0], [0, 0, 1]])]) \<and>
   dot ([[2, 0, 0], [0, 3, 0], [0, 0, 3]] ! 1) [0, 0, 1] = 3 * [0, 0, 1] ! 1"
proof -
  let ?A = "[[2, 0, 0], [0, 3, 0], [0, 0, 3::real]]" and ?L = "\<lambda>S. filter (\<lambda>k. k \<in> S) [0..<3::nat]"
  have sq: "square 3 ?A" by (simp add: square_def)
  have lo: "\<forall>S \<subseteq> {0..<3}. set (?L S) = S" by auto
  have p: "polinomio_caracteristico ?A = Inr (Some [1, -8, 21, -18])" by code_simp
  have s: "subtrair_lambdaI ?A 3 = Inr [[-1, 0, 0], [0, 0, 0], [0, 0, 0]]" by code_simp
  have b: "base_nucleo ?L [[-1, 0, 0], [0, 0, 0], [0, 0, 0]] = Inr [[0, 1, 0], [0, 0, 1]]" by code_simp
  have r: "autoespacos ?L ?A [3] = Inr (Some [(3, [[0, 1, 0], [0, 0, 1]])])"
    by (simp add: autoespacos_def p s b)
  have m: "map (\<lambda>i. map (\<lambda>j. ?A ! i ! j - (if i = j then 3 else 0)) [0..<3]) [0..<3] =
      [[-1, 0, 0], [0, 0, 0], [0, 0, 0]]" by code_simp
  have es: "escalonar_q4 [[-1, 0, 0], [0, 0, 0], [0, 0, 0]] = Inr [[1, 0, 0], [0, 0, 0], [0, 0, 0]]" by code_simp
  have ec: "echelon (\<lambda>v. 1 / 10 ^ 10 < \<bar>v\<bar>) 3 [[1, 0, 0], [0, 0, 0], [0, 0, 0]]" by code_simp
  have e: "\<forall>(lamb, base) \<in> set [(3::real, [[0, 1, 0], [0, 0, 1::real]])]. \<forall>E.
      escalonar_q4 (map (\<lambda>i. map (\<lambda>j. ?A ! i ! j - (if i = j then lamb else 0)) [0..<3]) [0..<3]) = Inr E \<longrightarrow>
      echelon (\<lambda>v. 1 / 10 ^ 10 < \<bar>v\<bar>) 3 E"
    using es ec by (simp only: m set_simps ball_simps prod.case) simp
  have "\<forall>(lamb, base) \<in> set [(3::real, [[0, 1, 0], [0, 0, 1::real]])]. \<forall>v \<in> set base.
      length v = 3 \<and> (\<forall>i<3. dot (?A ! i) v = lamb * v ! i)"
    using autoespacos_eigenvectors[OF sq _ lo r e] by simp
  then have "dot (?A ! 1) [0, 0, 1] = 3 * [0, 0, 1::real] ! 1" by simp
  then show ?thesis using r by simp
qed

end
