(* ===== verification/Spec2Isabelle.thy ===== *)
theory Spec2Isabelle
  imports Instructions Pass1 Pass2 Serializer AlgebraQ1 AlgebraQ4 KernelBasis LinearSystem Eigen
begin

text \<open>
  A verification library for the two-pass RV32I assembler \<open>src/Arq-ass/aRVA.py\<close>.

  \<^bold>\<open>The program.\<close> \<open>assemble(lines)\<close> runs two passes over the source lines.  Pass 1
  classifies each line with \<open>parse_line\<close>, binds labels to the cursor of the current
  section (text from \<open>TEXT_BASE = 0x00400000\<close>, data from \<open>DATA_BASE = 0x10010000\<close>),
  turns data directives into byte, half-word and word items and records every text
  instruction with its address.  Pass 2 writes the data items into the data image as
  little-endian bytes and encodes each text item: the pseudo-instruction \<open>la\<close> becomes
  \<open>auipc\<close> + \<open>addi\<close>, every other mnemonic is dispatched through \<open>INSTR_MAP\<close> to a
  handler that resolves registers with \<open>parse_reg\<close>, immediates with \<open>int(x, 0)\<close> and
  labels through the symbol table, and packs the fields with one of the six format
  encoders \<open>formato_r\<close> \ldots \<open>formato_j\<close>.  \<open>write_text_bin_file\<close> writes the
  listing and the raw text and data files; \<open>main\<close> reads the arguments.

  \<^bold>\<open>The theories.\<close>
  \<^item> \<open>Prelude\<close>: Python's exceptions as values (\<open>py_exc + 'a\<close>, \<open>py_bind\<close>,
    \<open>py_index\<close>), the bit-field vocabulary \<open>fits\<close>/\<open>field\<close> of the encoders, and the
    lemmas on \<open>while_option\<close> that give the \<open>.align\<close> loops their closed form.
  \<^item> \<open>PyRuntime\<close>: the built-ins the source calls (\<open>strip\<close>, \<open>lower\<close>, \<open>split\<close>,
    \<open>int(s, 0)\<close>, the three regular expressions, the \<open>unicode_escape\<close> codec chain),
    executable on ASCII text.
  \<^item> \<open>Registers\<close>: \<open>parse_reg\<close> (lines 31--74) with its name tables.
  \<^item> \<open>Formats\<close>: \<open>formato_r\<close> \ldots \<open>formato_j\<close> (lines 78--108), \<open>to_signed\<close> and
    \<open>int_to_bin\<close> (lines 22--29), and the RV32I field decoders \<open>opcode_of\<close> \ldots
    \<open>imm_j\<close>, written from the ISA manual, that specify them.
  \<^item> \<open>Instructions\<close>: the 33 handlers (lines 112--321), \<open>INSTR_MAP\<close> (lines
    323--364), the call of a handler by its format tag (\<open>run_handler\<close>, lines
    541--551) and the RV32I opcode map \<open>rv32i_isa\<close> the table is checked against.
  \<^item> \<open>LineParser\<close>: \<open>parse_line\<close> (lines 368--394) and the datatype \<open>parsed\<close> of its
    four result tuples.
  \<^item> \<open>Pass1\<close>: the first loop of \<open>assemble\<close> (lines 399--500).  Its locals are the
    record \<open>p1_state\<close>; one line is \<open>process_line\<close> (label, label with a remainder,
    \<open>directive\<close>, \<open>data_directive\<close>, \<open>instruction\<close>); the loop is \<open>pass1_from\<close>.
    The reachable states are the inductive predicate \<open>p1_reach\<close>.
  \<^item> \<open>Pass2\<close>: the second and third loops (lines 503--556): \<open>write_data\<close> and
    \<open>write_data_item\<close> with \<open>le_bytes\<close>/\<open>store_bytes\<close>, \<open>encode_text\<close>,
    \<open>encode_instr\<close> and \<open>encode_la\<close>, and \<open>assemble\<close> itself.  The two
    \<open>OrderedDict\<close> images are association lists updated with \<open>AList.update\<close>, which,
    like assignment to an \<open>OrderedDict\<close>, replaces an existing key in place and
    appends a new one.

  \<^bold>\<open>Effects.\<close>  Every exception of the source is a value: \<open>Inl\<close> of \<open>py_exc\<close>
  inside a handler, \<open>Inl\<close> of \<open>asm_error\<close> in \<open>assemble\<close> (\<open>PyError\<close> for a built-in,
  \<open>StringLiteralExpected\<close>, \<open>SymbolNotFound\<close>, \<open>InstrError\<close> for the \<open>try\<close> of line
  553, \<open>UnknownMnemonic\<close>).  The only loops that may not end are the two \<open>while\<close>
  loops of \<open>.align\<close>; they are \<open>while_option\<close>, and a run of \<open>assemble\<close> has the type
  \<open>(asm_error + 'a) option\<close> whose \<open>None\<close> is the endless loop.  No fuel is used:
  termination is proved, not assumed (\<open>pass1_terminates\<close>, \<open>assemble_returns\<close>).
  Python integers are \<open>int\<close>; the shifts and masks are \<open>push_bit\<close>, \<open>drop_bit\<close>,
  \<open>AND\<close>, \<open>OR\<close> on unbounded two's complement, so the results are exact, including
  negative words produced from the sentinel \<open>-1\<close> of \<open>parse_reg\<close>.

  \<^item> \<open>Serializer\<close>: \<open>write_text_bin_file\<close> (lines 562--587): the listing, the raw
    text file (\<open>struct.pack('<I', w)\<close>, \<open>struct.error\<close> out of range) and the raw data
    file (one byte per address from the lowest to the highest), as values: the files
    written and the exception that stops the writer.

  \<^bold>\<open>The linear-algebra scripts.\<close>  \<open>src/AL-att/\<close> holds four independent scripts on
  lists of rows; Python floats are \<open>real\<close> (exact arithmetic: rounding is not modelled,
  the tolerances \<open>1e-10\<close> are kept), a failing index is \<open>IndexError\<close>, \<open>max\<close> of an
  empty range \<open>ValueError\<close> and a division by zero \<open>ZeroDivisionError\<close>.  Python's
  float operations never raise (overflow gives \<open>inf\<close>, comparisons with NaN are
  false), so the claims on the scripts are statements that hold whatever the
  rounding: shapes, exceptions, entries set without arithmetic, and failures of the
  tolerances that happen in floating point as well.  The lemmas on computed values
  (kernel preservation, back substitution, characteristic polynomial, eigenvectors,
  roots) describe the algorithms in exact arithmetic only.
  \<^item> \<open>AlgebraQ1\<close>: \<open>base_W\<close> of \<open>algebra_q1.py\<close>.
  \<^item> \<open>AlgebraQ4\<close>: the determinants, \<open>subtrair_lambdaI\<close>, \<open>polinomio_caracteristico\<close>
    and \<open>resolver_quadratica\<close> of \<open>algebra_q4.py\<close>.
  \<^item> \<open>Escalonar\<close>: \<open>escalonar\<close>, Gaussian elimination with partial pivoting, which
    \<open>algebra_q2.py\<close>, \<open>algebra_q3.py\<close> and \<open>algebra_q4.py\<close> each contain; the loop over
    the columns is \<open>py_fold\<close> of \<open>escalonar_step\<close> over the state (matrix,
    \<open>pivo_linha\<close>); \<open>break\<close> is a step that changes nothing.
  \<^item> \<open>KernelBasis\<close>: \<open>achar_pivos\<close> (two tolerances), the back substitution
    \<open>back_step\<close>/\<open>nucleo_vetor\<close>, \<open>calcular_base_nucleo\<close> and the computation of
    \<open>main\<close> of q2 (\<open>nucleo_q2\<close>), and \<open>base_nucleo\<close> of q4.  The order in which
    \<open>list(set(...))\<close> lists the free columns is CPython's hash order; it is a
    parameter \<open>list_of\<close> and the lemmas hold for every order that lists the set.
  \<^item> \<open>LinearSystem\<close>: \<open>resolver_sistema\<close> and the matrix \<open>matriz_T\<close> of \<open>main\<close> in
    \<open>algebra_q3.py\<close>.
  \<^item> \<open>Eigen\<close>: the eigenvalue loop of \<open>main\<close> in \<open>algebra_q4.py\<close> (\<open>autoespacos\<close>).

  \<^bold>\<open>What the lemmas show.\<close>
  \<^item> End to end: the example of the specification assembles to the expected words
    (C1); \<open>la\<close> reaches its symbol only when bit 11 of the displacement is clear
    (C2), and its second word is overwritten by the next instruction (C23).
  \<^item> The dispatch table refines the RV32I opcode map (C3); branches and \<open>jal\<close>
    encode the label's address minus their own, reduced to the field (C4, C5);
    \<open>lui\<close>/\<open>auipc\<close> take the shifted value as operand (C22).
  \<^item> Safety and liveness of the driver: every state of pass 1 keeps the text cursor
    word-aligned and above \<open>TEXT_BASE\<close> and the data cursor above \<open>DATA_BASE\<close>
    (C8, an invariant of the inductive \<open>p1_reach\<close>); pass 1 ends (C9), and pass 2 is
    structural recursion, so \<open>assemble\<close> always returns; the data image holds only
    bytes between \<open>DATA_BASE\<close> and the data cursor (C6); the text image holds exactly
    the slots of the text items, aligned and below the cursor (C26); data items are
    little-endian (C7); each error of pass 2 is located at a text item (C10); the
    \<open>.align\<close> loops have closed forms (C24, C25).
  \<^item> Encoders: each format decodes back to its fields, with immediates reduced to the
    field width (C11--C15); branch and jump offsets survive exactly in range
    (C16, C17); fields in range give an unsigned 32-bit word (C18).
  \<^item> Registers: \<open>parse_reg\<close> agrees with the register table of the specification,
    written out independently of the code, except for \<open>s10\<close>, \<open>s11\<close> (C19, C20), and
    returns an index or \<open>-1\<close> (C21).
  \<^item> Output: the raw data file is contiguous and never raises on assembled data
    (C27); an unknown register surfaces only as \<open>struct.error\<close> of the writer (C28).
  \<^item> Linear algebra: \<open>escalonar\<close> returns a matrix of the same shape on every
    rectangular matrix (C29); \<open>calcular_base_nucleo\<close> returns one independent vector
    per free column, as many as the columns minus the pivots (C30); the computation of
    q3's \<open>main\<close> never raises (C31).  The tolerances fail in floating point as well:
    in q2 they disagree and yield a vector outside the kernel of an invertible matrix
    (C32); \<open>resolver_sistema\<close> silently drops an equation with a tiny pivot (C33).
    \<open>base_W\<close> reports the right dimension and a non-zero first vector of its plane
    (C34).

  \<^bold>\<open>Not modelled.\<close>  \<open>main\<close> of the assembler (lines 591--605) and the input and
  printing functions of the scripts (\<open>ler_matriz\<close>, \<open>ler_vetor\<close>, \<open>ler_base\<close>, the
  prints of each \<open>main\<close>) are console and file
  I/O.  Python strings are modelled by their bytes, which is exact for the ASCII
  sources the assembler is meant for; \<open>unicode_escape\<close> is modelled on the escapes it
  decodes.  Floating-point rounding is not modelled; see above for what the claims on
  the scripts therefore state.
\<close>

end
